(* ===== verification/Prelude.thy ===== *)
theory Prelude
  imports Main "HOL-Library.Multiset" "HOL-Library.List_Lexorder" "HOL-Library.Char_ord"
begin

text \<open>
  What every component shares: Go's 64-bit integers, slices and the panic of a slice
  expression, comparison functions and the sort routines of package \<open>slices\<close>, and Go
  maps as association lists in insertion order together with a permutation that stands
  for the unspecified iteration order of a \<open>range\<close> loop.
\<close>

named_theorems go_simps "equations that evaluate the Go library fragments"
named_theorems comparator_intros "rules that show a comparison function is lawful"

subsection \<open>Machine integers\<close>

text \<open>
  Go's \<open>int\<close> and \<open>int64\<close> are two's complement and wrap. A value is an \<open>int\<close>; an
  operation that can leave the range applies \<open>wrap64\<close>.
\<close>

definition max_int64 :: int where
  "max_int64 = 9223372036854775807"

definition min_int64 :: int where
  "min_int64 = - 9223372036854775808"

definition wrap64 :: "int \<Rightarrow> int" where
  "wrap64 x = (x + 9223372036854775808) mod 18446744073709551616 - 9223372036854775808"

definition in_int64 :: "int \<Rightarrow> bool" where
  "in_int64 x \<longleftrightarrow> min_int64 \<le> x \<and> x \<le> max_int64"

lemma wrap64_over: "max_int64 < x \<Longrightarrow> x \<le> 2 * max_int64 \<Longrightarrow> wrap64 x = x - 18446744073709551616"
proof -
  assume x: "max_int64 < x" "x \<le> 2 * max_int64"
  have "(x + 9223372036854775808) mod 18446744073709551616
      = (x + 9223372036854775808 - 18446744073709551616) mod 18446744073709551616"
    by (rule minus_mod_self2 [symmetric])
  also have "\<dots> = x + 9223372036854775808 - 18446744073709551616"
    using x by (intro mod_pos_pos_trivial) (simp_all add: max_int64_def)
  finally show ?thesis by (simp add: wrap64_def)
qed

lemma wrap64_id: "in_int64 x \<Longrightarrow> wrap64 x = x"
  by (simp add: in_int64_def wrap64_def min_int64_def max_int64_def)

lemma wrap64_range: "in_int64 (wrap64 x)"
proof -
  have "0 \<le> (x + 9223372036854775808) mod 18446744073709551616"
    and "(x + 9223372036854775808) mod 18446744073709551616 < 18446744073709551616"
    by simp_all
  then show ?thesis
    unfolding in_int64_def wrap64_def min_int64_def max_int64_def by linarith
qed

lemma wrap64_add: "wrap64 (wrap64 x + y) = wrap64 (x + y)"
proof -
  have "(wrap64 x + y + 9223372036854775808) mod 18446744073709551616
      = ((x + 9223372036854775808) mod 18446744073709551616 + y) mod 18446744073709551616"
    by (simp add: wrap64_def algebra_simps)
  also have "\<dots> = (x + 9223372036854775808 + y) mod 18446744073709551616"
    by (rule mod_add_left_eq)
  finally show ?thesis
    by (simp add: wrap64_def algebra_simps)
qed

lemma wrap64_add_right: "wrap64 (y + wrap64 x) = wrap64 (y + x)"
  using wrap64_add [of x y] by (simp add: add.commute)

subsection \<open>Slices\<close>

text \<open>
  \<open>s[lo:hi]\<close> panics unless \<open>0 \<le> lo \<le> hi \<le> len s\<close>; \<open>None\<close> is the panic. (Go checks
  \<open>hi\<close> against the capacity; every slice cut in the modelled code is the result of
  \<open>append\<close> or of a query, and the code never relies on spare capacity.)
\<close>

definition go_slice :: "'a list \<Rightarrow> int \<Rightarrow> int \<Rightarrow> 'a list option" where
  "go_slice xs lo hi =
     (if 0 \<le> lo \<and> lo \<le> hi \<and> hi \<le> int (length xs)
      then Some (take (nat (hi - lo)) (drop (nat lo) xs)) else None)"

lemma go_slice_Some:
  "0 \<le> lo \<Longrightarrow> lo \<le> hi \<Longrightarrow> hi \<le> int (length xs) \<Longrightarrow>
   go_slice xs lo hi = Some (take (nat (hi - lo)) (drop (nat lo) xs))"
  by (simp add: go_slice_def)

subsection \<open>Comparison functions and sorting\<close>

text \<open>\<open>cmp.Compare\<close> and \<open>cmp.Or\<close>.\<close>

definition cmp_compare :: "'a::linorder \<Rightarrow> 'a \<Rightarrow> int" where
  "cmp_compare a b = (if a < b then -1 else if b < a then 1 else 0)"

fun cmp_or :: "int list \<Rightarrow> int" where
  "cmp_or [] = 0"
| "cmp_or (x # xs) = (if x \<noteq> 0 then x else cmp_or xs)"

text \<open>
  \<open>slices.SortStableFunc\<close>: insertion from the right, so equal elements keep their order.
  \<open>slices.SortFunc\<close> promises a sorted permutation and nothing about equal elements; it is
  modelled by the same function, one of the results Go allows. Where the comparison is
  total on the sorted elements, \<open>sort_func_unique\<close> below shows it is the only one.
\<close>

fun insort_by :: "('a \<Rightarrow> 'a \<Rightarrow> int) \<Rightarrow> 'a \<Rightarrow> 'a list \<Rightarrow> 'a list" where
  "insort_by c x [] = [x]"
| "insort_by c x (y # ys) = (if c x y \<le> 0 then x # y # ys else y # insort_by c x ys)"

fun sort_func :: "('a \<Rightarrow> 'a \<Rightarrow> int) \<Rightarrow> 'a list \<Rightarrow> 'a list" where
  "sort_func c [] = []"
| "sort_func c (x # xs) = insort_by c x (sort_func c xs)"

lemma mset_insort_by [simp]: "mset (insort_by c x xs) = add_mset x (mset xs)"
  by (induction xs) auto

lemma mset_sort_func [simp]: "mset (sort_func c xs) = mset xs"
  by (induction xs) auto

lemma set_insort_by [simp]: "set (insort_by c x xs) = insert x (set xs)"
  by (induction xs) auto

lemma set_sort_func [simp]: "set (sort_func c xs) = set xs"
  by (induction xs) auto

lemma length_sort_func [simp]: "length (sort_func c xs) = length xs"
  by (rule mset_eq_length) simp

lemma sort_func_Nil_iff [simp]: "sort_func c xs = [] \<longleftrightarrow> xs = []"
  by (metis length_0_conv length_sort_func)

lemma distinct_map_sort_func:
  "distinct (map f (sort_func c xs)) \<longleftrightarrow> distinct (map f xs)"
  by (metis mset_map mset_sort_func mset_eq_imp_distinct_iff)

lemma map_insort_by:
  assumes "\<And>a b. c' (f a) (f b) = c a b"
  shows "map f (insort_by c x xs) = insort_by c' (f x) (map f xs)"
  by (induction xs) (auto simp: assms)

lemma map_sort_func:
  assumes "\<And>a b. c' (f a) (f b) = c a b"
  shows "map f (sort_func c xs) = sort_func c' (map f xs)"
  by (induction xs) (simp_all add: map_insort_by [where c' = c' and c = c, OF assms])

lemma sum_list_map_mset:
  fixes f :: "'a \<Rightarrow> 'b::comm_monoid_add"
  shows "mset xs = mset ys \<Longrightarrow> sum_list (map f xs) = sum_list (map f ys)"
  by (metis mset_map sum_mset_sum_list)

lemma sum_list_sort_func [simp]:
  "sum_list (map f (sort_func c xs)) = (sum_list (map f xs) :: 'a::comm_monoid_add)"
  by (rule sum_list_map_mset) simp

lemma distinct_key_inj:
  "distinct (map key xs) \<Longrightarrow> a \<in> set xs \<Longrightarrow> b \<in> set xs \<Longrightarrow> key a = key b \<Longrightarrow> a = b"
  by (meson distinct_map inj_onD)

text \<open>The contract a comparison function has to keep for a sort to mean anything.\<close>

locale comparator =
  fixes c :: "'a \<Rightarrow> 'a \<Rightarrow> int"
  assumes sign: "sgn (c a b) = - sgn (c b a)"
    and chain: "c a b \<le> 0 \<Longrightarrow> c b d \<le> 0 \<Longrightarrow> c a d \<le> 0"
begin

lemma self: "c a a = 0"
  using sign [of a a] by (auto simp: sgn_if split: if_splits)

lemma le_or_ge: "\<not> c a b \<le> 0 \<Longrightarrow> c b a \<le> 0"
  using sign [of a b] by (auto simp: sgn_if split: if_splits)

lemma both_le: "c a b \<le> 0 \<Longrightarrow> c b a \<le> 0 \<Longrightarrow> c a b = 0"
  using sign [of a b] by (auto simp: sgn_if split: if_splits)

lemma insort_sorted:
  "sorted_wrt (\<lambda>a b. c a b \<le> 0) xs \<Longrightarrow> sorted_wrt (\<lambda>a b. c a b \<le> 0) (insort_by c x xs)"
  by (induction xs) (auto intro: chain le_or_ge)

lemma sort_sorted: "sorted_wrt (\<lambda>a b. c a b \<le> 0) (sort_func c xs)"
  by (induction xs) (auto intro: insort_sorted)

lemma sorted_unique:
  assumes "mset xs = mset ys"
    and "sorted_wrt (\<lambda>a b. c a b \<le> 0) xs" and "sorted_wrt (\<lambda>a b. c a b \<le> 0) ys"
    and "\<And>a b. a \<in> set xs \<Longrightarrow> b \<in> set xs \<Longrightarrow> c a b = 0 \<Longrightarrow> a = b"
  shows "xs = ys"
  using assms
proof (induction xs arbitrary: ys)
  case Nil
  then show ?case by simp
next
  case (Cons x xs)
  then obtain y ys' where ys: "ys = y # ys'"
    by (cases ys) auto
  have "x \<in> set ys" and "y \<in> set (x # xs)"
    using Cons.prems(1) ys by (metis list.set_intros(1) set_mset_mset)+
  then have "c x y \<le> 0" and "c y x \<le> 0"
    using Cons.prems(2,3) ys self by auto
  then have xy: "x = y"
    using Cons.prems(4) \<open>y \<in> set (x # xs)\<close> both_le by simp
  with Cons.prems ys have "xs = ys'"
    by (intro Cons.IH) auto
  with xy ys show ?case by simp
qed

lemma sort_func_unique:
  assumes "mset xs = mset ys" and "sorted_wrt (\<lambda>a b. c a b \<le> 0) ys"
    and "\<And>a b. a \<in> set xs \<Longrightarrow> b \<in> set xs \<Longrightarrow> c a b = 0 \<Longrightarrow> a = b"
  shows "sort_func c xs = ys"
  using assms by (intro sorted_unique) (auto intro: sort_sorted)

lemma sort_func_perm:
  assumes "mset xs = mset ys"
    and "\<And>a b. a \<in> set xs \<Longrightarrow> b \<in> set xs \<Longrightarrow> c a b = 0 \<Longrightarrow> a = b"
  shows "sort_func c xs = sort_func c ys"
  using assms by (intro sort_func_unique) (auto intro: sort_sorted)

lemma sort_func_stable_id:
  "sorted_wrt (\<lambda>a b. c a b \<le> 0) xs \<Longrightarrow> sort_func c xs = xs"
proof (induction xs)
  case Nil
  then show ?case by simp
next
  case (Cons x xs)
  then show ?case by (cases xs) auto
qed

end

lemma comparator_key [comparator_intros]: "comparator (\<lambda>a b. cmp_compare (f a) (f b))"
  by unfold_locales (auto simp: cmp_compare_def split: if_splits)

lemma comparator_rev_key [comparator_intros]: "comparator (\<lambda>a b. cmp_compare (f b) (f a))"
  by unfold_locales (auto simp: cmp_compare_def split: if_splits)

lemma comparator_or_Nil [comparator_intros]: "comparator (\<lambda>a b. cmp_or [])"
  by unfold_locales auto

lemma comparator_or_Cons [comparator_intros]:
  assumes C: "comparator c" and D: "comparator (\<lambda>a b. cmp_or (ds a b))"
  shows "comparator (\<lambda>a b. cmp_or (c a b # ds a b))"
proof
  fix a b
  show "sgn (cmp_or (c a b # ds a b)) = - sgn (cmp_or (c b a # ds b a))"
    using comparator.sign [OF C, of a b] comparator.sign [OF D, of a b]
    by (auto simp: sgn_if split: if_splits)
next
  fix a b d
  assume ab: "cmp_or (c a b # ds a b) \<le> 0" and bd: "cmp_or (c b d # ds b d) \<le> 0"
  have le: "c a b \<le> 0" "c b d \<le> 0" using ab bd by (auto split: if_splits)
  then have ad: "c a d \<le> 0" by (rule comparator.chain [OF C])
  show "cmp_or (c a d # ds a d) \<le> 0"
  proof (cases "c a d = 0")
    case True
    then have "c d a \<le> 0" using comparator.sign [OF C, of a d] by (simp add: sgn_if split: if_splits)
    then have "c b a \<le> 0" "c d b \<le> 0"
      using le comparator.chain [OF C] by blast+
    with le have "c a b = 0" "c b d = 0"
      using comparator.both_le [OF C] by blast+
    with ab bd have "cmp_or (ds a b) \<le> 0" "cmp_or (ds b d) \<le> 0" by simp_all
    then have "cmp_or (ds a d) \<le> 0" by (rule comparator.chain [OF D])
    with True show ?thesis by simp
  qed (use ad in simp)
qed

lemma cmp_compare_eq_0 [simp]: "cmp_compare a b = 0 \<longleftrightarrow> a = b"
  by (auto simp: cmp_compare_def)

lemma cmp_compare_le_0 [simp]: "cmp_compare a b \<le> 0 \<longleftrightarrow> a \<le> b"
  by (auto simp: cmp_compare_def)

lemma cmp_or_eq_0: "cmp_or xs = 0 \<longleftrightarrow> (\<forall>x \<in> set xs. x = 0)"
  by (induction xs) auto

subsection \<open>Go maps\<close>

text \<open>
  A Go map is kept as its entries in the order the keys were first inserted.
  \<open>map_upsert k d f m\<close> is \<open>m[k] = f(m[k])\<close> with \<open>d\<close> for a missing entry. A \<open>range\<close>
  loop visits the entries in an order the language leaves open: the modelled loops take
  a permutation \<open>ord\<close> of the entries.
\<close>

fun map_upsert :: "'k \<Rightarrow> 'v \<Rightarrow> ('v \<Rightarrow> 'v) \<Rightarrow> ('k \<times> 'v) list \<Rightarrow> ('k \<times> 'v) list" where
  "map_upsert k d f [] = [(k, f d)]"
| "map_upsert k d f ((k', v) # m) =
     (if k' = k then (k', f v) # m else (k', v) # map_upsert k d f m)"

definition permuting :: "('a list \<Rightarrow> 'a list) \<Rightarrow> bool" where
  "permuting ord \<longleftrightarrow> (\<forall>xs. mset (ord xs) = mset xs)"

lemma permuting_mset: "permuting ord \<Longrightarrow> mset (ord xs) = mset xs"
  by (simp add: permuting_def)

lemma permuting_set: "permuting ord \<Longrightarrow> set (ord xs) = set xs"
  by (metis permuting_mset set_mset_mset)

lemma permuting_map_mset: "permuting ord \<Longrightarrow> mset (map f (ord xs)) = mset (map f xs)"
  by (simp add: permuting_mset)

lemma permuting_distinct: "permuting ord \<Longrightarrow> distinct (map f (ord xs)) \<longleftrightarrow> distinct (map f xs)"
  by (metis mset_map permuting_mset mset_eq_imp_distinct_iff)

lemma permuting_id [simp]: "permuting (\<lambda>xs. xs)"
  by (simp add: permuting_def)

lemma permuting_rev [simp]: "permuting rev"
  by (simp add: permuting_def)

text \<open>The keys in first-seen order.\<close>

fun first_seen :: "'k list \<Rightarrow> 'k list" where
  "first_seen [] = []"
| "first_seen (k # ks) = k # filter (\<lambda>k'. k' \<noteq> k) (first_seen ks)"

lemma set_first_seen [simp]: "set (first_seen ks) = set ks"
  by (induction ks) auto

lemma distinct_first_seen [simp]: "distinct (first_seen ks)"
  by (induction ks) auto

lemma first_seen_snoc:
  "first_seen (ks @ [k]) = (if k \<in> set ks then first_seen ks else first_seen ks @ [k])"
  by (induction ks) (auto simp: filter_id_conv)

lemma first_seen_Nil_iff [simp]: "first_seen ks = [] \<longleftrightarrow> ks = []"
  by (cases ks) auto

text \<open>
  The loop every aggregation of the code runs: one \<open>map_upsert\<close> per element. Its result
  in closed form, from which the lemmas about the aggregations follow.
\<close>

definition group_loop ::
  "('a \<Rightarrow> 'k) \<Rightarrow> 'v \<Rightarrow> ('a \<Rightarrow> 'v \<Rightarrow> 'v) \<Rightarrow> 'a list \<Rightarrow> ('k \<times> 'v) list" where
  "group_loop key d step xs = fold (\<lambda>x m. map_upsert (key x) d (step x) m) xs []"

lemma map_upsert_closed:
  "distinct ks \<Longrightarrow>
   map_upsert k d f (map (\<lambda>k'. (k', g k')) ks) =
     (if k \<in> set ks then map (\<lambda>k'. (k', (g(k := f (g k))) k')) ks
      else map (\<lambda>k'. (k', g k')) ks @ [(k, f d)])"
  by (induction ks) (auto simp: fun_upd_def)

lemma group_loop_snoc:
  "group_loop key d step (xs @ [x]) = map_upsert (key x) d (step x) (group_loop key d step xs)"
  by (simp add: group_loop_def)

lemma group_loop_closed:
  "group_loop key d step xs =
     map (\<lambda>k. (k, fold step (filter (\<lambda>x. key x = k) xs) d)) (first_seen (map key xs))"
proof (induction xs rule: rev_induct)
  case Nil
  then show ?case by (simp add: group_loop_def)
next
  case (snoc x xs)
  have "filter (\<lambda>y. key y = key x) xs = []" if "key x \<notin> key ` set xs"
    using that by (auto simp: filter_empty_conv image_iff)
  then show ?case
    unfolding group_loop_snoc snoc
    by (subst map_upsert_closed) (auto simp: first_seen_snoc)
qed

lemma map_fst_group_loop [simp]: "map fst (group_loop key d step xs) = first_seen (map key xs)"
  by (simp add: group_loop_closed comp_def)

lemma distinct_group_loop: "distinct (map fst (group_loop key d step xs))"
  by simp

lemma group_loop_mem:
  "(k, v) \<in> set (group_loop key d step xs) \<longleftrightarrow>
     k \<in> key ` set xs \<and> v = fold step (filter (\<lambda>x. key x = k) xs) d"
  by (auto simp: group_loop_closed)

text \<open>Collecting the elements of each group, in order, is the group itself.\<close>

lemma fold_append_singleton: "fold (\<lambda>x ys. ys @ [x]) xs ys = ys @ xs"
  by (induction xs arbitrary: ys) auto

lemma fold_count: "fold (\<lambda>_ n. n + 1) xs n = n + int (length xs)"
  by (induction xs arbitrary: n) auto

text \<open>Counting over groups adds up to the whole.\<close>

lemma length_filter_key_sum:
  "distinct ks \<Longrightarrow> key ` set xs \<subseteq> set ks \<Longrightarrow>
   sum_list (map (\<lambda>k. length (filter (\<lambda>x. key x = k) xs)) ks) = length xs"
proof (induction xs)
  case Nil
  then show ?case by (simp add: sum_list_0)
next
  case (Cons x xs)
  have "sum_list (map (\<lambda>k. length (filter (\<lambda>y. key y = k) (x # xs))) ks)
      = sum_list (map (\<lambda>k. if key x = k then 1 else 0) ks)
        + sum_list (map (\<lambda>k. length (filter (\<lambda>y. key y = k) xs)) ks)"
    unfolding sum_list_addf [symmetric] by (rule arg_cong [where f = sum_list]) auto
  moreover have "sum_list (map (\<lambda>k. if key x = k then 1 else (0::nat)) ks) = 1"
    using Cons.prems by (simp add: sum_list_distinct_conv_sum_set sum.delta')
  ultimately show ?case using Cons by simp
qed

text \<open>Lookups by key in a table with distinct keys.\<close>

lemma find_mem: "find P xs = Some x \<Longrightarrow> x \<in> set xs \<and> P x"
  by (induction xs) (auto split: if_splits)

lemma find_append: "find P (xs @ ys) = (case find P xs of None \<Rightarrow> find P ys | Some x \<Rightarrow> Some x)"
  by (induction xs) auto

lemma map_of_rev: "distinct (map fst xs) \<Longrightarrow> map_of (rev xs) = map_of xs"
proof (rule ext)
  fix k assume "distinct (map fst xs)"
  then have "map_of (rev xs) k = Some v \<longleftrightarrow> map_of xs k = Some v" for v
    by (simp add: map_of_eq_Some_iff rev_map [symmetric])
  then show "map_of (rev xs) k = map_of xs k" by (metis not_None_eq)
qed

lemma find_filter_distinct:
  "distinct (map key xs) \<Longrightarrow>
   find (\<lambda>x. key x = k) (filter P xs) =
     (case find (\<lambda>x. key x = k) xs of None \<Rightarrow> None | Some x \<Rightarrow> if P x then Some x else None)"
proof (induction xs)
  case (Cons x xs)
  have "find (\<lambda>y. key y = key x) (filter P xs) = None"
    using Cons.prems by (auto simp: find_None_iff image_iff)
  then show ?case using Cons by auto
qed simp

lemma find_map_key:
  "(\<And>x. key (f x) = key x) \<Longrightarrow> find (\<lambda>x. key x = k) (map f xs) = map_option f (find (\<lambda>x. key x = k) xs)"
  by (induction xs) auto

lemma map_of_same_entries:
  assumes "distinct (map fst xs)" and "mset ys = mset xs" shows "map_of ys = map_of xs"
proof
  fix k
  have "distinct (map fst ys)"
    using assms mset_eq_imp_distinct_iff [of "map fst ys" "map fst xs"] by simp
  moreover have "set ys = set xs" using assms(2) by (rule mset_eq_setD)
  ultimately have "map_of ys k = Some v \<longleftrightarrow> map_of xs k = Some v" for v
    using assms(1) by (simp add: map_of_eq_Some_iff)
  then show "map_of ys k = map_of xs k" by (metis not_None_eq)
qed

end
