(* ===== verification/GoText.thy ===== *)
theory GoText
  imports Prelude
begin

text \<open>
  The fragments of Go's \<open>strings\<close>, \<open>strconv\<close>, \<open>unicode/utf8\<close> and \<open>encoding/base64\<close>
  that the code uses, on strings as lists of bytes (a \<open>char\<close> of HOL is one byte), and
  the round trips of the base64 and decimal codecs.
\<close>

subsection \<open>Bytes and prefixes\<close>

abbreviation byte :: "char \<Rightarrow> nat" where
  "byte c \<equiv> of_char c"

fun has_prefix :: "string \<Rightarrow> string \<Rightarrow> bool" where
  "has_prefix s [] = True"
| "has_prefix [] (p # ps) = False"
| "has_prefix (c # s) (p # ps) = (c = p \<and> has_prefix s ps)"

definition has_suffix :: "string \<Rightarrow> string \<Rightarrow> bool" where
  "has_suffix s p = has_prefix (rev s) (rev p)"

definition trim_prefix :: "string \<Rightarrow> string \<Rightarrow> string" where
  "trim_prefix s p = (if has_prefix s p then drop (length p) s else s)"

definition trim_suffix :: "string \<Rightarrow> string \<Rightarrow> string" where
  "trim_suffix s p = (if has_suffix s p then take (length s - length p) s else s)"

lemma has_prefix_iff: "has_prefix s p \<longleftrightarrow> (\<exists>t. s = p @ t)"
  by (induction s p rule: has_prefix.induct) auto

lemma has_suffix_iff: "has_suffix s p \<longleftrightarrow> (\<exists>t. s = t @ p)"
  by (auto simp: has_suffix_def has_prefix_iff) (metis rev_append rev_rev_ident)

lemma has_prefix_self [simp]: "has_prefix (p @ t) p"
  by (simp add: has_prefix_iff)

text \<open>\<open>strings.Trim(s, c)\<close> and \<open>strings.TrimRight(s, c)\<close> for a cutset of one byte.\<close>

definition trim_left_char :: "char \<Rightarrow> string \<Rightarrow> string" where
  "trim_left_char c s = dropWhile (\<lambda>x. x = c) s"

definition trim_right_char :: "char \<Rightarrow> string \<Rightarrow> string" where
  "trim_right_char c s = rev (dropWhile (\<lambda>x. x = c) (rev s))"

definition trim_char :: "char \<Rightarrow> string \<Rightarrow> string" where
  "trim_char c s = trim_right_char c (trim_left_char c s)"

text \<open>
  \<open>strings.TrimSpace\<close>: the UTF-8 encodings of the runes \<open>unicode.IsSpace\<close> accepts.
\<close>

definition space_seqs :: "string list" where
  "space_seqs = map (map char_of)
     ([[9], [10], [11], [12], [13], [32], [194, 133], [194, 160], [225, 154, 128]]
      @ map (\<lambda>b. [226, 128, b]) [128..<139] @ [[226, 128, 168], [226, 128, 169],
         [226, 128, 175], [226, 129, 159], [227, 128, 128 :: nat]])"

fun strip_seqs :: "nat \<Rightarrow> string list \<Rightarrow> string \<Rightarrow> string" where
  "strip_seqs 0 ps s = s"
| "strip_seqs (Suc n) ps s =
     (case filter (has_prefix s) ps of [] \<Rightarrow> s | p # _ \<Rightarrow> strip_seqs n ps (drop (length p) s))"

definition trim_space :: "string \<Rightarrow> string" where
  "trim_space s =
     (let t = strip_seqs (length s) space_seqs s
      in rev (strip_seqs (length t) (map rev space_seqs) (rev t)))"

text \<open>\<open>strings.Cut\<close> and \<open>strings.SplitN(s, sep, 2)\<close> at a one-byte separator.\<close>

fun cut :: "char \<Rightarrow> string \<Rightarrow> string \<times> string \<times> bool" where
  "cut c [] = ([], [], False)"
| "cut c (x # s) =
     (if x = c then ([], s, True)
      else case cut c s of (a, b, f) \<Rightarrow> (x # a, b, f))"

definition split_n2 :: "char \<Rightarrow> string \<Rightarrow> string list" where
  "split_n2 c s = (case cut c s of (a, b, True) \<Rightarrow> [a, b] | (a, _, False) \<Rightarrow> [a])"

fun split_on :: "char \<Rightarrow> string \<Rightarrow> string list" where
  "split_on c [] = [[]]"
| "split_on c (x # s) =
     (if x = c then [] # split_on c s
      else case split_on c s of [] \<Rightarrow> [[x]] | p # ps \<Rightarrow> (x # p) # ps)"

lemma cut_found: "c \<notin> set a \<Longrightarrow> cut c (a @ c # b) = (a, b, True)"
  by (induction a) auto

lemma cut_sound: "cut c s = (a, b, f) \<Longrightarrow> (if f then s = a @ c # b else s = a \<and> b = []) \<and> c \<notin> set a"
  by (induction s arbitrary: a b f) (fastforce split: if_splits prod.splits)+

lemma split_n2_found: "c \<notin> set a \<Longrightarrow> split_n2 c (a @ c # b) = [a, b]"
  by (simp add: split_n2_def cut_found)

lemma split_n2_two:
  "split_n2 c s = [a, b] \<longleftrightarrow> s = a @ c # b \<and> c \<notin> set a"
proof
  assume "split_n2 c s = [a, b]"
  then have "cut c s = (a, b, True)"
    by (auto simp: split_n2_def split: prod.splits bool.splits)
  then show "s = a @ c # b \<and> c \<notin> set a" using cut_sound by fastforce
qed (auto simp: split_n2_found)

lemma split_n2_length: "length (split_n2 c s) = 1 \<or> length (split_n2 c s) = 2"
  by (auto simp: split_n2_def split: prod.splits bool.splits)

subsection \<open>UTF-8\<close>

text \<open>
  \<open>utf8.DecodeRune\<close>'s width: the length of a valid encoding, \<open>1\<close> for an invalid byte.
\<close>

definition cont_in :: "nat \<Rightarrow> nat \<Rightarrow> char \<Rightarrow> bool" where
  "cont_in lo hi c \<longleftrightarrow> lo \<le> byte c \<and> byte c \<le> hi"

definition rune_width :: "string \<Rightarrow> nat" where
  "rune_width s =
     (case s of [] \<Rightarrow> 0 | c0 # r \<Rightarrow>
        let b = byte c0; k = cont_in 128 191;
            lo = (if b = 224 then 160 else if b = 240 then 144 else 128);
            hi = (if b = 237 then 159 else if b = 244 then 143 else 191)
        in case r of
             [] \<Rightarrow> 1
           | c1 # r1 \<Rightarrow>
               if 194 \<le> b \<and> b \<le> 223 \<and> k c1 then 2
               else case r1 of
                 [] \<Rightarrow> 1
               | c2 # r2 \<Rightarrow>
                   if 224 \<le> b \<and> b \<le> 239 \<and> cont_in lo hi c1 \<and> k c2 then 3
                   else case r2 of
                     [] \<Rightarrow> 1
                   | c3 # _ \<Rightarrow>
                       if 240 \<le> b \<and> b \<le> 244 \<and> cont_in lo hi c1 \<and> k c2 \<and> k c3 then 4 else 1)"

lemma rune_width_pos: "s \<noteq> [] \<Longrightarrow> 0 < rune_width s"
  by (auto simp: rune_width_def Let_def split: list.splits)

function rune_count :: "string \<Rightarrow> nat" where
  "rune_count s = (if s = [] then 0 else Suc (rune_count (drop (rune_width s) s)))"
  by pat_completeness auto
termination
  by (relation "measure length") (auto simp: rune_width_pos)

declare rune_count.simps [simp del]

lemma rune_count_Nil [simp]: "rune_count [] = 0"
  by (simp add: rune_count.simps)

lemma rune_count_le: "rune_count s \<le> length s"
proof (induction s rule: rune_count.induct)
  case (1 s)
  show ?case
  proof (cases "s = []")
    case False
    have "length (drop (rune_width s) s) < length s"
      using rune_width_pos [OF False] False by simp
    then show ?thesis
      using 1 [OF False] by (subst rune_count.simps) (simp add: False)
  qed simp
qed

lemma rune_count_ascii: "\<forall>c \<in> set s. byte c < 128 \<Longrightarrow> rune_count s = length s"
proof (induction s)
  case Nil
  then show ?case by simp
next
  case (Cons c s)
  then have "rune_width (c # s) = 1"
    by (auto simp: rune_width_def Let_def split: list.splits)
  then show ?case using Cons by (subst rune_count.simps) simp
qed

subsection \<open>Words of a name\<close>

definition ascii :: "string \<Rightarrow> bool" where
  "ascii s \<longleftrightarrow> list_all (\<lambda>c. byte c < 128) s"

definition lower_char :: "char \<Rightarrow> char" where
  "lower_char c = (if 65 \<le> byte c \<and> byte c \<le> 90 then char_of (byte c + 32) else c)"

definition word_char :: "char \<Rightarrow> bool" where
  "word_char c \<longleftrightarrow>
     (let b = byte c in 48 \<le> b \<and> b \<le> 57 \<or> 65 \<le> b \<and> b \<le> 90 \<or> 97 \<le> b \<and> b \<le> 122)"

text \<open>\<open>strings.ReplaceAll(s, old, new)\<close> for a non-empty \<open>old\<close>: leftmost, not overlapping.\<close>

fun replace_all :: "nat \<Rightarrow> string \<Rightarrow> string \<Rightarrow> string \<Rightarrow> string" where
  "replace_all _ old new [] = []"
| "replace_all 0 old new (c # s) = c # s"
| "replace_all (Suc n) old new (c # s) =
     (if has_prefix (c # s) old then new @ replace_all n old new (drop (length old) (c # s))
      else c # replace_all n old new s)"

text \<open>\<open>strings.FieldsFunc\<close> with the separators the complement of \<open>p\<close>.\<close>

fun fields_by :: "(char \<Rightarrow> bool) \<Rightarrow> string \<Rightarrow> string \<Rightarrow> string list" where
  "fields_by p w [] = (if w = [] then [] else [rev w])"
| "fields_by p w (c # s) =
     (if p c then fields_by p (c # w) s
      else (if w = [] then fields_by p [] s else rev w # fields_by p [] s))"

subsection \<open>Decimal numbers\<close>

definition digit :: "char \<Rightarrow> nat option" where
  "digit c = (let b = byte c in if 48 \<le> b \<and> b \<le> 57 then Some (b - 48) else None)"

fun digits_value :: "nat \<Rightarrow> string \<Rightarrow> nat option" where
  "digits_value n [] = Some n"
| "digits_value n (c # s) =
     (case digit c of None \<Rightarrow> None | Some d \<Rightarrow> digits_value (10 * n + d) s)"

text \<open>
  \<open>strconv.Atoi\<close>: an optional sign, at least one decimal digit, nothing else, and a value
  in range. The error value is not looked at anywhere, so it is not kept.
\<close>

definition atoi :: "string \<Rightarrow> int option" where
  "atoi s =
     (let neg = (case s of c # _ \<Rightarrow> c = CHR ''-'' | [] \<Rightarrow> False);
          body = (case s of c # r \<Rightarrow> if c = CHR ''-'' \<or> c = CHR ''+'' then r else s | [] \<Rightarrow> [])
      in if body = [] then None
         else case digits_value 0 body of
                None \<Rightarrow> None
              | Some n \<Rightarrow> let v = (if neg then - int n else int n)
                          in if in_int64 v then Some v else None)"

text \<open>\<open>n, _ := strconv.Atoi(s)\<close>: the value on a range error is the nearest bound.\<close>

definition atoi_ignore :: "string \<Rightarrow> int" where
  "atoi_ignore s =
     (case atoi s of Some v \<Rightarrow> v | None \<Rightarrow>
        let neg = (case s of c # _ \<Rightarrow> c = CHR ''-'' | [] \<Rightarrow> False);
            body = (case s of c # r \<Rightarrow> if c = CHR ''-'' \<or> c = CHR ''+'' then r else s | [] \<Rightarrow> [])
        in if body = [] \<or> digits_value 0 body = None then 0
           else if neg then min_int64 else max_int64)"

fun dec_digits :: "nat \<Rightarrow> nat \<Rightarrow> string" where
  "dec_digits 0 n = []"
| "dec_digits (Suc k) n =
     (if n < 10 then [char_of (48 + n)] else dec_digits k (n div 10) @ [char_of (48 + n mod 10)])"

definition itoa :: "int \<Rightarrow> string" where
  "itoa n =
     (let d = dec_digits (Suc (nat \<bar>n\<bar>)) (nat \<bar>n\<bar>) in if n < 0 then CHR ''-'' # d else d)"

lemma digit_char [simp]: "d < 10 \<Longrightarrow> digit (char_of (48 + d)) = Some d"
  by (simp add: digit_def Let_def)

lemma digits_value_append:
  "digits_value n (s @ t) =
     (case digits_value n s of None \<Rightarrow> None | Some m \<Rightarrow> digits_value m t)"
  by (induction s arbitrary: n) (auto split: option.splits)

lemma digits_value_dec: "n < k \<Longrightarrow> digits_value 0 (dec_digits k n) = Some n"
proof (induction k arbitrary: n)
  case (Suc k)
  show ?case
  proof (cases "n < 10")
    case False
    then have "n div 10 < k" using Suc.prems by linarith
    with Suc.IH False show ?thesis by (simp add: digits_value_append)
  qed simp
qed simp

lemma dec_digits_hd:
  "n < k \<Longrightarrow> \<exists>c r. dec_digits k n = c # r \<and> 48 \<le> byte c \<and> byte c \<le> 57"
proof (induction k arbitrary: n)
  case (Suc k)
  show ?case
  proof (cases "n < 10")
    case False
    then have "n div 10 < k" using Suc.prems by linarith
    then obtain c r where "dec_digits k (n div 10) = c # r" "48 \<le> byte c" "byte c \<le> 57"
      using Suc.IH by blast
    with False show ?thesis by simp
  qed simp
qed simp

lemma atoi_itoa: "in_int64 n \<Longrightarrow> atoi (itoa n) = Some n"
proof -
  assume n: "in_int64 n"
  let ?m = "nat \<bar>n\<bar>"
  obtain c r where d: "dec_digits (Suc ?m) ?m = c # r" "48 \<le> byte c" "byte c \<le> 57"
    using dec_digits_hd [of ?m "Suc ?m"] by blast
  then have c: "c \<noteq> CHR ''-''" "c \<noteq> CHR ''+''" by auto
  have "digits_value 0 (c # r) = Some ?m"
    using digits_value_dec [of ?m "Suc ?m"] d by simp
  with n d(1) c show ?thesis
    by (cases "n < 0") (simp_all add: atoi_def itoa_def Let_def)
qed

subsection \<open>Unpadded URL-safe base64\<close>

text \<open>\<open>base64.RawURLEncoding\<close>: its alphabet, encoder and (lenient) decoder.\<close>

definition b64_char :: "nat \<Rightarrow> char" where
  "b64_char n =
     (if n < 26 then char_of (n + 65) else if n < 52 then char_of (n + 71)
      else if n < 62 then char_of (n - 4) else if n = 62 then CHR ''-'' else CHR ''_'')"

definition b64_value :: "char \<Rightarrow> nat option" where
  "b64_value c =
     (let b = byte c
      in if 65 \<le> b \<and> b \<le> 90 then Some (b - 65)
         else if 97 \<le> b \<and> b \<le> 122 then Some (b - 71)
         else if 48 \<le> b \<and> b \<le> 57 then Some (b + 4)
         else if b = 45 then Some 62 else if b = 95 then Some 63 else None)"

fun b64_sextets :: "nat list \<Rightarrow> nat list" where
  "b64_sextets [] = []"
| "b64_sextets [a] = [a div 4, (a mod 4) * 16]"
| "b64_sextets [a, b] = [a div 4, (a mod 4) * 16 + b div 16, (b mod 16) * 4]"
| "b64_sextets (a # b # c # r) =
     [a div 4, (a mod 4) * 16 + b div 16, (b mod 16) * 4 + c div 64, c mod 64] @ b64_sextets r"

fun b64_bytes :: "nat list \<Rightarrow> nat list option" where
  "b64_bytes [] = Some []"
| "b64_bytes [w] = None"
| "b64_bytes [w, x] = Some [w * 4 + x div 16]"
| "b64_bytes [w, x, y] = Some [w * 4 + x div 16, (x mod 16) * 16 + y div 4]"
| "b64_bytes (w # x # y # z # r) =
     (case b64_bytes r of None \<Rightarrow> None
      | Some t \<Rightarrow> Some ([w * 4 + x div 16, (x mod 16) * 16 + y div 4, (y mod 4) * 64 + z] @ t))"

definition b64_encode :: "string \<Rightarrow> string" where
  "b64_encode s = map b64_char (b64_sextets (map byte s))"

fun all_some :: "'a option list \<Rightarrow> 'a list option" where
  "all_some [] = Some []"
| "all_some (None # r) = None"
| "all_some (Some x # r) = (case all_some r of None \<Rightarrow> None | Some xs \<Rightarrow> Some (x # xs))"

definition b64_decode :: "string \<Rightarrow> string option" where
  "b64_decode s =
     (case all_some (map b64_value (filter (\<lambda>c. byte c \<noteq> 10 \<and> byte c \<noteq> 13) s)) of
        None \<Rightarrow> None
      | Some vs \<Rightarrow> (case b64_bytes vs of None \<Rightarrow> None | Some bs \<Rightarrow> Some (map char_of bs)))"

lemma b64_char_value:
  assumes "n < 64"
  shows "b64_value (b64_char n) = Some n" "byte (b64_char n) \<noteq> 10" "byte (b64_char n) \<noteq> 13"
  using assms by (auto simp: b64_value_def b64_char_def Let_def)

lemma sextet_join:
  "b < 256 \<Longrightarrow> a div 4 * 4 + ((a mod 4) * 16 + b div 16) div 16 = (a::nat)"
  "b < 256 \<Longrightarrow> c < 256 \<Longrightarrow> ((a mod 4) * 16 + b div 16) mod 16 * 16 + ((b mod 16) * 4 + c div 64) div 4 = (b::nat)"
  "c < 256 \<Longrightarrow> ((b mod 16) * 4 + c div 64) mod 4 * 64 + c mod 64 = (c::nat)"
proof -
  have d: "b < 256 \<Longrightarrow> b div 16 < 16" "c < 256 \<Longrightarrow> c div 64 < 4" for b c :: nat
    by (simp_all add: less_mult_imp_div_less)
  have j16: "q < 16 \<Longrightarrow> (x * 16 + q) div 16 = x \<and> (x * 16 + q) mod 16 = q" for x q :: nat
    by simp
  have j4: "q < 4 \<Longrightarrow> (x * 4 + q) div 4 = x \<and> (x * 4 + q) mod 4 = q" for x q :: nat
    by simp
  show "b < 256 \<Longrightarrow> a div 4 * 4 + ((a mod 4) * 16 + b div 16) div 16 = a"
    using j16 [OF d(1)] by simp
  show "b < 256 \<Longrightarrow> c < 256 \<Longrightarrow>
      ((a mod 4) * 16 + b div 16) mod 16 * 16 + ((b mod 16) * 4 + c div 64) div 4 = b"
    using j16 [OF d(1)] j4 [OF d(2)] by simp
  show "c < 256 \<Longrightarrow> ((b mod 16) * 4 + c div 64) mod 4 * 64 + c mod 64 = c"
    using j4 [OF d(2)] by simp
qed

lemma b64_bytes_sextets: "\<forall>b \<in> set bs. b < 256 \<Longrightarrow> b64_bytes (b64_sextets bs) = Some bs"
proof (induction bs rule: b64_sextets.induct)
  case (2 a)
  show ?case using sextet_join(1) [of 0 a] by simp
next
  case (3 a b)
  then show ?case using sextet_join(1) [of b a] sextet_join(2) [of b 0 a] by simp
next
  case (4 a b c r)
  then have "b64_bytes (b64_sextets r) = Some r" "b < 256" "c < 256" by simp_all
  then show ?case
    using sextet_join(1) [of b a] sextet_join(2) [of b c a] sextet_join(3) [of c b] by simp
qed simp

lemma b64_sextets_bound: "\<forall>b \<in> set bs. b < 256 \<Longrightarrow> \<forall>n \<in> set (b64_sextets bs). n < 64"
proof (induction bs rule: b64_sextets.induct)
  case (4 a b c r)
  have "a mod 4 \<le> 3" "b mod 16 \<le> 15" "a div 4 < 64" "b div 16 < 16" "c div 64 < 4"
    using "4.prems" by (auto intro: less_mult_imp_div_less)
  moreover have "\<forall>n \<in> set (b64_sextets r). n < 64" using 4 by simp
  ultimately show ?case by auto
next
  case (3 a b)
  have "a mod 4 \<le> 3" "b mod 16 \<le> 15" "a div 4 < 64" "b div 16 < 16"
    using "3.prems" by (auto intro: less_mult_imp_div_less)
  then show ?case by auto
next
  case (2 a)
  have "a mod 4 \<le> 3" "a div 4 < 64" using "2.prems" by auto
  then show ?case by auto
qed simp

lemma all_some_map: "\<forall>x \<in> set xs. f (g x) = Some x \<Longrightarrow> all_some (map f (map g xs)) = Some xs"
  by (induction xs) auto

lemma b64_decode_encode: "b64_decode (b64_encode s) = Some s"
proof -
  let ?v = "b64_sextets (map byte s)"
  have *: "\<forall>b \<in> set (map byte s). b < 256" by simp
  from * have v: "\<forall>n \<in> set ?v. n < 64" by (rule b64_sextets_bound)
  then have "filter (\<lambda>c. byte c \<noteq> 10 \<and> byte c \<noteq> 13) (map b64_char ?v) = map b64_char ?v"
    by (auto simp: filter_id_conv b64_char_value)
  moreover have "all_some (map b64_value (map b64_char ?v)) = Some ?v"
    using v by (intro all_some_map) (auto simp: b64_char_value)
  ultimately show ?thesis
    using b64_bytes_sextets [OF *] by (simp add: b64_decode_def b64_encode_def del: map_map)
       (simp add: comp_def)
qed

lemma b64_encode_inj: "b64_encode s = b64_encode t \<longleftrightarrow> s = t"
  by (metis b64_decode_encode option.inject)

end
