(* ===== verification/GoFloat.thy ===== *)
theory GoFloat
  imports Prelude Complex_Main
begin

text \<open>
  Go's \<open>float64\<close>. The code only computes finite values (counts, ratios, seconds), so a
  \<open>float64\<close> is the rational number it denotes, and every operation rounds its exact
  result with \<open>fl64\<close>: round to nearest, ties to even, 53 significant bits, subnormals
  below \<open>2^-1022\<close>. Infinities and NaN are not represented; the modelled code divides
  only by a non-zero count and stays far below \<open>2^1024\<close>.
\<close>

type_synonym float64 = rat

subsection \<open>Rounding\<close>

definition round_even :: "rat \<Rightarrow> int" where
  "round_even y =
     (let f = \<lfloor>y\<rfloor>; r = y - of_int f
      in if r < 1/2 then f else if 1/2 < r then f + 1 else if even f then f else f + 1)"

text \<open>The number of binary digits of a positive integer, as \<open>math/bits.Len\<close>.\<close>

function bit_length :: "int \<Rightarrow> int" where
  "bit_length n = (if n \<le> 0 then 0 else 1 + bit_length (n div 2))"
  by pat_completeness auto
termination
  by (relation "measure nat") auto

declare bit_length.simps [simp del]

text \<open>The binary exponent of a positive rational: \<open>2^fexp x \<le> x < 2^(fexp x + 1)\<close>.\<close>

definition pow2 :: "int \<Rightarrow> rat" where
  "pow2 e = 2 powi e"

definition fexp :: "rat \<Rightarrow> int" where
  "fexp x =
     (case quotient_of x of (n, d) \<Rightarrow>
        let e = bit_length n - bit_length d
        in if pow2 e \<le> x then e else e - 1)"

definition fl_quantum :: "rat \<Rightarrow> rat" where
  "fl_quantum x = pow2 (max (fexp x) (-1022) - 52)"

definition fl_pos :: "rat \<Rightarrow> rat" where
  "fl_pos x = (let q = fl_quantum x in of_int (round_even (x / q)) * q)"

definition fl64 :: "rat \<Rightarrow> float64" where
  "fl64 x = (if x = 0 then 0 else if x < 0 then - fl_pos (- x) else fl_pos x)"

lemma round_even_of_int [simp]: "round_even (of_int k) = k"
  by (simp add: round_even_def)

lemma round_even_bounds: "of_int (round_even y) \<le> y + 1/2 \<and> y - 1/2 \<le> of_int (round_even y)"
proof -
  have "of_int \<lfloor>y\<rfloor> \<le> y" "y < of_int \<lfloor>y\<rfloor> + 1" by linarith+
  moreover have "round_even y = \<lfloor>y\<rfloor> \<and> y - of_int \<lfloor>y\<rfloor> \<le> 1/2 \<or>
      round_even y = \<lfloor>y\<rfloor> + 1 \<and> 1/2 \<le> y - of_int \<lfloor>y\<rfloor>"
    by (auto simp: round_even_def Let_def)
  ultimately show ?thesis
    by (elim disjE conjE; simp only: of_int_add of_int_1; linarith)
qed

lemma round_even_mono:
  assumes "x \<le> y" shows "round_even x \<le> round_even y"
proof (cases "\<lfloor>x\<rfloor> = \<lfloor>y\<rfloor>")
  case True
  with assms show ?thesis by (auto simp: round_even_def Let_def)
next
  case False
  with assms have "\<lfloor>x\<rfloor> + 1 \<le> \<lfloor>y\<rfloor>" by (metis floor_mono le_neq_trans zless_imp_add1_zle)
  then show ?thesis by (auto simp: round_even_def Let_def)
qed

lemma round_even_close:
  assumes "\<bar>y - of_int k\<bar> < 1/2" shows "round_even y = k"
proof (cases "of_int k \<le> y")
  case True
  with assms have "\<lfloor>y\<rfloor> = k" by (intro floor_unique) linarith+
  with True assms show ?thesis by (simp add: round_even_def)
next
  case False
  with assms have "of_int (k - 1) \<le> y" "y < of_int (k - 1) + 1" by (auto simp: abs_if split: if_splits)
  then have f: "\<lfloor>y\<rfloor> = k - 1" by (rule floor_unique)
  with False assms have "1/2 < y - of_int (k - 1)" by simp
  with f show ?thesis by (simp add: round_even_def)
qed

subsection \<open>The exponent\<close>

lemma pow2_pos [simp]: "0 < pow2 e"
  by (simp add: pow2_def zero_less_power_int)

lemma pow2_nz [simp]: "pow2 e \<noteq> 0"
  using pow2_pos [of e] by linarith

lemma pow2_nat: "pow2 (int n) = 2 ^ n"
  by (simp add: pow2_def power_int_of_nat)

lemma pow2_add: "pow2 (a + b) = pow2 a * pow2 b"
  by (simp add: pow2_def power_int_add)

lemma pow2_1 [simp]: "pow2 1 = 2"
  by (simp add: pow2_def)

lemma pow2_le: "a \<le> b \<Longrightarrow> pow2 a \<le> pow2 b"
  by (simp add: pow2_def power_int_increasing)

lemma pow2_less_cancel: "pow2 a < pow2 b \<Longrightarrow> a < b"
  using pow2_le [of b a] by linarith

lemma bit_length_bounds:
  "0 < n \<Longrightarrow> 1 \<le> bit_length n \<and> 2 ^ nat (bit_length n - 1) \<le> n \<and> n < 2 ^ nat (bit_length n)"
proof (induction n rule: bit_length.induct)
  case (1 n)
  show ?case
  proof (cases "n = 1")
    case True
    then show ?thesis by (simp add: bit_length.simps)
  next
    case False
    then have m: "0 < n div 2" using 1(2) by linarith
    let ?b = "bit_length (n div 2)"
    have IH: "1 \<le> ?b" "2 ^ nat (?b - 1) \<le> n div 2" "n div 2 < 2 ^ nat ?b"
      using 1(1) [OF _ m] 1(2) by auto
    have b: "bit_length n = 1 + ?b" using 1(2) by (subst bit_length.simps) simp
    have "(2::int) ^ nat ?b = 2 * 2 ^ nat (?b - 1)" "(2::int) ^ nat (1 + ?b) = 2 * 2 ^ nat ?b"
      using IH(1) by (simp_all add: nat_add_distrib flip: power_Suc)
    moreover have "2 * (n div 2) \<le> n" "n < 2 * (n div 2) + 2" by presburger+
    ultimately show ?thesis using IH unfolding b by simp
  qed
qed

lemma bit_length_pow2:
  assumes "0 < n"
  shows "pow2 (bit_length n - 1) \<le> of_int n" and "of_int n < pow2 (bit_length n)"
proof -
  note b = bit_length_bounds [OF assms]
  have "of_int (2 ^ nat (bit_length n - 1)) \<le> (of_int n :: rat)"
    and "of_int n < (of_int (2 ^ nat (bit_length n)) :: rat)"
    using b by (simp_all only: of_int_le_iff of_int_less_iff)
  then show "pow2 (bit_length n - 1) \<le> of_int n" "of_int n < pow2 (bit_length n)"
    using b pow2_nat [of "nat (bit_length n - 1)"] pow2_nat [of "nat (bit_length n)"] by simp_all
qed

lemma fexp_bounds:
  assumes "0 < x"
  shows "pow2 (fexp x) \<le> x \<and> x < pow2 (fexp x + 1)"
proof -
  obtain n d where q: "quotient_of x = (n, d)" by fastforce
  have d: "0 < d" using q by (rule quotient_of_denom_pos)
  have x: "x = of_int n / of_int d" using q by (rule quotient_of_div)
  with assms d have n: "0 < n" by (simp add: zero_less_divide_iff)
  define bn bd where "bn = bit_length n" and "bd = bit_length d"
  note N' = bit_length_pow2 [OF n, folded bn_def] and D' = bit_length_pow2 [OF d, folded bd_def]
  define e where "e = bn - bd"
  have dpos: "(0::rat) < of_int d" using d by simp
  have up: "x < pow2 (e + 1)"
  proof -
    have "pow2 (bn) = pow2 (e + 1) * pow2 (bd - 1)"
      by (simp add: e_def flip: pow2_add)
    also have "\<dots> \<le> pow2 (e + 1) * of_int d"
      using D'(1) by (simp add: mult_left_mono)
    finally have "of_int n < pow2 (e + 1) * (of_int d :: rat)" using N'(2) by linarith
    then show ?thesis using dpos by (simp add: x divide_less_eq)
  qed
  have low: "pow2 (e - 1) \<le> x"
  proof -
    have "pow2 (e - 1) * (of_int d :: rat) \<le> pow2 (e - 1) * pow2 (bd)"
      using D'(2) by (simp add: mult_left_mono)
    also have "\<dots> = pow2 (bn - 1)"
      by (simp add: e_def flip: pow2_add)
    finally have "pow2 (e - 1) * (of_int d :: rat) \<le> of_int n" using N'(1) by linarith
    then show ?thesis using dpos by (simp add: x le_divide_eq)
  qed
  show ?thesis
    using up low by (auto simp: fexp_def q Let_def e_def bn_def bd_def)
qed

lemma fexp_mono: "0 < x \<Longrightarrow> x \<le> y \<Longrightarrow> fexp x \<le> fexp y"
  using fexp_bounds [of x] fexp_bounds [of y]
  by (meson le_less_trans less_le_trans pow2_less_cancel zle_add1_eq_le)

lemma fexp_lt: "0 < x \<Longrightarrow> x < pow2 e \<Longrightarrow> fexp x < e"
  using fexp_bounds [of x] by (meson le_less_trans pow2_less_cancel)

lemma fl_quantum_pos [simp]: "0 < fl_quantum x"
  by (simp add: fl_quantum_def)

lemma fl_quantum_nz [simp]: "fl_quantum x \<noteq> 0"
  using fl_quantum_pos [of x] by linarith

subsection \<open>Monotonicity, exactness and error of rounding\<close>

lemma fl_pos_nonneg: "0 < x \<Longrightarrow> 0 \<le> fl_pos x"
  using round_even_mono [of 0 "x / fl_quantum x"]
  by (simp add: fl_pos_def Let_def round_even_of_int [of 0, simplified] less_imp_le)

lemma fl_pos_exact:
  assumes "x = of_int k * fl_quantum x" shows "fl_pos x = x"
proof -
  have "x / fl_quantum x = of_int k"
    using assms fl_quantum_pos [of x] by (metis nonzero_mult_div_cancel_right less_irrefl)
  then show ?thesis using assms by (simp add: fl_pos_def Let_def)
qed

lemma fl_pos_err: "\<bar>fl_pos x - x\<bar> \<le> fl_quantum x / 2"
proof -
  let ?q = "fl_quantum x"
  have "fl_pos x - x = (of_int (round_even (x / ?q)) - x / ?q) * ?q"
    using fl_quantum_pos [of x] by (simp add: fl_pos_def Let_def left_diff_distrib)
  moreover have "\<bar>of_int (round_even (x / ?q)) - x / ?q\<bar> \<le> 1/2"
    using round_even_bounds [of "x / ?q"] by linarith
  ultimately have "\<bar>fl_pos x - x\<bar> \<le> 1/2 * ?q"
    by (simp only: abs_mult abs_of_pos [OF fl_quantum_pos] mult_right_mono less_imp_le [OF fl_quantum_pos])
  then show ?thesis by simp
qed

lemma fl_quantum_normal: "pow2 (- 1022) \<le> x \<Longrightarrow> fl_quantum x = pow2 (fexp x - 52)"
proof -
  assume x: "pow2 (- 1022) \<le> x"
  then have "0 < x" using pow2_pos less_le_trans by blast
  then have "- 1022 \<le> fexp x"
    using x fexp_bounds [of x] by (meson le_less_trans pow2_less_cancel zle_add1_eq_le)
  then show ?thesis by (simp add: fl_quantum_def)
qed

lemma fl_quantum_le: "pow2 (- 1022) \<le> x \<Longrightarrow> fl_quantum x \<le> x * pow2 (- 52)"
proof -
  assume x: "pow2 (- 1022) \<le> x"
  then have "0 < x" using pow2_pos less_le_trans by blast
  have "fl_quantum x = pow2 (fexp x) * pow2 (- 52)"
    using fl_quantum_normal [OF x] pow2_add [of "fexp x" "- 52"] by simp
  also have "\<dots> \<le> x * pow2 (- 52)"
    using fexp_bounds [OF \<open>0 < x\<close>] pow2_pos by (simp add: mult_right_mono less_imp_le)
  finally show ?thesis .
qed

lemma fl_pos_relerr:
  assumes "pow2 (- 1022) \<le> x"
  shows "\<bar>fl_pos x - x\<bar> \<le> x * pow2 (- 53)"
proof -
  have "pow2 (- 52) = 2 * pow2 (- 53)"
    using pow2_add [of 1 "- 53"] by (simp add: pow2_def)
  then show ?thesis
    using fl_pos_err [of x] fl_quantum_le [OF assms] by simp
qed

lemma fl_pos_le_powi:
  assumes "0 < x" and "x \<le> pow2 e" and "-1022 \<le> e" shows "fl_pos x \<le> pow2 e"
proof (cases "x = pow2 e")
  case True
  have "pow2 e < pow2 (e + 1)" using pow2_add [of e 1] by (simp add: pow2_1)
  then have "fexp x \<le> e" using fexp_lt [of x "e + 1"] assms by (simp add: True)
  define m where "m = max (fexp x) (-1022)"
  have "m \<le> e" using \<open>fexp x \<le> e\<close> assms(3) by (simp add: m_def)
  have q: "fl_quantum x = pow2 (m - 52)" by (simp add: fl_quantum_def m_def)
  have "x = of_int (2 ^ nat (e - (m - 52))) * fl_quantum x"
  proof -
    have "pow2 e = of_int (2 ^ nat (e - (m - 52))) * pow2 (m - 52)"
      using \<open>m \<le> e\<close> by (simp flip: pow2_nat pow2_add)
    then show ?thesis unfolding q using True by simp
  qed
  then have "fl_pos x = x" by (rule fl_pos_exact)
  then show ?thesis using True by simp
next
  case False
  define q where "q = fl_quantum x"
  define m where "m = max (fexp x) (-1022)"
  have "fexp x < e" using fexp_lt assms False by simp
  then have "m \<le> e" using assms(3) by (simp add: m_def)
  define N :: int where "N = 2 ^ nat (e - (m - 52))"
  have N: "of_int N * q = pow2 e"
    using \<open>m \<le> e\<close> by (simp add: N_def q_def fl_quantum_def flip: m_def pow2_nat pow2_add)
  have "x / q \<le> of_int N"
    using assms(2) N by (simp add: q_def divide_le_eq)
  then have "round_even (x / q) \<le> N"
    using round_even_mono [of "x / q" "of_int N"] by simp
  then have "of_int (round_even (x / q)) * q \<le> of_int N * q"
    by (simp add: q_def mult_right_mono less_imp_le)
  then show ?thesis by (simp add: N fl_pos_def Let_def flip: q_def)
qed

lemma powi_le_fl_pos:
  assumes "pow2 e \<le> x" and "-1022 \<le> e" shows "pow2 e \<le> fl_pos x"
proof -
  have x: "0 < x" using assms(1) pow2_pos less_le_trans by blast
  have "e \<le> fexp x" using assms(1) fexp_bounds [OF x] by (meson le_less_trans pow2_less_cancel zle_add1_eq_le)
  define m where "m = fexp x"
  have q: "fl_quantum x = pow2 (m - 52)" using \<open>e \<le> fexp x\<close> assms(2) by (simp add: fl_quantum_def m_def)
  define N :: int where "N = 2 ^ 52"
  have N: "of_int N * fl_quantum x = pow2 m"
    using pow2_add [of 52 "m - 52"] pow2_nat [of 52] by (simp add: q N_def)
  have "of_int N \<le> x / fl_quantum x"
    using fexp_bounds [OF x] N by (simp add: m_def le_divide_eq)
  then have "N \<le> round_even (x / fl_quantum x)"
    using round_even_mono [of "of_int N"] by simp
  then have "of_int N * fl_quantum x \<le> fl_pos x"
    by (simp add: fl_pos_def Let_def mult_right_mono less_imp_le)
  then show ?thesis using N pow2_le [OF \<open>e \<le> fexp x\<close>] by (simp add: m_def)
qed


lemma fl_pos_mono:
  assumes "0 < x" and "x \<le> y" shows "fl_pos x \<le> fl_pos y"
proof (cases "max (fexp x) (-1022) = max (fexp y) (-1022)")
  case True
  then have q: "fl_quantum x = fl_quantum y" by (simp add: fl_quantum_def)
  have "x / fl_quantum y \<le> y / fl_quantum y"
    using assms by (simp add: divide_right_mono less_imp_le)
  then have "round_even (x / fl_quantum y) \<le> round_even (y / fl_quantum y)"
    by (rule round_even_mono)
  then show ?thesis
    by (simp add: fl_pos_def Let_def q mult_right_mono less_imp_le)
next
  case False
  let ?e = "fexp y"
  have e: "fexp x < ?e" "-1022 < ?e"
    using False fexp_mono [OF assms] by auto
  have y: "0 < y" using assms by linarith
  have "x \<le> pow2 ?e"
    using e(1) fexp_bounds [OF assms(1)] pow2_le [of "fexp x + 1" ?e] by linarith
  then have "fl_pos x \<le> pow2 ?e" using e assms(1) by (intro fl_pos_le_powi) auto
  also have "\<dots> \<le> fl_pos y" using e fexp_bounds [OF y] by (intro powi_le_fl_pos) auto
  finally show ?thesis .
qed

lemma fl64_0 [simp]: "fl64 0 = 0"
  by (simp add: fl64_def)

lemma fl64_pos: "0 < x \<Longrightarrow> fl64 x = fl_pos x"
  by (simp add: fl64_def)

lemma fl64_nonneg: "0 \<le> x \<Longrightarrow> 0 \<le> fl64 x"
  by (cases "x = 0") (simp_all add: fl64_pos fl_pos_nonneg)

lemma fl64_mono: "0 \<le> x \<Longrightarrow> x \<le> y \<Longrightarrow> fl64 x \<le> fl64 y"
  by (cases "x = 0") (auto simp: fl64_pos fl64_nonneg intro: fl_pos_mono)

lemma fl64_exact:
  assumes "0 < x" and "-1074 \<le> e" and "x = of_int k * pow2 e" and "x < pow2 (e + 53)"
  shows "fl64 x = x"
proof -
  define m where "m = max (fexp x) (-1022) - 52"
  have "fexp x < e + 53" using assms by (intro fexp_lt)
  then have "m \<le> e" using assms(2) by (simp add: m_def)
  have q: "fl_quantum x = pow2 m" by (simp add: fl_quantum_def m_def)
  have "pow2 e = of_int (2 ^ nat (e - m)) * pow2 m"
    using \<open>m \<le> e\<close> by (simp flip: pow2_nat pow2_add)
  then have "x = of_int (k * 2 ^ nat (e - m)) * fl_quantum x"
    unfolding q using assms(3) by simp
  then have "fl_pos x = x" by (rule fl_pos_exact)
  then show ?thesis using assms(1) by (simp add: fl64_pos)
qed

lemma fl64_of_int:
  assumes "0 \<le> n" and "n < 2 ^ 53" shows "fl64 (of_int n) = of_int n"
proof (cases "n = 0")
  case False
  have "(of_int n :: rat) < of_int (2 ^ 53)" using assms(2) by (rule of_int_less_iff [THEN iffD2])
  then have "(of_int n :: rat) < pow2 53" using pow2_nat [of 53] by simp
  then show ?thesis
    using assms False by (intro fl64_exact [where e = 0 and k = n]) (simp_all add: pow2_def)
qed simp


lemma fl64_near_int:
  assumes "1 \<le> x" and "x < pow2 53" and "\<bar>x - of_int k\<bar> \<le> x * pow2 (- 54)"
  shows "fl64 x = of_int k"
proof -
  have x: "0 < x" using assms(1) by linarith
  define m where "m = fexp x"
  have m: "0 \<le> m" "m < 53"
    using fexp_mono [of 1 x] fexp_bounds [of 1] pow2_less_cancel [of 0 "fexp 1 + 1"] fexp_lt [OF x assms(2)] assms(1)
    by (auto simp: m_def pow2_def)
  have q: "fl_quantum x = pow2 (m - 52)" using m by (simp add: fl_quantum_def m_def)
  define K where "K = k * 2 ^ nat (52 - m)"
  have K: "of_int k / pow2 (m - 52) = of_int K"
    using m pow2_add [of "52 - m" "m - 52"] pow2_nat [of "nat (52 - m)"] pow2_pos [of "m - 52"]
    by (simp add: K_def divide_eq_eq mult.assoc pow2_def [of 0])
  have "x * pow2 (- 54) < pow2 (m + 1) * pow2 (- 54)"
    using fexp_bounds [OF x] by (simp add: m_def mult_strict_right_mono)
  also have "\<dots> = pow2 (m - 52) / 2"
    using pow2_add [of "m + 1" "- 54"] pow2_add [of "m - 53" 1] by simp
  finally have "\<bar>x - of_int k\<bar> < pow2 (m - 52) / 2" using assms(3) by linarith
  then have "\<bar>x - of_int k\<bar> / pow2 (m - 52) < 1/2"
    by (simp add: divide_less_eq)
  then have "\<bar>x / pow2 (m - 52) - of_int K\<bar> < 1/2"
    by (simp add: abs_divide flip: K diff_divide_distrib)
  then have "round_even (x / pow2 (m - 52)) = K" by (rule round_even_close)
  then have "fl_pos x = of_int k"
    using K [symmetric] by (simp add: fl_pos_def Let_def q)
  then show ?thesis using x by (simp add: fl64_pos)
qed

lemma fl64_relerr:
  assumes "pow2 (- 1022) \<le> x" shows "\<bar>fl64 x - x\<bar> \<le> x * pow2 (- 53)"
  using fl_pos_relerr [OF assms] less_le_trans [OF pow2_pos assms] by (simp add: fl64_pos)

subsection \<open>Ratios of counts\<close>

text \<open>The two constants the code compares and multiplies with, as the nearest \<open>float64\<close>.\<close>

lemma fl64_fifth: "fl64 (1/5) = 3602879701896397 / 18014398509481984"
  by code_simp

lemma fl64_nine_tenths: "fl64 (9/10) = 8106479329266893 / 9007199254740992"
  by code_simp

lemma pow2_numerals:
  "pow2 (- 52) = 1 / 4503599627370496" "pow2 (- 53) = 1 / 9007199254740992"
  "pow2 (- 54) = 1 / 18014398509481984" "pow2 53 = 9007199254740992"
  by (simp_all add: pow2_def power_int_minus inverse_eq_divide)

lemma pow2_tiny: "- 1022 \<le> e \<Longrightarrow> pow2 e \<le> x \<Longrightarrow> pow2 (- 1022) \<le> x"
  using pow2_le [of "- 1022" e] by linarith

lemma rate_threshold:
  assumes "0 < t" and "t < 2 ^ 52" and "0 \<le> f"
  shows "fl64 (1/5) \<le> fl64 (of_int f / of_int t) \<longleftrightarrow> t \<le> 5 * f"
proof
  assume "t \<le> 5 * f"
  then have "(of_int t :: rat) \<le> of_int (5 * f)" by (rule of_int_le_iff [THEN iffD2])
  then have "1/5 \<le> (of_int f / of_int t :: rat)" using assms(1) by (simp add: le_divide_eq)
  then show "fl64 (1/5) \<le> fl64 (of_int f / of_int t)" by (intro fl64_mono) auto
next
  assume le: "fl64 (1/5) \<le> fl64 (of_int f / of_int t)"
  show "t \<le> 5 * f"
  proof (rule ccontr)
    assume "\<not> t \<le> 5 * f"
    then have ft: "5 * f + 1 \<le> t" by linarith
    let ?x = "of_int f / of_int t :: rat"
    have tpos: "(0::rat) < of_int t" using assms(1) by simp
    have t52: "(of_int t :: rat) \<le> 4503599627370496"
      using assms(2) of_int_le_iff [of t "4503599627370496", where 'a = rat] by simp
    show False
    proof (cases "f = 0")
      case True
      with le show False by (simp add: fl64_fifth)
    next
      case False
      then have "1 \<le> (of_int f :: rat)" using assms(3) by simp
      then have "pow2 (- 52) \<le> ?x"
        using t52 tpos by (simp add: pow2_numerals le_divide_eq)
      then have "fl64 ?x \<le> ?x + ?x * pow2 (- 53)"
        using fl64_relerr [OF pow2_tiny [of "- 52" ?x]] by linarith
      moreover have "?x * 5 \<le> 1 - 1 / 4503599627370496"
      proof -
        have "of_int (5 * f + 1) \<le> (of_int t :: rat)" using ft by (rule of_int_le_iff [THEN iffD2])
        then have "of_int f * 5 \<le> of_int t * (1 - 1 / of_int t :: rat)"
          using tpos by (simp add: right_diff_distrib)
        then have "?x * 5 \<le> 1 - 1 / of_int t" using tpos by (simp add: divide_le_eq mult.commute)
        moreover have "1 / 4503599627370496 \<le> (1 / of_int t :: rat)"
          using t52 tpos by (intro divide_left_mono) auto
        ultimately show ?thesis by linarith
      qed
      moreover have "x \<le> fl64 y \<Longrightarrow> fl64 y \<le> y + y * pow2 (- 53) \<Longrightarrow> y * 5 \<le> 1 - 1 / 4503599627370496 \<Longrightarrow>
          3602879701896397 / 18014398509481984 \<le> x \<Longrightarrow> False" for x y
        unfolding pow2_numerals by linarith
      ultimately show False using le fl64_fifth by (metis order_refl)
    qed
  qed
qed

lemma ceiling_tenths_bounds:
  assumes "9 * n \<noteq> 10 * k" and "10 * k < 9 * n" and "9 * n < 10 * (k + 1)"
  shows "of_int k + 1/10 \<le> (9 * of_int n / 10 :: rat)"
    and "(9 * of_int n / 10 :: rat) \<le> of_int k + 9/10"
proof -
  have "10 * k + 1 \<le> 9 * n" and "9 * n \<le> 10 * k + 9" using assms by presburger+
  then have "(of_int (10 * k + 1) :: rat) \<le> of_int (9 * n)" and "(of_int (9 * n) :: rat) \<le> of_int (10 * k + 9)"
    by (simp_all only: of_int_le_iff)
  then show "of_int k + 1/10 \<le> (9 * of_int n / 10 :: rat)" "(9 * of_int n / 10 :: rat) \<le> of_int k + 9/10"
    by simp_all
qed

lemma percentile90_rank:
  assumes "0 < n" and "n < 2 ^ 48"
  shows "\<lceil>fl64 (fl64 (9/10) * of_int n)\<rceil> = \<lceil>9 * of_int n / (10::rat)\<rceil>"
proof -
  define y where "y = fl64 (9/10) * of_int n"
  have n: "1 \<le> (of_int n :: rat)" "(of_int n :: rat) \<le> 281474976710656"
    using assms of_int_le_iff [of n "281474976710656", where 'a = rat] by simp_all
  have y: "y = 9 * of_int n / 10 + of_int n / 45035996273704960"
    by (simp add: y_def fl64_nine_tenths)
  have small: "pow2 (- 1022) \<le> y" using n y by (intro pow2_tiny [of "- 52"]) (simp_all add: pow2_numerals)
  show ?thesis
  proof (cases "\<exists>k. 9 * n = 10 * k")
    case True
    then obtain k where k: "9 * n = 10 * k" by blast
    then have "(of_int (9 * n) :: rat) = of_int (10 * k)" by simp
    then have kr: "(9 * of_int n :: rat) = 10 * of_int k" by simp
    have "1 \<le> k" using k assms(1) by linarith
    then have "1 \<le> (of_int k :: rat)" by simp
    note k1 = this
    have "1 \<le> y" "y < pow2 53"
      using k1 kr n unfolding y pow2_numerals by linarith+
    moreover have "\<bar>y - of_int k\<bar> \<le> y * pow2 (- 54)"
    proof -
      have "y - of_int k = of_int n / 45035996273704960" using kr by (simp add: y)
      moreover have "of_int n / 45035996273704960 \<le> y * pow2 (- 54)"
        using n by (simp add: y pow2_numerals)
      ultimately show ?thesis using n by simp
    qed
    ultimately have "fl64 y = of_int k" by (rule fl64_near_int)
    then show ?thesis using kr by (simp flip: y_def)
  next
    case False
    define k where "k = (9 * n) div 10"
    have k: "10 * k < 9 * n" "9 * n < 10 * (k + 1)"
      using False by (auto simp: k_def) presburger+
    note b = ceiling_tenths_bounds [OF _ k]
    have b: "of_int k + 1/10 \<le> (9 * of_int n / 10 :: rat)" "(9 * of_int n / 10 :: rat) \<le> of_int k + 9/10"
      using b False by blast+
    have "\<bar>fl64 y - y\<bar> \<le> y * pow2 (- 53)" using small by (rule fl64_relerr)
    then have "of_int k < fl64 y" "fl64 y \<le> of_int k + 1"
      using b n unfolding y pow2_numerals abs_le_iff by (simp_all add: field_simps)
    then have "\<lceil>fl64 y\<rceil> = k + 1" by (intro ceiling_unique) auto
    moreover have "\<lceil>9 * of_int n / (10::rat)\<rceil> = k + 1" using b by (intro ceiling_unique) auto
    ultimately show ?thesis by (simp flip: y_def)
  qed
qed

lemma percentile50_rank:
  assumes "0 < n" and "n < 2 ^ 48"
  shows "\<lceil>fl64 (1/2 * of_int n)\<rceil> = \<lceil>of_int n / (2::rat)\<rceil>"
proof -
  have "(of_int n :: rat) < of_int (2 ^ 48)" using assms(2) by (rule of_int_less_iff [THEN iffD2])
  then have "of_int n / 2 < pow2 52" using pow2_nat [of 52] by simp
  moreover have "pow2 (- 1) = 1 / 2" by (simp add: pow2_def power_int_minus inverse_eq_divide)
  ultimately have "fl64 (of_int n / 2) = of_int n / 2"
    using assms(1) by (intro fl64_exact [where e = "- 1" and k = n]) simp_all
  then show ?thesis by (simp only: mult.commute [of "1/2"] times_divide_eq_right mult_1_right)
qed

subsection \<open>Integer conversion and time spans\<close>

text \<open>Go's \<open>/\<close> and \<open>%\<close> truncate toward zero; \<open>Duration.Seconds\<close> uses both.\<close>

definition go_quot :: "int \<Rightarrow> int \<Rightarrow> int" where
  "go_quot a b = sgn a * sgn b * (\<bar>a\<bar> div \<bar>b\<bar>)"

definition go_rem :: "int \<Rightarrow> int \<Rightarrow> int" where
  "go_rem a b = a - go_quot a b * b"

definition duration_to_seconds :: "int \<Rightarrow> float64" where
  "duration_to_seconds d =
     fl64 (fl64 (of_int (go_quot d 1000000000)) +
           fl64 (fl64 (of_int (go_rem d 1000000000)) / 1000000000))"

end
