(* ===== verification/Schema.thy ===== *)
theory Schema
  imports Prelude GoText
begin

text \<open>
  The SQLite database the program keeps (\<open>internal/db/migrations\<close>): one record per row,
  one list per table in insertion order, and the integrity the schema declares: keys,
  \<open>UNIQUE\<close> constraints and foreign keys with \<open>ON DELETE CASCADE\<close>. A nullable column is an
  \<open>option\<close>; a time is the number of nanoseconds since the Unix epoch; bytes are strings.
\<close>

type_synonym gotime = int

definition seconds :: int where "seconds = 1000000000"
definition hours :: int where "hours = 3600 * seconds"

record repo_row =
  rp_id :: string
  rp_forge :: string
  rp_identifier :: string
  rp_instance :: "string option"
  rp_token_enc :: string
  rp_token_masked :: string
  rp_webhook_secret :: string
  rp_status :: string
  rp_status_reason :: "string option"
  rp_created_at :: gotime
  rp_etag :: string

record run_row =
  ru_id :: string
  ru_repo :: string
  ru_forge_run :: string
  ru_pipeline :: string
  ru_status :: string
  ru_conclusion :: "string option"
  ru_started :: "gotime option"
  ru_completed :: "gotime option"
  ru_url :: string
  ru_branch :: "string option"
  ru_sha :: "string option"
  ru_message :: "string option"
  ru_actor :: "string option"

record job_row =
  jo_id :: string
  jo_run :: string
  jo_forge_job :: string
  jo_name :: string
  jo_status :: string
  jo_conclusion :: "string option"
  jo_queued :: "gotime option"
  jo_started :: "gotime option"
  jo_completed :: "gotime option"
  jo_url :: string

record step_row =
  st_id :: string
  st_job :: string
  st_number :: int
  st_name :: string
  st_status :: string
  st_conclusion :: "string option"
  st_started :: "gotime option"
  st_completed :: "gotime option"

record quarantine_row =
  qu_repo :: string
  qu_pipeline :: string
  qu_step :: string
  qu_note :: string
  qu_at :: gotime
  qu_expires :: gotime

record forge_token_row =
  ft_id :: string
  ft_forge :: string
  ft_instance :: string
  ft_enc :: string
  ft_masked :: string
  ft_created_at :: gotime

record user_row =
  us_id :: string
  us_handle :: string
  us_display :: string
  us_created :: gotime

record credential_row =
  cr_id :: string
  cr_user :: string
  cr_data :: string
  cr_label :: string
  cr_created_at :: gotime

record ceremony_row =
  ce_id :: string
  ce_data :: string
  ce_expires :: gotime

record session_row =
  se_id :: string
  se_user :: string
  se_expires :: gotime
  se_created :: gotime

record api_token_row =
  tk_id :: string
  tk_user :: string
  tk_hash :: string
  tk_expires :: gotime
  tk_revoked :: "gotime option"
  tk_created_at :: gotime

text \<open>
  The settings column holds JSON text; what the code can tell apart is an empty text, the
  literal \<open>null\<close>, text that does not decode into a string map, and a string map.
\<close>

datatype settings_blob =
    BlobEmpty
  | BlobNull
  | BlobBad string
  | BlobMap "(string \<times> string) list"

record settings_row =
  sg_user :: string
  sg_data :: settings_blob
  sg_updated :: gotime

record db =
  t_repos :: "repo_row list"
  t_runs :: "run_row list"
  t_jobs :: "job_row list"
  t_steps :: "step_row list"
  t_quarantines :: "quarantine_row list"
  t_forge_tokens :: "forge_token_row list"
  t_users :: "user_row list"
  t_credentials :: "credential_row list"
  t_ceremonies :: "ceremony_row list"
  t_sessions :: "session_row list"
  t_api_tokens :: "api_token_row list"
  t_settings :: "settings_row list"

definition empty_db :: db where
  "empty_db = \<lparr> t_repos = [], t_runs = [], t_jobs = [], t_steps = [], t_quarantines = [],
     t_forge_tokens = [], t_users = [], t_credentials = [], t_ceremonies = [], t_sessions = [],
     t_api_tokens = [], t_settings = [] \<rparr>"

subsection \<open>Keys and integrity\<close>

definition text_of :: "string option \<Rightarrow> string" where
  "text_of c = (case c of None \<Rightarrow> [] | Some s \<Rightarrow> s)"

definition repo_key :: "repo_row \<Rightarrow> string \<times> string \<times> string" where
  "repo_key r = (rp_forge r, rp_identifier r, text_of (rp_instance r))"

definition run_key :: "run_row \<Rightarrow> string \<times> string" where
  "run_key r = (ru_repo r, ru_forge_run r)"

definition job_key :: "job_row \<Rightarrow> string \<times> string" where
  "job_key j = (jo_run j, jo_forge_job j)"

definition step_key :: "step_row \<Rightarrow> string \<times> int" where
  "step_key s = (st_job s, st_number s)"

definition quarantine_row_key :: "quarantine_row \<Rightarrow> string \<times> string \<times> string" where
  "quarantine_row_key q = (qu_repo q, qu_pipeline q, qu_step q)"

definition refs_in :: "('a \<Rightarrow> string) \<Rightarrow> ('b \<Rightarrow> string) \<Rightarrow> 'a list \<Rightarrow> 'b list \<Rightarrow> bool" where
  "refs_in fk pk children parents \<longleftrightarrow> list_all (\<lambda>c. fk c \<in> set (map pk parents)) children"

definition run_tables_ok :: "db \<Rightarrow> bool" where
  "run_tables_ok d \<longleftrightarrow>
     distinct (map rp_id (t_repos d)) \<and> distinct (map repo_key (t_repos d)) \<and>
     distinct (map ru_id (t_runs d)) \<and> distinct (map run_key (t_runs d)) \<and>
     distinct (map jo_id (t_jobs d)) \<and> distinct (map job_key (t_jobs d)) \<and>
     distinct (map st_id (t_steps d)) \<and> distinct (map step_key (t_steps d)) \<and>
     distinct (map quarantine_row_key (t_quarantines d)) \<and>
     refs_in ru_repo rp_id (t_runs d) (t_repos d) \<and>
     refs_in jo_run ru_id (t_jobs d) (t_runs d) \<and>
     refs_in st_job jo_id (t_steps d) (t_jobs d) \<and>
     refs_in qu_repo rp_id (t_quarantines d) (t_repos d)"

definition account_tables_ok :: "db \<Rightarrow> bool" where
  "account_tables_ok d \<longleftrightarrow>
     distinct (map us_id (t_users d)) \<and> distinct (map us_handle (t_users d)) \<and>
     distinct (map cr_id (t_credentials d)) \<and> distinct (map ce_id (t_ceremonies d)) \<and>
     distinct (map se_id (t_sessions d)) \<and>
     distinct (map tk_id (t_api_tokens d)) \<and> distinct (map tk_hash (t_api_tokens d)) \<and>
     distinct (map sg_user (t_settings d)) \<and>
     refs_in cr_user us_id (t_credentials d) (t_users d) \<and>
     refs_in se_user us_id (t_sessions d) (t_users d) \<and>
     refs_in tk_user us_id (t_api_tokens d) (t_users d) \<and>
     refs_in sg_user us_id (t_settings d) (t_users d)"

definition forge_tokens_ok :: "db \<Rightarrow> bool" where
  "forge_tokens_ok d \<longleftrightarrow>
     distinct (map ft_id (t_forge_tokens d)) \<and>
     distinct (map (\<lambda>t. (ft_forge t, ft_instance t)) (t_forge_tokens d))"

definition db_ok :: "db \<Rightarrow> bool" where
  "db_ok d \<longleftrightarrow> run_tables_ok d \<and> account_tables_ok d \<and> forge_tokens_ok d"

lemma db_ok_empty: "db_ok empty_db"
  by (simp add: db_ok_def run_tables_ok_def account_tables_ok_def forge_tokens_ok_def
      refs_in_def empty_db_def)

lemma refs_in_Nil [simp]: "refs_in fk pk [] ps"
  by (simp add: refs_in_def)

lemma refs_in_snoc_child [simp]:
  "refs_in fk pk (cs @ [c]) ps \<longleftrightarrow> refs_in fk pk cs ps \<and> fk c \<in> pk ` set ps"
  by (auto simp: refs_in_def)

lemma refs_in_more_parents: "refs_in fk pk cs ps \<Longrightarrow> refs_in fk pk cs (ps @ qs)"
  by (auto simp: refs_in_def list_all_iff)

lemma refs_in_map_parents:
  "(\<And>p. pk (f p) = pk p) \<Longrightarrow> refs_in fk pk cs (map f ps) \<longleftrightarrow> refs_in fk pk cs ps"
  by (simp add: refs_in_def image_image)

lemma refs_in_map_children:
  "(\<And>c. fk (f c) = fk c) \<Longrightarrow> refs_in fk pk (map f cs) ps \<longleftrightarrow> refs_in fk pk cs ps"
  by (simp add: refs_in_def list_all_iff)

lemma refs_in_filter: "refs_in fk pk cs ps \<Longrightarrow> refs_in fk pk (filter P cs) ps"
  by (simp add: refs_in_def list_all_iff)

lemma distinct_map_filter_key: "distinct (map f xs) \<Longrightarrow> distinct (map f (filter P xs))"
  by (induction xs) auto

lemma distinct_map_update:
  "(\<And>x. f (g x) = f x) \<Longrightarrow> distinct (map f (map g xs)) \<longleftrightarrow> distinct (map f xs)"
  by (simp add: comp_def)

end
