(* ===== verification/GoIO.thy ===== *)
theory GoIO
  imports Schema
begin

text \<open>
  Errors as values and effects as state passing. A Go function that returns
  \<open>(T, error)\<close> and talks to the database, the clock or the random source is a function
  from the world to a result and a world. The world holds the database and the position
  in three streams: which driver call fails and how, what the clock reads, what the
  random source yields. Every effect takes the next position, so a theorem that holds
  for every world holds for every placement of faults. Beside them the world holds the
  memory that calls share: the rate limits by token that the forge clients keep, and the
  last readiness check of the server.
\<close>

subsection \<open>Errors\<close>

text \<open>The sentinel errors of the modelled packages, by the name the code gives them.\<close>

datatype sentinel =
    ErrInvalidPipelineID | ErrPipelineNotFound | ErrMetricsRunNotFound
  | ErrInvalidHealthFilter | ErrInvalidPipelineSort | ErrInvalidRunStatus
  | ErrQuarantineNoteTooLong
  | ErrInvalidKey | ErrInvalidValue
  | ErrUserExists | ErrNoUser | ErrCeremonyNotFound | ErrSessionNotFound
  | ErrTokenNotFound | ErrCredentialNotFound | ErrLastCredential
  | ErrRepoAlreadyTracked | ErrRepoNotFound | ErrRepoArchived | ErrRepoFork | ErrRepoMirror
  | ErrNoForgeClient | ErrSavedTokenNotFound
  | ErrRunNotFound | ErrNotActionable | ErrActionUnsupported | ErrActionForbidden
  | ErrActionUnreachable
  | ErrJobNotFound | ErrLogUnsupported | ErrLogExpired | ErrLogForbidden | ErrLogUnreachable
  | ErrInvalidIdentifier | ErrUnexpectedStatus
  | ErrInvalidKeySize | ErrCiphertextTooShort

text \<open>
  \<open>Wrap m e\<close> is \<open>fmt.Errorf("m: %w", e)\<close>, \<open>Detail e m\<close> is \<open>fmt.Errorf("%w: m", e)\<close>,
  \<open>Both e f\<close> wraps two errors, \<open>Driver\<close> is an error of code outside the program and
  \<open>Constraint\<close> the refusal of a statement by the schema.
  \<open>GoPanic\<close> is a run-time panic: it unwinds through every function of the model, which is
  what it does in the code, where nothing below the HTTP server recovers.
\<close>

datatype constraint = UniqueKey | PrimaryKey | ForeignKey | CheckFailed

datatype goerr =
    Sentinel sentinel
  | Driver string
  | Constraint constraint
  | Wrap string goerr
  | Detail goerr string
  | Both goerr goerr
  | GoPanic

text \<open>\<open>errors.Is\<close> against a sentinel.\<close>

fun is_err :: "goerr \<Rightarrow> sentinel \<Rightarrow> bool" where
  "is_err (Sentinel s) t = (s = t)"
| "is_err (Driver _) t = False"
| "is_err (Constraint _) t = False"
| "is_err (Wrap _ e) t = is_err e t"
| "is_err (Detail e _) t = is_err e t"
| "is_err (Both e f) t = (is_err e t \<or> is_err f t)"
| "is_err GoPanic t = False"

definition wrap_error :: "string \<Rightarrow> goerr \<Rightarrow> goerr" where
  "wrap_error m e = (if e = GoPanic then GoPanic else Wrap m e)"

lemma is_err_wrap_error [simp]: "is_err (wrap_error m e) t = is_err e t"
  by (simp add: wrap_error_def)

subsection \<open>The world\<close>

datatype fault = NoFault | FailStmt string | FailScan string | FailRows string

record env =
  e_fault :: "nat \<Rightarrow> fault"
  e_clock :: "nat \<Rightarrow> gotime"
  e_rand :: "nat \<Rightarrow> string"

text \<open>What a forge last said of a token's rate limit (\<open>RateLimitSnapshot\<close>).\<close>

record rate_limit =
  rt_limit :: int
  rt_remaining :: int
  rt_used :: int
  rt_resource :: string
  rt_reset :: gotime

record world =
  w_db :: db
  w_pos :: nat
  w_env :: env
  w_limits :: "(string \<times> rate_limit) list"
  w_ready :: "(gotime \<times> goerr option) option"

type_synonym 'a res = "goerr + 'a"
type_synonym 'a io = "world \<Rightarrow> (goerr + 'a) \<times> world"

definition retE :: "'a \<Rightarrow> 'a io" where
  "retE x w = (Inr x, w)"

definition throwE :: "goerr \<Rightarrow> 'a io" where
  "throwE e w = (Inl e, w)"

definition bindE :: "'a io \<Rightarrow> ('a \<Rightarrow> 'b io) \<Rightarrow> 'b io" where
  "bindE m f w = (case m w of (Inl e, w') \<Rightarrow> (Inl e, w') | (Inr x, w') \<Rightarrow> f x w')"

definition thenE :: "'a io \<Rightarrow> 'b io \<Rightarrow> 'b io" where
  "thenE m n = bindE m (\<lambda>_. n)"

text \<open>\<open>if err != nil { return fmt.Errorf("msg: %w", err) }\<close>\<close>

definition wrapE :: "string \<Rightarrow> 'a io \<Rightarrow> 'a io" where
  "wrapE msg m w = (case m w of (Inl e, w') \<Rightarrow> (Inl (wrap_error msg e), w') | (Inr x, w') \<Rightarrow> (Inr x, w'))"

text \<open>The result as a value: for code that looks at the error and goes on.\<close>

definition tryE :: "'a io \<Rightarrow> 'a res io" where
  "tryE m w = (case m w of (r, w') \<Rightarrow> if r = Inl GoPanic then (Inl GoPanic, w') else (Inr r, w'))"

definition liftE :: "'a res \<Rightarrow> 'a io" where
  "liftE r w = (r, w)"

definition panicE :: "'a io" where
  "panicE = throwE GoPanic"

definition opt_panicE :: "'a option \<Rightarrow> 'a io" where
  "opt_panicE x = (case x of None \<Rightarrow> panicE | Some y \<Rightarrow> retE y)"

fun mapE :: "('a \<Rightarrow> 'b io) \<Rightarrow> 'a list \<Rightarrow> 'b list io" where
  "mapE f [] = retE []"
| "mapE f (x # xs) = bindE (f x) (\<lambda>y. bindE (mapE f xs) (\<lambda>ys. retE (y # ys)))"

fun forE :: "'a list \<Rightarrow> ('a \<Rightarrow> unit io) \<Rightarrow> unit io" where
  "forE [] f = retE ()"
| "forE (x # xs) f = thenE (f x) (forE xs f)"

subsection \<open>Effects\<close>

definition step_world :: "world \<Rightarrow> world" where
  "step_world w = w\<lparr>w_pos := Suc (w_pos w)\<rparr>"

definition fault_here :: "world \<Rightarrow> fault" where
  "fault_here w = e_fault (w_env w) (w_pos w)"

definition nowE :: "gotime io" where
  "nowE w = (Inr (e_clock (w_env w) (w_pos w)), step_world w)"

definition randE :: "string io" where
  "randE w = (Inr (e_rand (w_env w) (w_pos w)), step_world w)"

text \<open>A call that leaves the program: the answer depends on when it is made.\<close>

definition callE :: "(nat \<Rightarrow> 'r) \<Rightarrow> 'r io" where
  "callE f w = (Inr (f (w_pos w)), step_world w)"

definition set_limitE :: "string \<Rightarrow> rate_limit \<Rightarrow> unit io" where
  "set_limitE token l w = (Inr (), w\<lparr>w_limits := (token, l) # w_limits w\<rparr>)"

definition set_readyE :: "gotime \<Rightarrow> goerr option \<Rightarrow> unit io" where
  "set_readyE t e w = (Inr (), w\<lparr>w_ready := Some (t, e)\<rparr>)"

text \<open>
  A query read to the end: the statement can fail (\<open>QueryContext\<close>), a row can fail to
  scan, and the iteration can fail (\<open>rows.Err\<close>), each with its own message.
\<close>

definition queryE :: "string \<Rightarrow> string \<Rightarrow> string \<Rightarrow> (db \<Rightarrow> 'a list) \<Rightarrow> 'a list io" where
  "queryE m_query m_scan m_rows sel w =
     (case fault_here w of
        NoFault \<Rightarrow> (Inr (sel (w_db w)), step_world w)
      | FailStmt e \<Rightarrow> (Inl (Wrap m_query (Driver e)), step_world w)
      | FailScan e \<Rightarrow> (if sel (w_db w) = [] then (Inr [], step_world w)
                       else (Inl (Wrap m_scan (Driver e)), step_world w))
      | FailRows e \<Rightarrow> (Inl (Wrap m_rows (Driver e)), step_world w))"

text \<open>\<open>QueryRowContext(...).Scan(...)\<close>: one row, \<open>None\<close> for \<open>sql.ErrNoRows\<close>, or an error.\<close>

definition query_rowE :: "(db \<Rightarrow> 'a option) \<Rightarrow> 'a option io" where
  "query_rowE sel w =
     (case fault_here w of
        NoFault \<Rightarrow> (Inr (sel (w_db w)), step_world w)
      | FailStmt e \<Rightarrow> (Inl (Driver e), step_world w)
      | FailScan e \<Rightarrow> (if sel (w_db w) = None then (Inr None, step_world w)
                       else (Inl (Driver e), step_world w))
      | FailRows e \<Rightarrow> (Inl (Driver e), step_world w))"

text \<open>
  \<open>ExecContext\<close>: the statement takes effect and tells how many rows it changed, or it
  fails (by a fault, or because a row it adds refers to a missing parent: \<open>None\<close>) and
  changes nothing. \<open>insertE\<close> is an \<open>INSERT\<close> of one row with the constraint it breaks.
\<close>

definition execE :: "(db \<Rightarrow> (db \<times> nat) option) \<Rightarrow> nat io" where
  "execE stmt w =
     (case fault_here w of
        NoFault \<Rightarrow>
          (case stmt (w_db w) of
             None \<Rightarrow> (Inl (Constraint ForeignKey), step_world w)
           | Some (d, n) \<Rightarrow> (Inr n, (step_world w)\<lparr>w_db := d\<rparr>))
      | FailStmt e \<Rightarrow> (Inl (Driver e), step_world w)
      | FailScan e \<Rightarrow> (Inl (Driver e), step_world w)
      | FailRows e \<Rightarrow> (Inl (Driver e), step_world w))"

definition insertE :: "(db \<Rightarrow> constraint + db) \<Rightarrow> unit io" where
  "insertE stmt w =
     (case fault_here w of
        NoFault \<Rightarrow>
          (case stmt (w_db w) of
             Inl c \<Rightarrow> (Inl (Constraint c), step_world w)
           | Inr d \<Rightarrow> (Inr (), (step_world w)\<lparr>w_db := d\<rparr>))
      | FailStmt e \<Rightarrow> (Inl (Driver e), step_world w)
      | FailScan e \<Rightarrow> (Inl (Driver e), step_world w)
      | FailRows e \<Rightarrow> (Inl (Driver e), step_world w))"

text \<open>A statement with a \<open>RETURNING\<close> clause.\<close>

definition returningE :: "(db \<Rightarrow> constraint + (db \<times> 'a)) \<Rightarrow> 'a io" where
  "returningE stmt w =
     (case fault_here w of
        NoFault \<Rightarrow>
          (case stmt (w_db w) of
             Inl c \<Rightarrow> (Inl (Constraint c), step_world w)
           | Inr (d, x) \<Rightarrow> (Inr x, (step_world w)\<lparr>w_db := d\<rparr>))
      | FailStmt e \<Rightarrow> (Inl (Driver e), step_world w)
      | FailScan e \<Rightarrow> (Inl (Driver e), step_world w)
      | FailRows e \<Rightarrow> (Inl (Driver e), step_world w))"

text \<open>
  A transaction: \<open>BeginTx\<close>, the body, \<open>Commit\<close>, with the deferred \<open>Rollback\<close>. Unless the
  commit succeeds the database is what it was.
\<close>

definition txE :: "string \<Rightarrow> string \<Rightarrow> 'a io \<Rightarrow> 'a io" where
  "txE m_begin m_commit body w =
     (case fault_here w of
        NoFault \<Rightarrow>
          (case body (step_world w) of
             (Inl e, w') \<Rightarrow> (Inl e, w'\<lparr>w_db := w_db w\<rparr>)
           | (Inr x, w') \<Rightarrow>
               (case fault_here w' of
                  NoFault \<Rightarrow> (Inr x, step_world w')
                | FailStmt e \<Rightarrow> (Inl (Wrap m_commit (Driver e)), (step_world w')\<lparr>w_db := w_db w\<rparr>)
                | FailScan e \<Rightarrow> (Inl (Wrap m_commit (Driver e)), (step_world w')\<lparr>w_db := w_db w\<rparr>)
                | FailRows e \<Rightarrow> (Inl (Wrap m_commit (Driver e)), (step_world w')\<lparr>w_db := w_db w\<rparr>)))
      | FailStmt e \<Rightarrow> (Inl (Wrap m_begin (Driver e)), step_world w)
      | FailScan e \<Rightarrow> (Inl (Wrap m_begin (Driver e)), step_world w)
      | FailRows e \<Rightarrow> (Inl (Wrap m_begin (Driver e)), step_world w))"

subsection \<open>Rules\<close>

named_theorems io_simps "evaluation of the effect combinators"
named_theorems keeps_intros "rules that show an operation keeps a property of the database"

lemmas io_defs [io_simps] = retE_def throwE_def bindE_def thenE_def wrapE_def tryE_def liftE_def
  panicE_def opt_panicE_def nowE_def randE_def queryE_def query_rowE_def execE_def insertE_def returningE_def txE_def
  step_world_def fault_here_def

lemma bindE_Inr: "m w = (Inr x, w') \<Longrightarrow> bindE m f w = f x w'"
  by (simp add: bindE_def)

lemma bindE_Inl: "m w = (Inl e, w') \<Longrightarrow> bindE m f w = (Inl e, w')"
  by (simp add: bindE_def)

lemma bindE_eq_Inr:
  "bindE m f w = (Inr y, w'') \<longleftrightarrow> (\<exists>x w'. m w = (Inr x, w') \<and> f x w' = (Inr y, w''))"
  by (auto simp: bindE_def split: prod.splits sum.splits)

lemma wrapE_eq_Inr [simp]: "wrapE s m w = (Inr y, w') \<longleftrightarrow> m w = (Inr y, w')"
  by (auto simp: wrapE_def split: prod.splits sum.splits)

lemma retE_eq [simp]: "retE x w = (r, w') \<longleftrightarrow> r = Inr x \<and> w' = w"
  by (auto simp: retE_def)

lemma throwE_eq [simp]: "throwE e w = (r, w') \<longleftrightarrow> r = Inl e \<and> w' = w"
  by (auto simp: throwE_def)

lemma w_db_step_world [simp]: "w_db (step_world w) = w_db w" "w_env (step_world w) = w_env w"
    "w_pos (step_world w) = Suc (w_pos w)"
  by (simp_all add: step_world_def)

text \<open>\<open>keeps P m\<close>: whatever \<open>m\<close> returns, and whatever fails, \<open>P\<close> holds of the database after it.\<close>

definition keeps :: "(db \<Rightarrow> bool) \<Rightarrow> 'a io \<Rightarrow> bool" where
  "keeps P m \<longleftrightarrow> (\<forall>w. P (w_db w) \<longrightarrow> P (w_db (snd (m w))))"

lemma keepsD: "keeps P m \<Longrightarrow> P (w_db w) \<Longrightarrow> P (w_db (snd (m w)))"
  by (simp add: keeps_def)

lemma keeps_retE [keeps_intros]: "keeps P (retE x)"
  by (simp add: keeps_def retE_def)

lemma keeps_throwE [keeps_intros]: "keeps P (throwE e)"
  by (simp add: keeps_def throwE_def)

lemma keeps_liftE [keeps_intros]: "keeps P (liftE r)"
  by (simp add: keeps_def liftE_def)

lemma keeps_nowE [keeps_intros]: "keeps P nowE"
  by (simp add: keeps_def nowE_def)

lemma keeps_randE [keeps_intros]: "keeps P randE"
  by (simp add: keeps_def randE_def)

lemma keeps_callE [keeps_intros]: "keeps P (callE f)"
  by (simp add: keeps_def callE_def)

lemma keeps_set_limitE [keeps_intros]: "keeps P (set_limitE t l)"
  by (simp add: keeps_def set_limitE_def)

lemma keeps_set_readyE [keeps_intros]: "keeps P (set_readyE t e)"
  by (simp add: keeps_def set_readyE_def)

lemma keeps_panicE [keeps_intros]: "keeps P panicE"
  by (simp add: panicE_def keeps_throwE)

lemma keeps_opt_panicE [keeps_intros]: "keeps P (opt_panicE x)"
  by (cases x) (simp_all add: opt_panicE_def keeps_panicE keeps_retE)

lemma keeps_queryE [keeps_intros]: "keeps P (queryE a b c sel)"
  by (simp add: keeps_def queryE_def split: fault.split)

lemma keeps_query_rowE [keeps_intros]: "keeps P (query_rowE sel)"
  by (simp add: keeps_def query_rowE_def split: fault.split)

lemma keeps_bindE [keeps_intros]: "keeps P m \<Longrightarrow> (\<And>x. keeps P (f x)) \<Longrightarrow> keeps P (bindE m f)"
  by (fastforce simp: keeps_def bindE_def split: prod.split sum.split)

lemma keeps_thenE [keeps_intros]: "keeps P m \<Longrightarrow> keeps P n \<Longrightarrow> keeps P (thenE m n)"
  by (simp add: thenE_def keeps_bindE)

lemma keeps_wrapE [keeps_intros]: "keeps P m \<Longrightarrow> keeps P (wrapE s m)"
  by (fastforce simp: keeps_def wrapE_def split: prod.split sum.split)

lemma keeps_tryE [keeps_intros]: "keeps P m \<Longrightarrow> keeps P (tryE m)"
  by (fastforce simp: keeps_def tryE_def split: prod.split)

lemma keeps_mapE [keeps_intros]: "(\<And>x. keeps P (f x)) \<Longrightarrow> keeps P (mapE f xs)"
  by (induction xs) (auto intro: keeps_intros)

lemma keeps_forE [keeps_intros]: "(\<And>x. keeps P (f x)) \<Longrightarrow> keeps P (forE xs f)"
  by (induction xs) (auto intro: keeps_intros)

lemma keeps_txE [keeps_intros]:
  assumes "keeps P m" shows "keeps P (txE a b m)"
  unfolding keeps_def
proof (intro allI impI)
  fix w :: world
  assume w: "P (w_db w)"
  obtain r w' where m: "m (step_world w) = (r, w')" by fastforce
  with assms w have "P (w_db w')"
    using keepsD [of P m "step_world w"] by simp
  with w m show "P (w_db (snd (txE a b m w)))"
    by (cases r) (simp_all add: txE_def split: fault.split)
qed

lemma keeps_execE:
  "(\<And>d d' n. P d \<Longrightarrow> stmt d = Some (d', n) \<Longrightarrow> P d') \<Longrightarrow> keeps P (execE stmt)"
  by (auto simp: keeps_def execE_def split: prod.split option.split fault.split)

text \<open>An operation that only reads: it keeps every property, so the database is unchanged.\<close>

lemma keeps_all_db: "(\<And>P. keeps P m) \<Longrightarrow> w_db (snd (m w)) = w_db w"
  using keepsD [of "\<lambda>d. d = w_db w" m w] by simp

text \<open>A failed transaction leaves the database as it was.\<close>

lemma txE_fail_db: "txE a b m w = (Inl e, w') \<Longrightarrow> w_db w' = w_db w"
  by (auto simp: txE_def split: prod.splits sum.splits fault.splits)

lemma mapE_ok:
  "(\<And>x. x \<in> set xs \<Longrightarrow> \<forall>w. \<exists>w'. f x w = (Inr (g x), w')) \<Longrightarrow>
   \<exists>w'. mapE f xs w = (Inr (map g xs), w')"
proof (induction xs arbitrary: w)
  case Nil
  then show ?case by simp
next
  case (Cons x xs)
  obtain w1 where "f x w = (Inr (g x), w1)" using Cons.prems by fastforce
  moreover obtain w2 where "mapE f xs w1 = (Inr (map g xs), w2)" using Cons by fastforce
  ultimately show ?case by (simp add: bindE_Inr)
qed

text \<open>What a statement that succeeds or fails leaves behind.\<close>

lemma execE_Inr: "execE stmt w = (Inr n, w') \<Longrightarrow> \<exists>d. stmt (w_db w) = Some (d, n) \<and> w_db w' = d"
  by (auto simp: execE_def split: fault.splits option.splits)

lemma execE_Inl: "execE stmt w = (Inl e, w') \<Longrightarrow> w_db w' = w_db w"
  by (auto simp: execE_def split: fault.splits option.splits)

lemma exec_then_ret_Inl:
  "bindE (wrapE m (execE stmt)) (\<lambda>_. retE x) w = (Inl e, w') \<Longrightarrow> w_db w' = w_db w"
  by (auto simp: bindE_def wrapE_def retE_def split: prod.splits sum.splits dest: execE_Inl)

lemma queryE_Inr: "queryE a b c sel w = (Inr xs, w') \<Longrightarrow> xs = sel (w_db w) \<and> w_db w' = w_db w"
  by (auto simp: queryE_def split: fault.splits if_splits)

lemma mapE_Inr:
  assumes "mapE f xs w = (Inr ys, w')" and "\<And>x y w w'. f x w = (Inr y, w') \<Longrightarrow> R x y"
  shows "list_all2 R xs ys"
  using assms(1)
proof (induction xs arbitrary: w ys)
  case (Cons x xs)
  then obtain y w1 ys' where "f x w = (Inr y, w1)" "mapE f xs w1 = (Inr ys', w')" "ys = y # ys'"
    by (auto simp: bindE_eq_Inr)
  then show ?case using Cons.IH assms(2) by auto
qed simp

text \<open>An environment without faults, for examples.\<close>

definition quiet_env :: env where
  "quiet_env = \<lparr> e_fault = \<lambda>_. NoFault, e_clock = \<lambda>n. int n, e_rand = \<lambda>_. ''id'' \<rparr>"

lemma query_rowE_Inr: "query_rowE sel w = (Inr x, w') \<Longrightarrow> x = sel (w_db w) \<and> w_db w' = w_db w"
  by (auto simp: query_rowE_def split: fault.splits if_splits)

lemma query_rowE_db: "query_rowE sel w = (r, w') \<Longrightarrow> w_db w' = w_db w"
  by (auto simp: query_rowE_def split: fault.splits if_splits)

lemma nowE_db: "nowE w = (r, w') \<Longrightarrow> w_db w' = w_db w"
  by (auto simp: nowE_def)

lemma randE_db: "randE w = (r, w') \<Longrightarrow> w_db w' = w_db w"
  by (auto simp: randE_def)

lemma txE_Inr:
  assumes "txE a b body w = (Inr x, w')"
  shows "\<exists>w1 w2. w_db w1 = w_db w \<and> body w1 = (Inr x, w2) \<and> w_db w' = w_db w2"
proof -
  obtain r w2 where body: "body (step_world w) = (r, w2)" by fastforce
  then have "r = Inr x \<and> w_db w' = w_db w2"
    using assms by (cases r) (auto simp: txE_def split: fault.splits)
  with body show ?thesis by (metis w_db_step_world(1))
qed

lemma keeps_insertE: "(\<And>d d'. P d \<Longrightarrow> stmt d = Inr d' \<Longrightarrow> P d') \<Longrightarrow> keeps P (insertE stmt)"
  by (auto simp: keeps_def insertE_def split: sum.split fault.split)

lemma keeps_returningE: "(\<And>d d' x. P d \<Longrightarrow> stmt d = Inr (d', x) \<Longrightarrow> P d') \<Longrightarrow> keeps P (returningE stmt)"
  by (auto simp: keeps_def returningE_def split: sum.split prod.split fault.split)

lemma returningE_Inr: "returningE stmt w = (Inr x, w') \<Longrightarrow> stmt (w_db w) = Inr (w_db w', x)"
  by (auto simp: returningE_def split: fault.splits sum.splits)

lemma insertE_Inr: "insertE stmt w = (Inr u, w') \<Longrightarrow> stmt (w_db w) = Inr (w_db w')"
  by (auto simp: insertE_def split: fault.splits sum.splits)

lemma insertE_Inl: "insertE stmt w = (Inl e, w') \<Longrightarrow> w_db w' = w_db w"
  by (auto simp: insertE_def split: fault.splits sum.splits)

definition first_row :: "'a list \<Rightarrow> 'a option" where
  "first_row xs = (case xs of [] \<Rightarrow> None | x # _ \<Rightarrow> Some x)"

text \<open>A row is added to a table: the keys it must not repeat, the parent it must have.\<close>

definition has_key :: "('a \<Rightarrow> 'k) \<Rightarrow> 'k \<Rightarrow> 'a list \<Rightarrow> bool" where
  "has_key key k rows \<longleftrightarrow> list_ex (\<lambda>r. key r = k) rows"

lemma has_key_iff: "has_key key k rows \<longleftrightarrow> k \<in> key ` set rows"
  by (auto simp: has_key_def list_ex_iff)

subsection \<open>The environment\<close>

text \<open>
  Every operation reads the same three streams onwards: it never changes the environment
  and never goes back in it.
\<close>

definition onwards :: "'a io \<Rightarrow> bool" where
  "onwards m \<longleftrightarrow> (\<forall>w. w_env (snd (m w)) = w_env w \<and> w_pos w \<le> w_pos (snd (m w)))"

named_theorems onwards_intros "rules that show an operation moves onwards"

lemma onwardsD: "onwards m \<Longrightarrow> m w = (r, w') \<Longrightarrow> w_env w' = w_env w \<and> w_pos w \<le> w_pos w'"
  by (metis onwards_def snd_conv)

lemma onwards_basic [onwards_intros]:
  "onwards (retE x)" "onwards (throwE e)" "onwards (liftE r)" "onwards nowE" "onwards randE"
  by (simp_all add: onwards_def liftE_def nowE_def randE_def retE_def throwE_def)

lemma onwards_call [onwards_intros]:
  "onwards (callE f)" "onwards (set_limitE t l)" "onwards (set_readyE u e)"
  by (simp_all add: onwards_def callE_def set_limitE_def set_readyE_def)

lemma onwards_panicE [onwards_intros]: "onwards panicE" "onwards (opt_panicE x)"
  by (simp_all add: opt_panicE_def panicE_def onwards_basic split: option.split)

lemma onwards_db [onwards_intros]:
  "onwards (queryE a b c sel)" "onwards (query_rowE sel')" "onwards (execE stmt)" "onwards (insertE stmt')"
  "onwards (returningE stmt'')"
  by (simp_all add: onwards_def queryE_def query_rowE_def execE_def insertE_def returningE_def
      split: fault.split option.split sum.split prod.split)

lemma onwards_bindE [onwards_intros]:
  assumes "onwards m" and "\<And>x. onwards (f x)" shows "onwards (bindE m f)"
  unfolding onwards_def
proof
  fix w :: world
  obtain r w1 where m: "m w = (r, w1)" by fastforce
  note 1 = onwardsD [OF assms(1) m]
  show "w_env (snd (bindE m f w)) = w_env w \<and> w_pos w \<le> w_pos (snd (bindE m f w))"
  proof (cases r)
    case (Inl e)
    then show ?thesis using 1 m by (simp add: bindE_def)
  next
    case (Inr x)
    obtain r' w2 where "f x w1 = (r', w2)" by fastforce
    with onwardsD [OF assms(2) this] 1 m Inr show ?thesis by (simp add: bindE_def)
  qed
qed

lemma onwards_thenE [onwards_intros]: "onwards m \<Longrightarrow> onwards n \<Longrightarrow> onwards (thenE m n)"
  by (simp add: thenE_def onwards_bindE)

lemma snd_wrapE: "snd (wrapE s m w) = snd (m w)"
  by (simp add: wrapE_def split: prod.split sum.split)

lemma snd_tryE: "snd (tryE m w) = snd (m w)"
  by (simp add: tryE_def split: prod.split)

lemma onwards_wrapE [onwards_intros]: "onwards m \<Longrightarrow> onwards (wrapE s m)"
  by (simp add: onwards_def snd_wrapE)

lemma onwards_tryE [onwards_intros]: "onwards m \<Longrightarrow> onwards (tryE m)"
  by (simp add: onwards_def snd_tryE)

lemma onwards_mapE [onwards_intros]: "(\<And>x. onwards (f x)) \<Longrightarrow> onwards (mapE f xs)"
  by (induction xs) (auto intro: onwards_intros)

lemma onwards_forE [onwards_intros]: "(\<And>x. onwards (f x)) \<Longrightarrow> onwards (forE xs f)"
  by (induction xs) (auto intro: onwards_intros)

lemma onwards_txE [onwards_intros]:
  assumes "onwards m" shows "onwards (txE a b m)"
  unfolding onwards_def
proof
  fix w :: world
  obtain r w1 where m: "m (step_world w) = (r, w1)" by fastforce
  from onwardsD [OF assms m] show "w_env (snd (txE a b m w)) = w_env w \<and> w_pos w \<le> w_pos (snd (txE a b m w))"
    by (cases r) (auto simp: txE_def m split: fault.split)
qed

subsection \<open>Without faults\<close>

definition fault_free :: "world \<Rightarrow> bool" where
  "fault_free w \<longleftrightarrow> (\<forall>n. e_fault (w_env w) n = NoFault)"

lemma fault_free_here [simp]: "fault_free w \<Longrightarrow> fault_here w = NoFault"
  by (simp add: fault_free_def fault_here_def)

lemma fault_free_step [simp]: "fault_free (step_world w) = fault_free w"
  "fault_free (w\<lparr>w_db := d\<rparr>) = fault_free w"
  by (simp_all add: fault_free_def)

lemma fault_free_onwards: "onwards m \<Longrightarrow> m w = (r, w') \<Longrightarrow> fault_free w' = fault_free w"
  by (simp add: fault_free_def onwardsD)

lemma query_row_quiet: "fault_free w \<Longrightarrow> query_rowE sel w = (Inr (sel (w_db w)), step_world w)"
  by (simp add: query_rowE_def)

lemma query_quiet: "fault_free w \<Longrightarrow> queryE a b c sel w = (Inr (sel (w_db w)), step_world w)"
  by (simp add: queryE_def)

lemma exec_quiet:
  "fault_free w \<Longrightarrow> stmt (w_db w) = Some (d, n) \<Longrightarrow> execE stmt w = (Inr n, (step_world w)\<lparr>w_db := d\<rparr>)"
  by (simp add: execE_def)

lemma insert_quiet:
  "fault_free w \<Longrightarrow> stmt (w_db w) = Inr d \<Longrightarrow> insertE stmt w = (Inr (), (step_world w)\<lparr>w_db := d\<rparr>)"
  by (simp add: insertE_def)

lemma now_quiet: "nowE w = (Inr (e_clock (w_env w) (w_pos w)), step_world w)"
  by (simp add: nowE_def)

lemma rand_quiet: "randE w = (Inr (e_rand (w_env w) (w_pos w)), step_world w)"
  by (simp add: randE_def)

lemma w_db_same: "w_db v = d \<Longrightarrow> v\<lparr>w_db := d\<rparr> = v"
  by auto

lemma wrapE_Inr: "m w = (Inr x, w') \<Longrightarrow> wrapE s m w = (Inr x, w')"
  by (simp add: wrapE_def)

lemma wrapE_Inl: "m w = (Inl e, w') \<Longrightarrow> wrapE s m w = (Inl (wrap_error s e), w')"
  by (simp add: wrapE_def)

text \<open>The time the clock shows right after one database call.\<close>

abbreviation lookup_time :: "world \<Rightarrow> gotime" where
  "lookup_time w \<equiv> e_clock (w_env w) (Suc (w_pos w))"

end
