(* ===== verification/Metrics.thy ===== *)
theory Metrics
  imports Prelude GoText GoFloat GoIO
begin

text \<open>
  The figures of \<open>internal/metrics\<close>: pipeline identifiers, windows, health, trends,
  per-step aggregation, quarantine marks, outcomes, failure categories, paging. Every
  function here is pure; the operations that read the store are in \<open>MetricsService\<close>.
\<close>

subsection \<open>Time\<close>

text \<open>\<open>Time.Sub\<close> saturates at the bounds of \<open>Duration\<close>; \<open>zero_time\<close> is \<open>time.Time{}\<close>.\<close>

definition time_sub :: "gotime \<Rightarrow> gotime \<Rightarrow> int" where
  "time_sub a b = max min_int64 (min max_int64 (a - b))"

definition zero_time :: gotime where
  "zero_time = - 62135596800000000000"

subsection \<open>Data\<close>

record pipeline_ref =
  pr_repo :: string
  pr_name :: string

datatype health_status = HealthHealthy | HealthUnhealthy

datatype signal = SignalFailureRate | SignalDurationRegression | SignalFlakyStep

datatype window = Window (run_count: int)

record trend =
  tr_timestamps :: "gotime list"
  tr_p50 :: "float64 list"
  tr_p90 :: "float64 list"
  tr_rate :: "float64 list"

record quarantine =
  qn_note :: string
  qn_at :: gotime
  qn_expires :: gotime

record quarantine_key =
  qk_pipeline :: pipeline_ref
  qk_step :: string

record pipeline =
  pl_id :: string
  pl_repo :: string
  pl_name :: string
  pl_health :: health_status
  pl_signals :: "signal list"
  pl_last_run :: "gotime option"

record pipeline_detail =
  pd_pipeline :: pipeline
  pd_duration :: trend
  pd_failure :: trend

record step =
  sp_id :: string
  sp_name :: string
  sp_contribution :: float64
  sp_queue :: float64
  sp_exec :: float64
  sp_failure_rate :: float64
  sp_failure_count :: int
  sp_flaky :: bool
  sp_quarantine :: "quarantine option"
  sp_url :: string

record flaky_run =
  fr_run :: string
  fr_started :: "gotime option"
  fr_url :: string

record run_step =
  rs_job :: string
  rs_name :: string
  rs_status :: string
  rs_conclusion :: string
  rs_url :: string

record run_detail =
  rd_run :: string
  rd_started :: "gotime option"
  rd_steps :: "run_step list"

record usage_entry =
  ue_workflow :: string
  ue_minutes :: float64

record run_record =
  rr_id :: string
  rr_status :: string
  rr_conclusion :: string
  rr_started :: "gotime option"
  rr_completed :: "gotime option"

record step_occurrence =
  so_name :: string
  so_status :: string
  so_conclusion :: string
  so_started :: "gotime option"
  so_completed :: "gotime option"
  so_job_queued :: "gotime option"
  so_job_started :: "gotime option"
  so_job_url :: string
  so_run :: string
  so_run_started :: "gotime option"
  so_job :: string

record usage_record =
  ur_pipeline :: string
  ur_secs :: float64

datatype pipeline_sort = SortByName | SortByLastRun

record pipeline_filter =
  pf_repo :: string
  pf_forge :: string
  pf_health :: "health_status option"
  pf_sort :: pipeline_sort
  pf_limit :: int
  pf_offset :: int

definition all_pipelines :: pipeline_filter where
  "all_pipelines = \<lparr> pf_repo = [], pf_forge = [], pf_health = None, pf_sort = SortByName,
     pf_limit = 0, pf_offset = 0 \<rparr>"

subsection \<open>Pipeline identifiers\<close>

definition pipeline_id :: "pipeline_ref \<Rightarrow> string" where
  "pipeline_id r = b64_encode (pr_repo r @ [CHR 0x00] @ pr_name r)"

definition parse_pipeline_id :: "string \<Rightarrow> goerr + pipeline_ref" where
  "parse_pipeline_id i =
     (case b64_decode i of
        None \<Rightarrow> Inl (Detail (Sentinel ErrInvalidPipelineID) i)
      | Some raw \<Rightarrow>
          (case split_n2 (CHR 0x00) raw of
             [a, b] \<Rightarrow> Inr \<lparr> pr_repo = a, pr_name = b \<rparr>
           | _ \<Rightarrow> Inl (Detail (Sentinel ErrInvalidPipelineID) i)))"

subsection \<open>Windows\<close>

definition default_window_run_count :: int where
  "default_window_run_count = 20"

definition parse_window :: "string \<Rightarrow> window" where
  "parse_window raw =
     (case atoi raw of
        Some n \<Rightarrow> if n > 0 then Window n else Window default_window_run_count
      | None \<Rightarrow> Window default_window_run_count)"

definition window_size :: "window \<Rightarrow> int" where
  "window_size w = (if run_count w \<le> 0 then default_window_run_count else run_count w)"

definition doubled :: "window \<Rightarrow> window" where
  "doubled w = Window (wrap64 (window_size w * 2))"

text \<open>\<open>splitWindow\<close>: \<open>None\<close> is the panic of a slice expression; \<open>2*n\<close> wraps.\<close>

definition split_window :: "run_record list \<Rightarrow> window \<Rightarrow> (run_record list \<times> run_record list) option" where
  "split_window runs w =
     (let n = window_size w in
      if int (length runs) \<le> n then Some (runs, [])
      else (let stop = min (wrap64 (2 * n)) (int (length runs)) in
        (case go_slice runs 0 n of
           None \<Rightarrow> None
         | Some current \<Rightarrow>
             (case go_slice runs n stop of
                None \<Rightarrow> None
              | Some prior \<Rightarrow> Some (current, prior)))))"

subsection \<open>Numbers\<close>

definition duration_seconds :: "gotime option \<Rightarrow> gotime option \<Rightarrow> float64 option" where
  "duration_seconds s e =
     (case (s, e) of
        (Some a, Some b) \<Rightarrow> Some (duration_to_seconds (time_sub b a))
      | _ \<Rightarrow> None)"

definition float_sum :: "float64 list \<Rightarrow> float64" where
  "float_sum vs = fold (\<lambda>v s. fl64 (s + v)) vs 0"

definition average :: "float64 list \<Rightarrow> float64" where
  "average vs = (if vs = [] then 0 else fl64 (float_sum vs / fl64 (of_nat (length vs))))"

definition rate :: "int \<Rightarrow> int \<Rightarrow> float64" where
  "rate a b = (if b = 0 then 0 else fl64 (fl64 (of_int a) / fl64 (of_int b)))"

definition percentile :: "float64 list \<Rightarrow> float64 \<Rightarrow> float64" where
  "percentile xs p =
     (if xs = [] then 0
      else let rank = \<lceil>fl64 (p * fl64 (of_nat (length xs)))\<rceil> - 1;
               rank = max rank 0;
               rank = min rank (int (length xs) - 1)
           in xs ! nat rank)"

definition p50 :: float64 where "p50 = fl64 (1 / 2)"
definition p90 :: float64 where "p90 = fl64 (9 / 10)"
definition unhealthy_failure_rate_threshold :: float64 where
  "unhealthy_failure_rate_threshold = fl64 (1 / 5)"
definition duration_regression_factor :: float64 where
  "duration_regression_factor = fl64 (3 / 2)"

definition durations :: "run_record list \<Rightarrow> float64 list" where
  "durations runs = List.map_filter (\<lambda>r. duration_seconds (rr_started r) (rr_completed r)) runs"

subsection \<open>Health\<close>

definition overall_failure_rate :: "run_record list \<Rightarrow> float64" where
  "overall_failure_rate runs =
     (let done = filter (\<lambda>r. rr_status r = ''completed'') runs
      in rate (int (length (filter (\<lambda>r. rr_conclusion r = ''failure'') done))) (int (length done)))"

definition runs_p90 :: "run_record list \<Rightarrow> float64" where
  "runs_p90 runs = (let ds = durations runs in if ds = [] then 0 else percentile (sort ds) p90)"

definition regressed :: "run_record list \<Rightarrow> run_record list \<Rightarrow> bool" where
  "regressed current prior =
     (let c = runs_p90 current; p = runs_p90 prior
      in if c = 0 \<or> p = 0 then False else fl64 (p * duration_regression_factor) \<le> c)"

definition compute_health :: "run_record list \<Rightarrow> run_record list \<Rightarrow> bool \<Rightarrow> health_status \<times> signal list" where
  "compute_health current prior flaky =
     (let signals =
        (if unhealthy_failure_rate_threshold \<le> overall_failure_rate current then [SignalFailureRate] else [])
        @ (if regressed current prior then [SignalDurationRegression] else [])
        @ (if flaky then [SignalFlakyStep] else [])
      in (if signals = [] then HealthHealthy else HealthUnhealthy, signals))"

definition last_run_at :: "run_record list \<Rightarrow> gotime option" where
  "last_run_at runs =
     (case runs of [] \<Rightarrow> None
      | r # _ \<Rightarrow> (case rr_started r of Some t \<Rightarrow> Some t | None \<Rightarrow> rr_completed r))"

subsection \<open>Trends\<close>

definition trend_bucket_size :: nat where
  "trend_bucket_size = 5"

function bucket_runs :: "'a list \<Rightarrow> 'a list list" where
  "bucket_runs runs =
     (if runs = [] then []
      else take trend_bucket_size runs # bucket_runs (drop trend_bucket_size runs))"
  by pat_completeness auto
termination
  by (relation "measure length") (auto simp: trend_bucket_size_def)

declare bucket_runs.simps [simp del]

definition last_started :: "run_record list \<Rightarrow> gotime" where
  "last_started runs =
     fold (\<lambda>r ts. case rr_started r of Some t \<Rightarrow> t | None \<Rightarrow> ts) runs zero_time"

definition empty_trend :: trend where
  "empty_trend = \<lparr> tr_timestamps = [], tr_p50 = [], tr_p90 = [], tr_rate = [] \<rparr>"

definition duration_bucket :: "run_record list \<Rightarrow> trend \<Rightarrow> trend" where
  "duration_bucket bucket t =
     (let ds = durations bucket in
      if ds = [] then t
      else t\<lparr> tr_timestamps := tr_timestamps t @ [last_started bucket],
              tr_p50 := tr_p50 t @ [percentile (sort ds) p50],
              tr_p90 := tr_p90 t @ [percentile (sort ds) p90] \<rparr>)"

definition duration_trend :: "run_record list \<Rightarrow> trend" where
  "duration_trend runs_oldest_first = fold duration_bucket (bucket_runs runs_oldest_first) empty_trend"

definition failure_bucket :: "run_record list \<Rightarrow> trend \<Rightarrow> trend" where
  "failure_bucket bucket t =
     (let done = filter (\<lambda>r. rr_status r = ''completed'') bucket;
          failed = filter (\<lambda>r. rr_conclusion r = ''failure'') done
      in if done = [] then t
         else t\<lparr> tr_timestamps := tr_timestamps t @ [last_started done],
                 tr_rate := tr_rate t @ [rate (int (length failed)) (int (length done))] \<rparr>)"

definition failure_rate_trend :: "run_record list \<Rightarrow> trend" where
  "failure_rate_trend runs_oldest_first = fold failure_bucket (bucket_runs runs_oldest_first) empty_trend"

subsection \<open>Steps\<close>

record step_acc =
  sa_exec :: "float64 list"
  sa_queue :: "float64 list"
  sa_total :: int
  sa_failed :: int
  sa_saw_success :: bool
  sa_saw_failure :: bool
  sa_url :: string

definition empty_acc :: step_acc where
  "empty_acc = \<lparr> sa_exec = [], sa_queue = [], sa_total = 0, sa_failed = 0,
     sa_saw_success = False, sa_saw_failure = False, sa_url = [] \<rparr>"

definition acc_add :: "step_occurrence \<Rightarrow> step_acc \<Rightarrow> step_acc" where
  "acc_add occ a0 =
     (let a1 = (case duration_seconds (so_started occ) (so_completed occ) of
                  Some secs \<Rightarrow> a0\<lparr>sa_exec := sa_exec a0 @ [secs]\<rparr> | None \<Rightarrow> a0);
          a2 = (case duration_seconds (so_job_queued occ) (so_job_started occ) of
                  Some secs \<Rightarrow> a1\<lparr>sa_queue := sa_queue a1 @ [secs]\<rparr> | None \<Rightarrow> a1);
          a3 = (if so_status occ = ''completed''
                then (let b = a2\<lparr>sa_total := sa_total a2 + 1\<rparr>
                      in if so_conclusion occ = ''success'' then b\<lparr>sa_saw_success := True\<rparr>
                         else if so_conclusion occ = ''failure''
                              then b\<lparr>sa_failed := sa_failed b + 1, sa_saw_failure := True\<rparr>
                         else b)
                else a2)
      in if sa_url a3 = [] then a3\<lparr>sa_url := so_job_url occ\<rparr> else a3)"

definition step_of_acc :: "string \<times> step_acc \<Rightarrow> step" where
  "step_of_acc e = (case e of (name, a) \<Rightarrow>
     \<lparr> sp_id = name, sp_name = name,
       sp_contribution = average (sa_exec a), sp_queue = average (sa_queue a),
       sp_exec = average (sa_exec a),
       sp_failure_rate = rate (sa_failed a) (sa_total a), sp_failure_count = sa_failed a,
       sp_flaky = (sa_saw_success a \<and> sa_saw_failure a),
       sp_quarantine = None, sp_url = sa_url a \<rparr>)"

definition by_contribution :: "step \<Rightarrow> step \<Rightarrow> int" where
  "by_contribution a b = cmp_compare (sp_contribution b) (sp_contribution a)"

definition aggregate_steps :: "step_occurrence list \<Rightarrow> step list" where
  "aggregate_steps occs =
     sort_func by_contribution (map step_of_acc (group_loop so_name empty_acc acc_add occs))"

subsection \<open>Quarantine\<close>

definition counts_as_flaky :: "step \<Rightarrow> bool" where
  "counts_as_flaky s \<longleftrightarrow> sp_flaky s \<and> sp_quarantine s = None"

text \<open>The active marks are a Go map: an association list with distinct keys.\<close>

type_synonym quarantines = "(quarantine_key \<times> quarantine) list"

definition with_quarantines :: "step list \<Rightarrow> pipeline_ref \<Rightarrow> quarantines \<Rightarrow> step list" where
  "with_quarantines steps p active =
     map (\<lambda>s. case map_of active \<lparr> qk_pipeline = p, qk_step = sp_name s \<rparr> of
                 Some q \<Rightarrow> s\<lparr>sp_quarantine := Some q\<rparr> | None \<Rightarrow> s) steps"

definition any_flaky :: "step list \<Rightarrow> bool" where
  "any_flaky steps = list_ex counts_as_flaky steps"

definition unhealthy_of :: "step list \<Rightarrow> step list" where
  "unhealthy_of steps =
     filter (\<lambda>s. \<not> (sp_flaky s \<and> sp_quarantine s \<noteq> None) \<and> (sp_flaky s \<or> 0 < sp_failure_rate s)) steps"

definition quarantine_duration :: int where
  "quarantine_duration = 30 * 24 * hours"

definition max_quarantine_note :: nat where
  "max_quarantine_note = 500"

subsection \<open>Orders and pages\<close>

definition compare_started_desc :: "gotime option \<Rightarrow> gotime option \<Rightarrow> int" where
  "compare_started_desc a b =
     (case (a, b) of (None, None) \<Rightarrow> 0 | (None, Some _) \<Rightarrow> 1 | (Some _, None) \<Rightarrow> -1
      | (Some x, Some y) \<Rightarrow> cmp_compare y x)"

definition started_at_compare :: "gotime option \<Rightarrow> gotime option \<Rightarrow> int" where
  "started_at_compare a b =
     (case (a, b) of (None, None) \<Rightarrow> 0 | (None, Some _) \<Rightarrow> -1 | (Some _, None) \<Rightarrow> 1
      | (Some x, Some y) \<Rightarrow> cmp_compare x y)"

text \<open>\<open>UnixNano\<close> wraps outside the years an \<open>int64\<close> of nanoseconds can name.\<close>

definition compare_last_run_desc :: "gotime option \<Rightarrow> gotime option \<Rightarrow> int" where
  "compare_last_run_desc a b =
     (case (a, b) of (None, None) \<Rightarrow> 0 | (None, Some _) \<Rightarrow> 1 | (Some _, None) \<Rightarrow> -1
      | (Some x, Some y) \<Rightarrow> cmp_compare (wrap64 y) (wrap64 x))"

text \<open>\<open>paginate\<close>: the sum wraps, and a slice expression that is out of range panics.\<close>

definition paginate :: "'a list \<Rightarrow> int \<Rightarrow> int \<Rightarrow> ('a list \<times> bool) option" where
  "paginate xs limit offset =
     (let len = int (length xs); offset = min (max offset 0) len in
      if limit \<le> 0 then map_option (\<lambda>p. (p, False)) (go_slice xs offset len)
      else let stop = min (wrap64 (offset + limit)) len
           in map_option (\<lambda>p. (p, stop < len)) (go_slice xs offset stop))"

definition parse_health_filter :: "string \<Rightarrow> goerr + health_status option" where
  "parse_health_filter raw =
     (if raw = [] then Inr None
      else if raw = ''healthy'' then Inr (Some HealthHealthy)
      else if raw = ''unhealthy'' then Inr (Some HealthUnhealthy)
      else Inl (Detail (Sentinel ErrInvalidHealthFilter) raw))"

definition parse_pipeline_sort :: "string \<Rightarrow> goerr + pipeline_sort" where
  "parse_pipeline_sort raw =
     (if raw = [] then Inr SortByName
      else if raw = ''name'' then Inr SortByName
      else if raw = ''lastRun'' then Inr SortByLastRun
      else Inl (Detail (Sentinel ErrInvalidPipelineSort) raw))"

subsection \<open>Outcomes and categories\<close>

datatype outcome =
    OutcomePassed | OutcomeFailed | OutcomeRunning | OutcomeQueued | OutcomeCancelled
  | OutcomeSkipped | OutcomeUnknown

definition is_failed :: "string \<Rightarrow> bool" where
  "is_failed conclusion \<longleftrightarrow> conclusion = ''failure'' \<or> conclusion = ''timed_out''"

definition outcome_of :: "string \<Rightarrow> string \<Rightarrow> outcome" where
  "outcome_of status conclusion =
     (if conclusion = ''success'' then OutcomePassed
      else if is_failed conclusion then OutcomeFailed
      else if conclusion = ''cancelled'' then OutcomeCancelled
      else if conclusion = ''skipped'' then OutcomeSkipped
      else if conclusion \<noteq> [] then OutcomeUnknown
      else if status = ''in_progress'' then OutcomeRunning
      else if status \<in> set [''queued'', ''waiting'', ''pending'', ''requested''] then OutcomeQueued
      else OutcomeUnknown)"

datatype failure_category =
    CategoryInfrastructure | CategoryCodeTests | CategoryNetworkTimeouts
  | CategoryConfigSecrets | CategoryUncategorised

definition category_text :: "failure_category \<Rightarrow> string" where
  "category_text c = (case c of
       CategoryInfrastructure \<Rightarrow> ''infrastructure'' | CategoryCodeTests \<Rightarrow> ''code_tests''
     | CategoryNetworkTimeouts \<Rightarrow> ''network_timeouts'' | CategoryConfigSecrets \<Rightarrow> ''config_secrets''
     | CategoryUncategorised \<Rightarrow> ''uncategorised'')"

definition category_rules :: "(failure_category \<times> string list) list" where
  "category_rules =
     [(CategoryConfigSecrets, [''credential'', ''secret'', ''token'', ''login'', ''authenticat'',
         ''authoriz'', ''kms'', ''oidc'']),
      (CategoryCodeTests, [''test'', ''spec'', ''lint'', ''vet'', ''typecheck'', ''e2e'']),
      (CategoryNetworkTimeouts, [''pull'', ''download'', ''fetch'', ''install'', ''registry'']),
      (CategoryInfrastructure, [''setup'', ''runner'', ''cache'', ''provision''])]"

text \<open>
  The words of a step name. For an ASCII name they are computed; for any other name the
  Unicode tables of the Go runtime decide, so \<open>U\<close> gives the words of such a name.
\<close>

definition name_words :: "(string \<Rightarrow> string list) \<Rightarrow> string \<Rightarrow> string list" where
  "name_words U name =
     (if ascii name
      then (let low = map lower_char name
            in fields_by word_char [] (replace_all (length low) ''set up'' ''setup'' low))
      else U name)"

definition matches_rule :: "string list \<Rightarrow> failure_category \<times> string list \<Rightarrow> bool" where
  "matches_rule words rule = list_ex (\<lambda>k. list_ex (\<lambda>w. has_prefix w k) words) (snd rule)"

definition categorize_failure :: "(string \<Rightarrow> string list) \<Rightarrow> string \<Rightarrow> string \<Rightarrow> failure_category" where
  "categorize_failure U name conclusion =
     (if conclusion = ''timed_out'' then CategoryNetworkTimeouts
      else case find (matches_rule (name_words U name)) category_rules of
             Some rule \<Rightarrow> fst rule
           | None \<Rightarrow> CategoryUncategorised)"

end
