(* ===== verification/Insights.thy ===== *)
theory Insights
  imports Metrics
begin

text \<open>
  The cross-pipeline failure insights and the flaky-step list (\<open>insights.go\<close>,
  \<open>flaky.go\<close>): the pure part, from the window's runs and steps to the figures. Each
  \<open>range\<close> over a Go map takes its iteration order from the record \<open>orders\<close>.
\<close>

subsection \<open>Data\<close>

datatype insight_window = InsightWindow (iw_duration: int)

definition default_insight_window :: int where
  "default_insight_window = 7 * 24 * hours"

definition parse_insight_window :: "string \<Rightarrow> insight_window" where
  "parse_insight_window raw =
     (if raw = ''24h'' then InsightWindow (24 * hours)
      else if raw = ''7d'' then InsightWindow (7 * 24 * hours)
      else if raw = ''30d'' then InsightWindow (30 * 24 * hours)
      else InsightWindow default_insight_window)"

definition insight_label :: "insight_window \<Rightarrow> string" where
  "insight_label w =
     (if iw_duration w = 24 * hours then ''24h''
      else if iw_duration w = 30 * 24 * hours then ''30d'' else ''7d'')"

record insight_filter =
  if_repo :: string
  if_forge :: string
  if_branch :: string

record run_window_filter =
  wf_repo :: string
  wf_forge :: string
  wf_branch :: string
  wf_since :: gotime
  wf_until :: gotime

record branch_count =
  bc_name :: string
  bc_count :: int

record window_run =
  wr_pipeline :: pipeline_ref
  wr_run :: run_record

record window_step =
  ws_pipeline :: pipeline_ref
  ws_step :: step_occurrence

record stage_failure_count =
  sf_step :: string
  sf_failures :: int
  sf_share :: float64

record category_count =
  cc_category :: failure_category
  cc_occurrences :: int
  cc_share :: float64

record failure_group =
  fg_step :: string
  fg_category :: failure_category
  fg_conclusion :: string
  fg_occurrences :: int
  fg_pipelines :: "pipeline_ref list"

record failing_pipeline =
  fp_pipeline :: pipeline_ref
  fp_runs :: int
  fp_failed :: int

record failure_insights =
  fi_window :: insight_window
  fi_total :: int
  fi_failed :: int
  fi_pass_rate :: "float64 option"
  fi_pass_delta :: "float64 option"
  fi_mttr :: "int option"
  fi_top :: "failing_pipeline list"
  fi_flaky_ratio :: float64
  fi_stages :: "stage_failure_count list"
  fi_categories :: "category_count list"
  fi_groups :: "failure_group list"

record flaky_step =
  fs_pipeline :: pipeline_ref
  fs_name :: string
  fs_rate :: float64
  fs_runs :: int
  fs_outcomes :: "outcome list"
  fs_quarantine :: "quarantine option"

record group_acc =
  ga_occurrences :: int
  ga_conclusions :: "(string \<times> int) list"
  ga_pipelines :: "(pipeline_ref \<times> unit) list"

type_synonym flaky_key = "pipeline_ref \<times> string"

text \<open>The iteration orders, one per loop over a map.\<close>

record orders =
  or_top :: "(pipeline_ref \<times> int \<times> int) list \<Rightarrow> (pipeline_ref \<times> int \<times> int) list"
  or_mttr :: "(pipeline_ref \<times> window_run list) list \<Rightarrow> (pipeline_ref \<times> window_run list) list"
  or_stage_total :: "(string \<times> int) list \<Rightarrow> (string \<times> int) list"
  or_stages :: "(string \<times> int) list \<Rightarrow> (string \<times> int) list"
  or_groups :: "(string \<times> group_acc) list \<Rightarrow> (string \<times> group_acc) list"
  or_refs :: "(pipeline_ref \<times> unit) list \<Rightarrow> (pipeline_ref \<times> unit) list"
  or_conclusions :: "(string \<times> int) list \<Rightarrow> (string \<times> int) list"
  or_flaky :: "(pipeline_ref \<times> step_occurrence list) list \<Rightarrow> (pipeline_ref \<times> step_occurrence list) list"
  or_categories :: "(failure_category \<times> int) list \<Rightarrow> (failure_category \<times> int) list"
  or_matrix :: "(flaky_key \<times> step_occurrence list) list \<Rightarrow> (flaky_key \<times> step_occurrence list) list"

definition orders_ok :: "orders \<Rightarrow> bool" where
  "orders_ok os \<longleftrightarrow>
     permuting (or_top os) \<and> permuting (or_mttr os) \<and> permuting (or_stage_total os) \<and>
     permuting (or_stages os) \<and> permuting (or_groups os) \<and> permuting (or_refs os) \<and>
     permuting (or_conclusions os) \<and> permuting (or_flaky os) \<and> permuting (or_categories os) \<and>
     permuting (or_matrix os)"

definition insertion_orders :: orders where
  "insertion_orders = \<lparr> or_top = \<lambda>x. x, or_mttr = \<lambda>x. x, or_stage_total = \<lambda>x. x,
     or_stages = \<lambda>x. x, or_groups = \<lambda>x. x, or_refs = \<lambda>x. x, or_conclusions = \<lambda>x. x,
     or_flaky = \<lambda>x. x, or_categories = \<lambda>x. x, or_matrix = \<lambda>x. x \<rparr>"

subsection \<open>Runs\<close>

definition pass_rate :: "window_run list \<Rightarrow> float64 option \<times> int" where
  "pass_rate runs =
     (let passed = int (length (filter (\<lambda>w. rr_conclusion (wr_run w) = ''success'') runs));
          failed = int (length (filter (\<lambda>w. is_failed (rr_conclusion (wr_run w))) runs));
          concluded = passed + failed
      in if concluded = 0 then (None, failed)
         else (Some (fl64 (fl64 (of_int passed) / fl64 (of_int concluded))), failed))"

definition count_run :: "window_run \<Rightarrow> int \<times> int \<Rightarrow> int \<times> int" where
  "count_run w c = (fst c + 1, if is_failed (rr_conclusion (wr_run w)) then snd c + 1 else snd c)"

definition by_failed_runs :: "failing_pipeline \<Rightarrow> failing_pipeline \<Rightarrow> int" where
  "by_failed_runs a b =
     cmp_or [cmp_compare (fp_failed b) (fp_failed a),
             cmp_compare (pr_repo (fp_pipeline a)) (pr_repo (fp_pipeline b)),
             cmp_compare (pr_name (fp_pipeline a)) (pr_name (fp_pipeline b))]"

definition top_failing_pipelines :: "orders \<Rightarrow> window_run list \<Rightarrow> failing_pipeline list" where
  "top_failing_pipelines os runs =
     sort_func by_failed_runs
       (filter (\<lambda>fp. 0 < fp_failed fp)
         (map (\<lambda>e. \<lparr> fp_pipeline = fst e, fp_runs = fst (snd e), fp_failed = snd (snd e) \<rparr>)
           (or_top os (group_loop wr_pipeline (0, 0) count_run runs))))"

definition finished_at :: "run_record \<Rightarrow> gotime" where
  "finished_at r =
     (case rr_completed r of Some t \<Rightarrow> t
      | None \<Rightarrow> (case rr_started r of Some t \<Rightarrow> t | None \<Rightarrow> zero_time))"

definition by_finish :: "window_run \<Rightarrow> window_run \<Rightarrow> int" where
  "by_finish a b = cmp_compare (finished_at (wr_run a)) (finished_at (wr_run b))"

record outage =
  ou_total :: int
  ou_recoveries :: int
  ou_down :: "gotime option"

definition outage_step :: "window_run \<Rightarrow> outage \<Rightarrow> outage" where
  "outage_step w o' =
     (let t = finished_at (wr_run w); c = rr_conclusion (wr_run w) in
      case ou_down o' of
        None \<Rightarrow> if is_failed c then o'\<lparr>ou_down := Some t\<rparr> else o'
      | Some since \<Rightarrow>
          if c = ''success''
          then o'\<lparr>ou_total := wrap64 (ou_total o' + time_sub t since),
                  ou_recoveries := ou_recoveries o' + 1, ou_down := None\<rparr>
          else o')"

definition pipeline_outages :: "pipeline_ref \<times> window_run list \<Rightarrow> outage \<Rightarrow> outage" where
  "pipeline_outages e o' = fold outage_step (sort_func by_finish (snd e)) (o'\<lparr>ou_down := None\<rparr>)"

definition concluded_runs :: "window_run list \<Rightarrow> window_run list" where
  "concluded_runs = filter (\<lambda>w. rr_conclusion (wr_run w) = ''success'' \<or> is_failed (rr_conclusion (wr_run w)))"

definition runs_by_pipeline :: "window_run list \<Rightarrow> (pipeline_ref \<times> window_run list) list" where
  "runs_by_pipeline runs = group_loop wr_pipeline [] (\<lambda>w ws. ws @ [w]) (concluded_runs runs)"

definition mean_time_to_recovery :: "orders \<Rightarrow> window_run list \<Rightarrow> int option" where
  "mean_time_to_recovery os runs =
     (let o' = fold pipeline_outages (or_mttr os (runs_by_pipeline runs))
                 \<lparr> ou_total = 0, ou_recoveries = 0, ou_down = None \<rparr>
      in if ou_recoveries o' = 0 then None else Some (go_quot (ou_total o') (ou_recoveries o')))"

subsection \<open>Failed steps\<close>

definition is_failed_step :: "step_occurrence \<Rightarrow> bool" where
  "is_failed_step occ \<longleftrightarrow> so_status occ = ''completed'' \<and> is_failed (so_conclusion occ)"

definition failed_steps :: "window_step list \<Rightarrow> window_step list" where
  "failed_steps = filter (\<lambda>ws. is_failed_step (ws_step ws))"

definition ws_name :: "window_step \<Rightarrow> string" where
  "ws_name ws = so_name (ws_step ws)"

definition by_failures :: "stage_failure_count \<Rightarrow> stage_failure_count \<Rightarrow> int" where
  "by_failures a b = cmp_or [cmp_compare (sf_failures b) (sf_failures a), cmp_compare (sf_step a) (sf_step b)]"

definition stage_distribution :: "orders \<Rightarrow> window_step list \<Rightarrow> stage_failure_count list" where
  "stage_distribution os steps =
     (let counts = group_loop ws_name 0 (\<lambda>_ n. n + 1) (failed_steps steps);
          total = fold (\<lambda>e t. t + snd e) (or_stage_total os counts) 0
      in sort_func by_failures
           (map (\<lambda>e. \<lparr> sf_step = fst e, sf_failures = snd e, sf_share = rate (snd e) total \<rparr>)
             (or_stages os counts)))"

definition most_common :: "(string \<times> int) list \<Rightarrow> string" where
  "most_common counts =
     fst (fold (\<lambda>(key, count) (best, best_count).
        if best_count < count \<or> count = best_count \<and> key < best then (key, count) else (best, best_count))
        counts ([], 0))"

definition group_add :: "window_step \<Rightarrow> group_acc \<Rightarrow> group_acc" where
  "group_add ws a =
     \<lparr> ga_occurrences = ga_occurrences a + 1,
       ga_conclusions = map_upsert (so_conclusion (ws_step ws)) 0 (\<lambda>n. n + 1) (ga_conclusions a),
       ga_pipelines = map_upsert (ws_pipeline ws) () (\<lambda>u. u) (ga_pipelines a) \<rparr>"

definition empty_group :: group_acc where
  "empty_group = \<lparr> ga_occurrences = 0, ga_conclusions = [], ga_pipelines = [] \<rparr>"

definition by_ref :: "pipeline_ref \<Rightarrow> pipeline_ref \<Rightarrow> int" where
  "by_ref x y = cmp_or [cmp_compare (pr_repo x) (pr_repo y), cmp_compare (pr_name x) (pr_name y)]"

definition by_occurrences :: "failure_group \<Rightarrow> failure_group \<Rightarrow> int" where
  "by_occurrences a b =
     cmp_or [cmp_compare (fg_occurrences b) (fg_occurrences a), cmp_compare (fg_step a) (fg_step b)]"

definition failure_group_of :: "orders \<Rightarrow> (string \<Rightarrow> string list) \<Rightarrow> string \<times> group_acc \<Rightarrow> failure_group" where
  "failure_group_of os U e =
     (let name = fst e; a = snd e; conclusion = most_common (or_conclusions os (ga_conclusions a))
      in \<lparr> fg_step = name, fg_category = categorize_failure U name conclusion, fg_conclusion = conclusion,
           fg_occurrences = ga_occurrences a,
           fg_pipelines = sort_func by_ref (map fst (or_refs os (ga_pipelines a))) \<rparr>)"

definition failure_groups :: "orders \<Rightarrow> (string \<Rightarrow> string list) \<Rightarrow> window_step list \<Rightarrow> failure_group list" where
  "failure_groups os U steps =
     sort_func by_occurrences
       (map (failure_group_of os U)
         (or_groups os (group_loop ws_name empty_group group_add (failed_steps steps))))"

definition by_category :: "category_count \<Rightarrow> category_count \<Rightarrow> int" where
  "by_category a b =
     cmp_or [cmp_compare (cc_occurrences b) (cc_occurrences a),
             cmp_compare (category_text (cc_category a)) (category_text (cc_category b))]"

definition category_breakdown :: "orders \<Rightarrow> (string \<Rightarrow> string list) \<Rightarrow> window_step list \<Rightarrow> category_count list" where
  "category_breakdown os U steps =
     (let groups = failure_groups os U steps;
          counts = group_loop fg_category 0 (\<lambda>g n. n + fg_occurrences g) groups;
          total = fold (\<lambda>g t. t + fg_occurrences g) groups 0
      in sort_func by_category
           (map (\<lambda>e. \<lparr> cc_category = fst e, cc_occurrences = snd e, cc_share = rate (snd e) total \<rparr>)
             (or_categories os counts)))"

subsection \<open>Flaky steps\<close>

definition steps_by_pipeline :: "window_step list \<Rightarrow> (pipeline_ref \<times> step_occurrence list) list" where
  "steps_by_pipeline steps = group_loop ws_pipeline [] (\<lambda>ws l. l @ [ws_step ws]) steps"

definition flaky_count :: "quarantines \<Rightarrow> pipeline_ref \<times> step_occurrence list \<Rightarrow> int \<times> int \<Rightarrow> int \<times> int" where
  "flaky_count active e c =
     (let ss = with_quarantines (aggregate_steps (snd e)) (fst e) active
      in (fst c + int (length ss), snd c + int (length (filter counts_as_flaky ss))))"

definition flaky_step_ratio :: "orders \<Rightarrow> window_step list \<Rightarrow> quarantines \<Rightarrow> float64" where
  "flaky_step_ratio os steps active =
     (case fold (flaky_count active) (or_flaky os (steps_by_pipeline steps)) (0, 0) of
        (steps_seen, flaky) \<Rightarrow> rate flaky steps_seen)"

definition flaky_matrix_runs :: nat where
  "flaky_matrix_runs = 40"

definition flaky_step_entry :: "pipeline_ref \<Rightarrow> string \<Rightarrow> step_occurrence list \<Rightarrow> flaky_step option" where
  "flaky_step_entry p name occs0 =
     (let occs = sort_func (\<lambda>a b. started_at_compare (so_run_started a) (so_run_started b)) occs0;
          passed = int (length (filter (\<lambda>x. so_conclusion x = ''success'') occs));
          failed = int (length (filter (\<lambda>x. so_conclusion x = ''failure'') occs));
          recent = (if flaky_matrix_runs < length occs then drop (length occs - flaky_matrix_runs) occs else occs)
      in if passed = 0 \<or> failed = 0 then None
         else Some \<lparr> fs_pipeline = p, fs_name = name, fs_rate = rate failed (int (length occs)),
                     fs_runs = int (length occs),
                     fs_outcomes = map (\<lambda>x. outcome_of (so_status x) (so_conclusion x)) recent,
                     fs_quarantine = None \<rparr>)"

definition by_flake_rate :: "flaky_step \<Rightarrow> flaky_step \<Rightarrow> int" where
  "by_flake_rate a b =
     cmp_or [cmp_compare (fs_rate b) (fs_rate a), cmp_compare (fs_runs b) (fs_runs a),
             cmp_compare (pr_repo (fs_pipeline a)) (pr_repo (fs_pipeline b)),
             cmp_compare (pr_name (fs_pipeline a)) (pr_name (fs_pipeline b)),
             cmp_compare (fs_name a) (fs_name b)]"

definition completed_by_step :: "window_step list \<Rightarrow> (flaky_key \<times> step_occurrence list) list" where
  "completed_by_step steps =
     group_loop (\<lambda>ws. (ws_pipeline ws, ws_name ws)) [] (\<lambda>ws l. l @ [ws_step ws])
       (filter (\<lambda>ws. so_status (ws_step ws) = ''completed'') steps)"

definition marked_entry :: "quarantines \<Rightarrow> flaky_key \<times> step_occurrence list \<Rightarrow> flaky_step option" where
  "marked_entry active e =
     (case e of ((p, name), occs) \<Rightarrow>
       (case flaky_step_entry p name occs of
          None \<Rightarrow> None
        | Some x \<Rightarrow>
            (case map_of active \<lparr> qk_pipeline = p, qk_step = name \<rparr> of
               Some q \<Rightarrow> Some (x\<lparr>fs_quarantine := Some q\<rparr>) | None \<Rightarrow> Some x)))"

definition flaky_steps :: "orders \<Rightarrow> window_step list \<Rightarrow> quarantines \<Rightarrow> flaky_step list" where
  "flaky_steps os steps active =
     sort_func by_flake_rate (List.map_filter (marked_entry active) (or_matrix os (completed_by_step steps)))"

subsection \<open>The overview\<close>

definition split_at_boundary :: "gotime \<Rightarrow> window_run list \<Rightarrow> window_run list \<times> window_run list" where
  "split_at_boundary boundary runs =
     (filter (\<lambda>w. case rr_started (wr_run w) of None \<Rightarrow> False | Some t \<Rightarrow> boundary \<le> t) runs,
      filter (\<lambda>w. case rr_started (wr_run w) of None \<Rightarrow> False | Some t \<Rightarrow> t < boundary) runs)"

definition insights_of ::
  "orders \<Rightarrow> (string \<Rightarrow> string list) \<Rightarrow> insight_window \<Rightarrow> window_run list \<Rightarrow> window_run list
    \<Rightarrow> window_step list \<Rightarrow> quarantines \<Rightarrow> failure_insights" where
  "insights_of os U window current prior steps active =
     (let (current_rate, current_failed) = pass_rate current;
          (prior_rate, _) = pass_rate prior
      in \<lparr> fi_window = window, fi_total = int (length current), fi_failed = current_failed,
           fi_pass_rate = current_rate,
           fi_pass_delta =
             (case (current_rate, prior_rate) of
                (Some c, Some p) \<Rightarrow> Some (fl64 (fl64 (c - p) * 100)) | _ \<Rightarrow> None),
           fi_mttr = mean_time_to_recovery os current,
           fi_top = top_failing_pipelines os current,
           fi_flaky_ratio = flaky_step_ratio os steps active,
           fi_stages = stage_distribution os steps,
           fi_categories = category_breakdown os U steps,
           fi_groups = failure_groups os U steps \<rparr>)"

end
