(* ===== verification/MetricsService.thy ===== *)
theory MetricsService
  imports Insights
begin

text \<open>
  The operations of \<open>metrics.Service\<close> over the store port. The Go interface \<open>Store\<close> is
  the record \<open>mstore\<close> of its methods; the locale \<open>metrics_store\<close> states what the service
  relies on, and what follows for the service is proved inside it once.
\<close>

subsection \<open>The run list\<close>

datatype run_status = RunStatusAll | RunStatusFailed | RunStatusRunning | RunStatusSuccess

definition parse_run_status :: "string \<Rightarrow> goerr + run_status" where
  "parse_run_status raw =
     (if raw = [] then Inr RunStatusAll
      else if raw = ''all'' then Inr RunStatusAll
      else if raw = ''failed'' then Inr RunStatusFailed
      else if raw = ''running'' then Inr RunStatusRunning
      else if raw = ''success'' then Inr RunStatusSuccess
      else Inl (Detail (Sentinel ErrInvalidRunStatus) raw))"

record run_list_filter =
  rf_repo :: string
  rf_forge :: string
  rf_branch :: string
  rf_status :: run_status
  rf_limit :: int
  rf_offset :: int

record run_entry =
  re_id :: string
  re_pipeline :: pipeline_ref
  re_forge :: string
  re_status :: string
  re_conclusion :: string
  re_started :: "gotime option"
  re_completed :: "gotime option"
  re_branch :: string
  re_sha :: string
  re_message :: string
  re_actor :: string
  re_url :: string
  re_steps :: "run_step list"

definition entry_duration_seconds :: "run_entry \<Rightarrow> float64 option" where
  "entry_duration_seconds e = duration_seconds (re_started e) (re_completed e)"

subsection \<open>The store port\<close>

record mstore =
  ms_list_pipelines :: "pipeline_filter \<Rightarrow> (pipeline_ref list \<times> bool) io"
  ms_pipeline_runs :: "pipeline_ref \<Rightarrow> window \<Rightarrow> run_record list io"
  ms_pipeline_steps :: "pipeline_ref \<Rightarrow> window \<Rightarrow> step_occurrence list io"
  ms_repo_usage :: "string \<Rightarrow> window \<Rightarrow> usage_record list io"
  ms_window_runs :: "run_window_filter \<Rightarrow> window_run list io"
  ms_window_steps :: "run_window_filter \<Rightarrow> window_step list io"
  ms_window_branches :: "run_window_filter \<Rightarrow> branch_count list io"
  ms_list_runs :: "run_list_filter \<Rightarrow> (run_entry list \<times> bool) io"
  ms_run_steps :: "string \<Rightarrow> step_occurrence list io"
  ms_active :: "gotime \<Rightarrow> quarantines io"
  ms_quarantine :: "quarantine_key \<Rightarrow> string \<Rightarrow> gotime \<Rightarrow> quarantine io"
  ms_unquarantine :: "quarantine_key \<Rightarrow> unit io"

subsection \<open>Operations\<close>

definition active_quarantines :: "mstore \<Rightarrow> gotime \<Rightarrow> quarantines io" where
  "active_quarantines st now = wrapE ''load quarantines'' (ms_active st now)"

definition summarize_from_runs :: "mstore \<Rightarrow> pipeline_ref \<Rightarrow> window \<Rightarrow> run_record list \<Rightarrow> pipeline io" where
  "summarize_from_runs st ref w runs =
     bindE (opt_panicE (split_window runs w)) (\<lambda>(current, prior).
     bindE (wrapE (''load steps for '' @ pr_name ref) (ms_pipeline_steps st ref w)) (\<lambda>occs.
     bindE nowE (\<lambda>now.
     bindE (active_quarantines st now) (\<lambda>active.
       let (status, signals) =
             compute_health current prior (any_flaky (with_quarantines (aggregate_steps occs) ref active))
       in retE \<lparr> pl_id = pipeline_id ref, pl_repo = pr_repo ref, pl_name = pr_name ref,
                 pl_health = status, pl_signals = signals, pl_last_run = last_run_at runs \<rparr>))))"

definition summarize :: "mstore \<Rightarrow> pipeline_ref \<Rightarrow> window \<Rightarrow> pipeline io" where
  "summarize st ref w =
     bindE (wrapE (''load runs for '' @ pr_name ref) (ms_pipeline_runs st ref (doubled w))) (\<lambda>runs.
       summarize_from_runs st ref w runs)"

definition list_across_pipelines :: "mstore \<Rightarrow> window \<Rightarrow> pipeline_filter \<Rightarrow> (pipeline list \<times> bool) io" where
  "list_across_pipelines st w flt =
     bindE (wrapE ''list pipelines'' (ms_list_pipelines st (flt\<lparr>pf_limit := 0, pf_offset := 0\<rparr>))) (\<lambda>(refs, _).
     bindE (mapE (\<lambda>ref. summarize st ref w) refs) (\<lambda>ps0.
       let ps = filter (\<lambda>p. case pf_health flt of None \<Rightarrow> True | Some h \<Rightarrow> pl_health p = h) ps0;
           ps = (if pf_sort flt = SortByLastRun
                 then sort_func (\<lambda>a b. compare_last_run_desc (pl_last_run a) (pl_last_run b)) ps else ps)
       in opt_panicE (paginate ps (pf_limit flt) (pf_offset flt))))"

definition list_pipelines :: "mstore \<Rightarrow> window \<Rightarrow> pipeline_filter \<Rightarrow> (pipeline list \<times> bool) io" where
  "list_pipelines st w flt =
     (if pf_health flt \<noteq> None \<or> pf_sort flt = SortByLastRun then list_across_pipelines st w flt
      else bindE (wrapE ''list pipelines'' (ms_list_pipelines st flt)) (\<lambda>(refs, more).
           bindE (mapE (\<lambda>ref. summarize st ref w) refs) (\<lambda>ps. retE (ps, more))))"

definition get_pipeline :: "mstore \<Rightarrow> string \<Rightarrow> window \<Rightarrow> pipeline_detail io" where
  "get_pipeline st i w =
     bindE (liftE (parse_pipeline_id i)) (\<lambda>ref.
     bindE (wrapE ''load pipeline runs'' (ms_pipeline_runs st ref (doubled w))) (\<lambda>runs.
       if runs = [] then throwE (Sentinel ErrPipelineNotFound)
       else bindE (summarize_from_runs st ref w runs) (\<lambda>p.
            bindE (opt_panicE (split_window runs w)) (\<lambda>(current, _).
              retE \<lparr> pd_pipeline = p, pd_duration = duration_trend (rev current),
                     pd_failure = failure_rate_trend (rev current) \<rparr>))))"

definition get_pipeline_steps :: "mstore \<Rightarrow> string \<Rightarrow> window \<Rightarrow> step list io" where
  "get_pipeline_steps st i w =
     bindE (liftE (parse_pipeline_id i)) (\<lambda>ref.
     bindE (wrapE ''load pipeline steps'' (ms_pipeline_steps st ref w)) (\<lambda>occs.
     bindE nowE (\<lambda>now.
     bindE (active_quarantines st now) (\<lambda>active.
       retE (with_quarantines (aggregate_steps occs) ref active)))))"

definition list_flaky_runs :: "mstore \<Rightarrow> string \<Rightarrow> string \<Rightarrow> window \<Rightarrow> flaky_run list io" where
  "list_flaky_runs st i step_name w =
     bindE (liftE (parse_pipeline_id i)) (\<lambda>ref.
     bindE (wrapE ''load pipeline steps'' (ms_pipeline_steps st ref w)) (\<lambda>occs.
       retE (sort_func (\<lambda>a b. compare_started_desc (fr_started a) (fr_started b))
         (map (\<lambda>x. \<lparr> fr_run = so_run x, fr_started = so_run_started x, fr_url = so_job_url x \<rparr>)
           (filter (\<lambda>x. so_name x = step_name \<and> so_conclusion x = ''failure'') occs)))))"

definition get_run_steps :: "mstore \<Rightarrow> string \<Rightarrow> run_detail io" where
  "get_run_steps st run_id =
     bindE (wrapE ''load run steps'' (ms_run_steps st run_id)) (\<lambda>occs.
       case occs of
         [] \<Rightarrow> throwE (Sentinel ErrMetricsRunNotFound)
       | first # _ \<Rightarrow>
           retE \<lparr> rd_run = run_id, rd_started = so_run_started first,
                  rd_steps = map (\<lambda>x. \<lparr> rs_job = so_job x, rs_name = so_name x, rs_status = so_status x,
                    rs_conclusion = so_conclusion x, rs_url = so_job_url x \<rparr>) occs \<rparr>)"

record steps_group =
  gr_id :: string
  gr_name :: string
  gr_repo :: string
  gr_steps :: "step list"

text \<open>The cut of \<open>ListUnhealthySteps\<close>, which clamps the offset only from above.\<close>

definition cut_groups :: "'a list \<Rightarrow> int \<Rightarrow> int \<Rightarrow> ('a list \<times> bool) option" where
  "cut_groups groups limit offset =
     (if limit \<le> 0 then Some (groups, False)
      else let len = int (length groups); start = min offset len; stop = min (wrap64 (start + limit)) len
           in map_option (\<lambda>p. (p, wrap64 (start + limit) < len)) (go_slice groups start stop))"

definition list_unhealthy_steps :: "mstore \<Rightarrow> window \<Rightarrow> int \<Rightarrow> int \<Rightarrow> (steps_group list \<times> bool) io" where
  "list_unhealthy_steps st w limit offset =
     bindE (wrapE ''list pipelines'' (ms_list_pipelines st all_pipelines)) (\<lambda>(refs, _).
     bindE nowE (\<lambda>now.
     bindE (active_quarantines st now) (\<lambda>active.
     bindE (mapE (\<lambda>ref.
         bindE (wrapE (''load steps for '' @ pr_name ref) (ms_pipeline_steps st ref w)) (\<lambda>occs.
           retE \<lparr> gr_id = pipeline_id ref, gr_name = pr_name ref, gr_repo = pr_repo ref,
                  gr_steps = unhealthy_of (with_quarantines (aggregate_steps occs) ref active) \<rparr>)) refs)
       (\<lambda>gs. opt_panicE (cut_groups (filter (\<lambda>g. gr_steps g \<noteq> []) gs) limit offset)))))"

definition get_repo_usage :: "mstore \<Rightarrow> string \<Rightarrow> window \<Rightarrow> usage_entry list io" where
  "get_repo_usage st repo w =
     bindE (wrapE ''load repo usage'' (ms_repo_usage st repo w)) (\<lambda>records.
       retE (sort_func (\<lambda>a b. cmp_compare (ue_minutes b) (ue_minutes a))
         (map (\<lambda>e. \<lparr> ue_workflow = fst e, ue_minutes = fl64 (snd e / 60) \<rparr>)
           (group_loop ur_pipeline 0 (\<lambda>r t. fl64 (t + ur_secs r)) records))))"

definition window_filter :: "insight_filter \<Rightarrow> gotime \<Rightarrow> gotime \<Rightarrow> run_window_filter" where
  "window_filter flt since until =
     \<lparr> wf_repo = if_repo flt, wf_forge = if_forge flt, wf_branch = if_branch flt,
       wf_since = since, wf_until = until \<rparr>"

definition window_steps :: "mstore \<Rightarrow> insight_filter \<Rightarrow> gotime \<Rightarrow> gotime \<Rightarrow> window_step list io" where
  "window_steps st flt since until =
     wrapE ''list window steps'' (ms_window_steps st (window_filter flt since until))"

definition get_failure_insights ::
  "mstore \<Rightarrow> orders \<Rightarrow> (string \<Rightarrow> string list) \<Rightarrow> gotime \<Rightarrow> insight_window \<Rightarrow> insight_filter \<Rightarrow> failure_insights io" where
  "get_failure_insights st os U now w flt =
     (let boundary = now - iw_duration w in
      bindE (wrapE ''list window runs'' (ms_window_runs st (window_filter flt (boundary - iw_duration w) now))) (\<lambda>runs.
        let (current, prior) = split_at_boundary boundary runs in
        bindE (window_steps st flt boundary now) (\<lambda>steps.
        bindE (active_quarantines st now) (\<lambda>active.
          retE (insights_of os U w current prior steps active)))))"

definition list_flaky_steps ::
  "mstore \<Rightarrow> orders \<Rightarrow> gotime \<Rightarrow> insight_window \<Rightarrow> insight_filter \<Rightarrow> int \<Rightarrow> int \<Rightarrow> (flaky_step list \<times> bool) io" where
  "list_flaky_steps st os now w flt limit offset =
     bindE (window_steps st flt (now - iw_duration w) now) (\<lambda>steps.
     bindE (active_quarantines st now) (\<lambda>active.
       opt_panicE (paginate (flaky_steps os steps active) limit offset)))"

definition list_branches :: "mstore \<Rightarrow> gotime \<Rightarrow> insight_window \<Rightarrow> insight_filter \<Rightarrow> branch_count list io" where
  "list_branches st now w flt =
     wrapE ''list window branches''
       (ms_window_branches st ((window_filter flt (now - iw_duration w) now)\<lparr>wf_branch := []\<rparr>))"

definition list_runs :: "mstore \<Rightarrow> run_list_filter \<Rightarrow> (run_entry list \<times> bool) io" where
  "list_runs st flt = wrapE ''list runs'' (ms_list_runs st flt)"

definition known_pipeline :: "mstore \<Rightarrow> string \<Rightarrow> pipeline_ref io" where
  "known_pipeline st i =
     bindE (liftE (parse_pipeline_id i)) (\<lambda>ref.
     bindE (wrapE ''load pipeline runs'' (ms_pipeline_runs st ref (Window 1))) (\<lambda>runs.
       if runs = [] then throwE (Sentinel ErrPipelineNotFound) else retE ref))"

definition quarantine_step :: "mstore \<Rightarrow> string \<Rightarrow> string \<Rightarrow> string \<Rightarrow> gotime \<Rightarrow> quarantine io" where
  "quarantine_step st i step_name note now =
     (if max_quarantine_note < rune_count note then throwE (Sentinel ErrQuarantineNoteTooLong)
      else bindE (known_pipeline st i) (\<lambda>ref.
           wrapE ''quarantine step'' (ms_quarantine st \<lparr> qk_pipeline = ref, qk_step = step_name \<rparr> note now)))"

definition unquarantine_step :: "mstore \<Rightarrow> string \<Rightarrow> string \<Rightarrow> unit io" where
  "unquarantine_step st i step_name =
     bindE (known_pipeline st i) (\<lambda>ref.
       wrapE ''un-quarantine step'' (ms_unquarantine st \<lparr> qk_pipeline = ref, qk_step = step_name \<rparr>))"

subsection \<open>What the service relies on\<close>

text \<open>
  The contract of the store: the queries change nothing, a run query stays within its
  window, the integrity \<open>inv\<close> of the database survives every operation, and the marks
  (\<open>marks\<close>, the abstraction of the quarantine table) behave like a map that
  \<open>QuarantineStep\<close> inserts into, \<open>UnquarantineStep\<close> deletes from and
  \<open>ActiveQuarantines\<close> reads, hiding expired marks.
\<close>

locale metrics_store =
  fixes st :: mstore
    and inv :: "db \<Rightarrow> bool"
    and marks :: "db \<Rightarrow> quarantine_key \<Rightarrow> quarantine option"
  assumes reads_list_pipelines: "keeps P (ms_list_pipelines st flt)"
    and reads_pipeline_runs: "keeps P (ms_pipeline_runs st ref win)"
    and reads_pipeline_steps: "keeps P (ms_pipeline_steps st ref win)"
    and reads_repo_usage: "keeps P (ms_repo_usage st repo win)"
    and reads_window_runs: "keeps P (ms_window_runs st wflt)"
    and reads_window_steps: "keeps P (ms_window_steps st wflt)"
    and reads_window_branches: "keeps P (ms_window_branches st wflt)"
    and reads_list_runs: "keeps P (ms_list_runs st rflt)"
    and reads_run_steps: "keeps P (ms_run_steps st i)"
    and reads_active: "keeps P (ms_active st now)"
    and runs_in_window:
      "ms_pipeline_runs st ref win w = (Inr rs, w') \<Longrightarrow> 0 < run_count win \<Longrightarrow>
       int (length rs) \<le> run_count win"
    and active_is:
      "inv (w_db w) \<Longrightarrow> ms_active st now w = (Inr act, w') \<Longrightarrow>
       map_of act k = (case marks (w_db w) k of
          None \<Rightarrow> None | Some q \<Rightarrow> if now < qn_expires q then Some q else None)"
    and quarantine_is:
      "inv (w_db w) \<Longrightarrow> ms_quarantine st k note now w = (Inr q, w') \<Longrightarrow>
       q = \<lparr> qn_note = note, qn_at = now, qn_expires = now + quarantine_duration \<rparr> \<and>
       marks (w_db w') = (marks (w_db w))(k := Some q)"
    and unquarantine_is:
      "inv (w_db w) \<Longrightarrow> ms_unquarantine st k w = (Inr u, w') \<Longrightarrow>
       marks (w_db w') = (marks (w_db w))(k := None)"
    and failed_write:
      "ms_quarantine st k note now w = (Inl e, w') \<Longrightarrow> w_db w' = w_db w"
      "ms_unquarantine st k w = (Inl e, w') \<Longrightarrow> w_db w' = w_db w"
    and keeps_inv_quarantine: "keeps inv (ms_quarantine st k note now)"
    and keeps_inv_unquarantine: "keeps inv (ms_unquarantine st k)"
begin

lemmas reads = reads_list_pipelines reads_pipeline_runs reads_pipeline_steps reads_repo_usage
  reads_window_runs reads_window_steps reads_window_branches reads_list_runs reads_run_steps reads_active

lemma keeps_active_quarantines: "keeps P (active_quarantines st now)"
  unfolding active_quarantines_def by (intro keeps_intros reads)

lemma keeps_summarize_from_runs: "keeps P (summarize_from_runs st ref win runs)"
  unfolding summarize_from_runs_def Let_def
  by (auto intro!: keeps_intros reads keeps_active_quarantines split: prod.split)

lemma keeps_summarize: "keeps P (summarize st ref win)"
  unfolding summarize_def by (intro keeps_intros reads keeps_summarize_from_runs)

lemma keeps_list_pipelines: "keeps P (list_pipelines st win flt)"
  unfolding list_pipelines_def list_across_pipelines_def Let_def
  by (auto intro!: keeps_intros reads keeps_summarize split: prod.split)

lemma keeps_get_pipeline: "keeps P (get_pipeline st i win)"
  unfolding get_pipeline_def
  by (auto intro!: keeps_intros reads keeps_summarize_from_runs split: prod.split)

lemma keeps_get_pipeline_steps: "keeps P (get_pipeline_steps st i win)"
  unfolding get_pipeline_steps_def by (intro keeps_intros reads keeps_active_quarantines)

lemma keeps_list_flaky_runs: "keeps P (list_flaky_runs st i name win)"
  unfolding list_flaky_runs_def by (intro keeps_intros reads)

lemma keeps_get_run_steps: "keeps P (get_run_steps st i)"
  unfolding get_run_steps_def by (auto intro!: keeps_intros reads split: list.split)

lemma keeps_list_unhealthy_steps: "keeps P (list_unhealthy_steps st win limit offset)"
  unfolding list_unhealthy_steps_def
  by (auto intro!: keeps_intros reads keeps_active_quarantines split: prod.split)

lemma keeps_get_repo_usage: "keeps P (get_repo_usage st repo win)"
  unfolding get_repo_usage_def by (intro keeps_intros reads)

lemma keeps_get_failure_insights: "keeps P (get_failure_insights st os U now iw flt)"
  unfolding get_failure_insights_def window_steps_def Let_def
  by (auto intro!: keeps_intros reads keeps_active_quarantines split: prod.split)

lemma keeps_list_flaky_steps: "keeps P (list_flaky_steps st os now iw flt limit offset)"
  unfolding list_flaky_steps_def window_steps_def
  by (intro keeps_intros reads keeps_active_quarantines)

lemma keeps_list_branches: "keeps P (list_branches st now iw flt)"
  unfolding list_branches_def by (intro keeps_intros reads)

lemma keeps_list_runs: "keeps P (list_runs st rflt)"
  unfolding list_runs_def by (intro keeps_intros reads)

lemma keeps_known_pipeline: "keeps P (known_pipeline st i)"
  unfolding known_pipeline_def by (auto intro!: keeps_intros reads)

lemmas service_reads = keeps_list_pipelines keeps_get_pipeline keeps_get_pipeline_steps
  keeps_list_flaky_runs keeps_get_run_steps keeps_list_unhealthy_steps keeps_get_repo_usage
  keeps_get_failure_insights keeps_list_flaky_steps keeps_list_branches keeps_list_runs

lemma known_pipeline_db: "known_pipeline st i w = (r, w') \<Longrightarrow> w_db w' = w_db w"
  using keeps_all_db [OF keeps_known_pipeline, of i w] by simp

lemma known_pipeline_ref:
  "known_pipeline st i w = (Inr ref, w') \<Longrightarrow> parse_pipeline_id i = Inr ref"
  by (auto simp: known_pipeline_def bindE_eq_Inr liftE_def split: if_splits)

lemma quarantine_step_marks:
  assumes "inv (w_db w)" and "quarantine_step st i name note now w = (Inr q, w')"
  shows "\<exists>ref. parse_pipeline_id i = Inr ref \<and> rune_count note \<le> max_quarantine_note \<and>
     q = \<lparr> qn_note = note, qn_at = now, qn_expires = now + quarantine_duration \<rparr> \<and>
     marks (w_db w') = (marks (w_db w))(\<lparr> qk_pipeline = ref, qk_step = name \<rparr> := Some q)"
proof -
  obtain ref w1 where ref: "known_pipeline st i w = (Inr ref, w1)"
    and q: "ms_quarantine st \<lparr> qk_pipeline = ref, qk_step = name \<rparr> note now w1 = (Inr q, w')"
    and n: "rune_count note \<le> max_quarantine_note"
    using assms(2) by (auto simp: quarantine_step_def bindE_eq_Inr split: if_splits)
  have "inv (w_db w1)" using assms(1) known_pipeline_db [OF ref] by simp
  from quarantine_is [OF this q] show ?thesis
    using n known_pipeline_ref [OF ref] known_pipeline_db [OF ref] by auto
qed

lemma unquarantine_step_marks:
  assumes "inv (w_db w)" and "unquarantine_step st i name w = (Inr u, w')"
  shows "\<exists>ref. parse_pipeline_id i = Inr ref \<and>
     marks (w_db w') = (marks (w_db w))(\<lparr> qk_pipeline = ref, qk_step = name \<rparr> := None)"
proof -
  obtain ref w1 where ref: "known_pipeline st i w = (Inr ref, w1)"
    and u: "ms_unquarantine st \<lparr> qk_pipeline = ref, qk_step = name \<rparr> w1 = (Inr u, w')"
    using assms(2) by (auto simp: unquarantine_step_def bindE_eq_Inr)
  have "inv (w_db w1)" using assms(1) known_pipeline_db [OF ref] by simp
  from unquarantine_is [OF this u] show ?thesis
    using known_pipeline_ref [OF ref] known_pipeline_db [OF ref] by auto
qed

lemma failed_quarantine_step:
  assumes "quarantine_step st i name note now w = (Inl e, w')" shows "w_db w' = w_db w"
proof (cases "known_pipeline st i w")
  case (Pair r w1)
  then show ?thesis
    using assms known_pipeline_db [OF Pair] failed_write(1)
    by (cases r) (auto simp: quarantine_step_def bindE_def wrapE_def split: if_splits sum.splits prod.splits)
qed

lemma shown_mark:
  assumes "inv (w_db w)" and "get_pipeline_steps st i win w = (Inr steps, w')"
    and "parse_pipeline_id i = Inr ref" and "s \<in> set steps"
  shows "\<exists>t. sp_quarantine s =
     (case marks (w_db w) \<lparr> qk_pipeline = ref, qk_step = sp_name s \<rparr> of
        None \<Rightarrow> None | Some q \<Rightarrow> if t < qn_expires q then Some q else None)"
proof -
  obtain occs w1 w2 t act where
    1: "ms_pipeline_steps st ref win w = (Inr occs, w1)" "nowE w1 = (Inr t, w2)" and
    2: "ms_active st t w2 = (Inr act, w')" and
    3: "steps = with_quarantines (aggregate_steps occs) ref act"
    using assms(2,3)
    by (auto simp: get_pipeline_steps_def bindE_eq_Inr liftE_def active_quarantines_def)
  have "w_db w2 = w_db w"
    using keeps_all_db [OF reads_pipeline_steps, of ref win w] 1 by (auto simp: nowE_def)
  then have "map_of act \<lparr> qk_pipeline = ref, qk_step = sp_name s \<rparr> =
      (case marks (w_db w) \<lparr> qk_pipeline = ref, qk_step = sp_name s \<rparr> of
        None \<Rightarrow> None | Some q \<Rightarrow> if t < qn_expires q then Some q else None)"
    using active_is [OF _ 2] assms(1) by simp
  moreover obtain s0 where "s0 \<in> set (aggregate_steps occs)"
    and s: "s = (case map_of act \<lparr> qk_pipeline = ref, qk_step = sp_name s0 \<rparr> of
                 Some q \<Rightarrow> s0\<lparr>sp_quarantine := Some q\<rparr> | None \<Rightarrow> s0)"
    using assms(4) unfolding 3 with_quarantines_def by auto
  moreover have "sp_quarantine s0 = None"
    using calculation(2) by (auto simp: aggregate_steps_def step_of_acc_def split: prod.splits)
  moreover have "sp_name s = sp_name s0" using s by (auto split: option.splits)
  ultimately show ?thesis by (intro exI [of _ t]) (auto split: option.splits)
qed

end

end
