(* ===== verification/MetricsFacts.thy ===== *)
theory MetricsFacts
  imports Metrics
begin

text \<open>
  What the figures of \<open>Metrics\<close> satisfy: identifiers round-trip, windows split without a
  panic, the floating-point thresholds and percentiles agree with exact arithmetic, the
  step aggregation agrees with a declarative reading of the occurrences, and paging
  covers the list.
\<close>

subsection \<open>Comparison functions\<close>

interpretation by_contribution: comparator by_contribution
  unfolding by_contribution_def by (rule comparator_rev_key)

interpretation started_desc: comparator compare_started_desc
  by unfold_locales (auto simp: compare_started_desc_def cmp_compare_def split: option.splits if_splits)

interpretation started_asc: comparator started_at_compare
  by unfold_locales (auto simp: started_at_compare_def cmp_compare_def split: option.splits if_splits)

interpretation last_run_desc: comparator compare_last_run_desc
  by unfold_locales (auto simp: compare_last_run_desc_def cmp_compare_def split: option.splits if_splits)

subsection \<open>Identifiers\<close>

lemma parse_pipeline_id_Inr:
  "parse_pipeline_id i = Inr r \<longleftrightarrow>
     b64_decode i = Some (pr_repo r @ CHR 0x00 # pr_name r) \<and> CHR 0x00 \<notin> set (pr_repo r)"
proof -
  have "parse_pipeline_id i = Inr r \<longleftrightarrow>
      (\<exists>raw. b64_decode i = Some raw \<and> split_n2 (CHR 0x00) raw = [pr_repo r, pr_name r])"
    by (auto simp: parse_pipeline_id_def split: option.splits list.splits)
  then show ?thesis by (auto simp: split_n2_two)
qed

lemma parse_pipeline_id_Inl:
  "parse_pipeline_id i = Inl e \<Longrightarrow> is_err e ErrInvalidPipelineID"
  by (auto simp: parse_pipeline_id_def split: option.splits list.splits)

lemma parse_pipeline_id_Inl_iff:
  "parse_pipeline_id i = Inl e \<longleftrightarrow>
     e = Detail (Sentinel ErrInvalidPipelineID) i \<and>
     \<not> (\<exists>raw. b64_decode i = Some raw \<and> CHR 0x00 \<in> set raw)"
proof -
  have two: "(\<exists>a b. split_n2 (CHR 0x00) raw = [a, b]) \<longleftrightarrow> CHR 0x00 \<in> set raw" for raw
    by (auto simp: split_n2_two) (meson split_list_first)
  show ?thesis
  proof (cases "b64_decode i")
    case (Some raw)
    show ?thesis
    proof (cases "CHR 0x00 \<in> set raw")
      case True
      then obtain a b where "split_n2 (CHR 0x00) raw = [a, b]" using two by blast
      with Some True show ?thesis by (simp add: parse_pipeline_id_def)
    next
      case False
      then have "\<And>a b. split_n2 (CHR 0x00) raw \<noteq> [a, b]" using two by blast
      with Some False show ?thesis by (auto simp: parse_pipeline_id_def split: list.splits)
    qed
  qed (auto simp: parse_pipeline_id_def)
qed

text \<open>
  C9: parsing the identifier of a pipeline gives that pipeline back exactly when its
  repository id has no NUL byte (ids are UUIDs), whatever the workflow name contains. A
  text parses to a pipeline only if it decodes to its repository id, the first NUL and its
  name; any other text is \<open>ErrInvalidPipelineID\<close>.
\<close>

theorem pipeline_id_roundtrip:
  "(parse_pipeline_id (pipeline_id r) = Inr r \<longleftrightarrow> CHR 0x00 \<notin> set (pr_repo r)) \<and>
   (parse_pipeline_id i = Inr r' \<longleftrightarrow>
      b64_decode i = Some (pr_repo r' @ CHR 0x00 # pr_name r') \<and> CHR 0x00 \<notin> set (pr_repo r')) \<and>
   (parse_pipeline_id i = Inl e \<longleftrightarrow>
      e = Detail (Sentinel ErrInvalidPipelineID) i \<and>
      \<not> (\<exists>raw. b64_decode i = Some raw \<and> CHR 0x00 \<in> set raw))"
  by (simp add: parse_pipeline_id_Inr parse_pipeline_id_Inl_iff pipeline_id_def b64_decode_encode)

subsection \<open>Windows\<close>

lemma window_size_pos: "1 \<le> window_size w"
  by (simp add: window_size_def default_window_run_count_def)

text \<open>
  Cutting a run list at a window never panics and gives the newest \<open>n\<close> runs and the
  \<open>n\<close> before them, for every window size: the doubling that wraps for a huge window is
  never reached, because such a window holds the whole list.
\<close>

lemma split_window_spec:
  assumes "int (length runs) < 2 ^ 62"
  shows "split_window runs w =
           Some (take (nat (window_size w)) runs,
                 take (nat (window_size w)) (drop (nat (window_size w)) runs))"
proof (cases "int (length runs) \<le> window_size w")
  case True
  then show ?thesis by (simp add: split_window_def Let_def)
next
  case False
  let ?n = "window_size w"
  have n: "1 \<le> ?n" "?n < int (length runs)" using window_size_pos False by auto
  then have "wrap64 (2 * ?n) = 2 * ?n"
    using assms by (intro wrap64_id) (simp add: in_int64_def min_int64_def max_int64_def)
  moreover have "go_slice runs 0 ?n = Some (take (nat ?n) runs)"
    using n by (simp add: go_slice_Some)
  moreover have "go_slice runs ?n (min (2 * ?n) (int (length runs)))
      = Some (take (nat (min (2 * ?n) (int (length runs)) - ?n)) (drop (nat ?n) runs))"
    using n by (intro go_slice_Some) auto
  moreover have "take (nat (min (2 * ?n) (int (length runs)) - ?n)) (drop (nat ?n) runs)
      = take (nat ?n) (drop (nat ?n) runs)"
    using n by (cases "2 * ?n \<le> int (length runs)") (auto simp: min_def)
  ultimately show ?thesis using False by (simp add: split_window_def Let_def)
qed

subsection \<open>Rates and percentiles\<close>

lemma rate_range: "0 \<le> f \<Longrightarrow> f \<le> t \<Longrightarrow> 0 \<le> rate f t \<and> rate f t \<le> 1"
proof -
  assume f: "0 \<le> f" "f \<le> t"
  have "fl64 (of_int f) \<le> fl64 (of_int t)" using f by (intro fl64_mono) auto
  moreover have "0 \<le> fl64 (of_int f)" "0 \<le> fl64 (of_int t)" using f by (auto intro: fl64_nonneg)
  ultimately have "0 \<le> fl64 (of_int f) / fl64 (of_int t)" "fl64 (of_int f) / fl64 (of_int t) \<le> 1"
    by (auto simp: divide_le_eq)
  then have "0 \<le> fl64 (fl64 (of_int f) / fl64 (of_int t))"
    and "fl64 (fl64 (of_int f) / fl64 (of_int t)) \<le> fl64 1"
    by (auto intro: fl64_nonneg fl64_mono)
  then show ?thesis
    using fl64_of_int [of 1] by (simp add: rate_def)
qed

lemma rate_zero_iff: "0 \<le> f \<Longrightarrow> f \<le> t \<Longrightarrow> t < 2 ^ 52 \<Longrightarrow> rate f t = 0 \<longleftrightarrow> f = 0"
proof -
  assume f: "0 \<le> f" "f \<le> t" and t: "t < 2 ^ 52"
  have ex: "fl64 (of_int f) = of_int f" "fl64 (of_int t) = of_int t"
    using f t by (auto intro: fl64_of_int)
  show ?thesis
  proof (cases "f = 0")
    case False
    then have "1 \<le> (of_int f :: rat)" "0 < (of_int t :: rat)" "(of_int t :: rat) \<le> 4503599627370496"
      using f t of_int_le_iff [of t "4503599627370496", where 'a = rat] by auto
    then have "pow2 (- 52) \<le> of_int f / of_int t" by (simp add: pow2_numerals le_divide_eq)
    then have "pow2 (- 52) \<le> fl64 (of_int f / of_int t)"
      using powi_le_fl_pos [of "- 52"] less_le_trans [OF pow2_pos] by (simp add: fl64_pos)
    then have "0 < fl64 (of_int f / of_int t)" using pow2_pos less_le_trans by blast
    then show ?thesis using False f by (auto simp: rate_def ex)
  qed (simp add: rate_def)
qed

lemma rate_ge_fifth:
  assumes "0 \<le> f" "f \<le> t" "t < 2 ^ 52"
  shows "unhealthy_failure_rate_threshold \<le> rate f t \<longleftrightarrow> t \<noteq> 0 \<and> t \<le> 5 * f"
proof (cases "t = 0")
  case True
  then show ?thesis by (simp add: rate_def unhealthy_failure_rate_threshold_def fl64_fifth)
next
  case False
  have "fl64 (of_int f) = of_int f" "fl64 (of_int t) = of_int t"
    using assms by (auto intro: fl64_of_int)
  then show ?thesis
    using False assms rate_threshold [of t f] by (simp add: rate_def unhealthy_failure_rate_threshold_def)
qed

lemma count_le_nth:
  assumes "sorted xs" and "i < length xs"
  shows "i < length (filter (\<lambda>x. x \<le> xs ! i) xs)" and "length (filter (\<lambda>x. x < xs ! i) xs) \<le> i"
proof -
  have "filter (\<lambda>x. x \<le> xs ! i) (take (Suc i) xs) = take (Suc i) xs"
    using assms by (auto simp: filter_id_conv in_set_conv_nth sorted_iff_nth_mono)
  then have "length (filter (\<lambda>x. x \<le> xs ! i) (take (Suc i) xs @ drop (Suc i) xs)) \<ge> Suc i"
    using assms(2) by (simp only: filter_append length_append) simp
  then show "i < length (filter (\<lambda>x. x \<le> xs ! i) xs)" by simp
  have "filter (\<lambda>x. x < xs ! i) (drop i xs) = []"
    using assms by (auto simp: filter_empty_conv in_set_conv_nth sorted_iff_nth_mono not_less)
  then have "length (filter (\<lambda>x. x < xs ! i) (take i xs @ drop i xs)) \<le> i"
    by (simp only: filter_append length_append) (simp add: le_trans [OF length_filter_le])
  then show "length (filter (\<lambda>x. x < xs ! i) xs) \<le> i" by simp
qed

definition rank90 :: "nat \<Rightarrow> nat" where
  "rank90 n = (9 * n + 9) div 10"

definition rank50 :: "nat \<Rightarrow> nat" where
  "rank50 n = (n + 1) div 2"

lemma ceiling_quotient:
  assumes "0 < (d::int)" and "d * (z - 1) < a" and "a \<le> d * z"
  shows "\<lceil>of_int a / (of_int d :: rat)\<rceil> = z"
proof (rule ceiling_unique)
  have "(of_int (d * (z - 1)) :: rat) < of_int a" "(of_int a :: rat) \<le> of_int (d * z)"
    using assms(2,3) by (simp_all only: of_int_less_iff of_int_le_iff)
  then show "of_int z - 1 < of_int a / (of_int d :: rat)" "of_int a / (of_int d :: rat) \<le> of_int z"
    using assms(1) by (simp_all add: less_divide_eq divide_le_eq mult.commute)
qed

lemma ceilings:
  "\<lceil>9 * of_nat n / (10 :: rat)\<rceil> = int (rank90 n)" "\<lceil>of_nat n / (2 :: rat)\<rceil> = int (rank50 n)"
proof -
  have "10 * (int (rank90 n) - 1) < int (9 * n)" "int (9 * n) \<le> 10 * int (rank90 n)"
    unfolding rank90_def by presburger+
  from ceiling_quotient [OF _ this] show "\<lceil>9 * of_nat n / (10 :: rat)\<rceil> = int (rank90 n)" by simp
  have "2 * (int (rank50 n) - 1) < int n" "int n \<le> 2 * int (rank50 n)"
    unfolding rank50_def by presburger+
  from ceiling_quotient [OF _ this] show "\<lceil>of_nat n / (2 :: rat)\<rceil> = int (rank50 n)" by simp
qed

lemma rank_bounds: "0 < n \<Longrightarrow> 1 \<le> rank90 n \<and> rank90 n \<le> n" "0 < n \<Longrightarrow> 1 \<le> rank50 n \<and> rank50 n \<le> n"
  unfolding rank90_def rank50_def by linarith+

lemma percentile_nth:
  assumes "xs \<noteq> []" and "\<lceil>fl64 (p * fl64 (of_nat (length xs)))\<rceil> = int k" and "1 \<le> k" "k \<le> length xs"
  shows "percentile xs p = xs ! (k - 1)"
proof -
  have "nat (min (max (int k - 1) 0) (int (length xs) - 1)) = k - 1"
    using assms(3,4) by linarith
  then show ?thesis using assms(1,2) by (simp add: percentile_def Let_def)
qed

lemma percentile_rank:
  assumes "xs \<noteq> []" and "int (length xs) < 2 ^ 48"
  shows "percentile xs p90 = xs ! (rank90 (length xs) - 1)"
    and "percentile xs p50 = xs ! (rank50 (length xs) - 1)"
proof -
  let ?n = "int (length xs)"
  have n: "0 < ?n" "0 < length xs" using assms(1) by simp_all
  have e: "fl64 (of_nat (length xs)) = of_int ?n"
    using fl64_of_int [of ?n] assms by simp
  have "\<lceil>fl64 (p90 * of_int ?n)\<rceil> = int (rank90 (length xs))"
    using percentile90_rank [OF n(1) assms(2)] ceilings(1) [of "length xs"] by (simp add: p90_def)
  then show "percentile xs p90 = xs ! (rank90 (length xs) - 1)"
    using assms(1) rank_bounds(1) [OF n(2)] e by (intro percentile_nth) simp_all
  have half: "p50 = 1/2" unfolding p50_def by code_simp
  have "\<lceil>fl64 (p50 * of_int ?n)\<rceil> = int (rank50 (length xs))"
    unfolding half using percentile50_rank [OF n(1) assms(2)] ceilings(2) [of "length xs"] by simp
  then show "percentile xs p50 = xs ! (rank50 (length xs) - 1)"
    using assms(1) rank_bounds(2) [OF n(2)] e by (intro percentile_nth) simp_all
qed

lemma percentile_sorted_rank:
  assumes "ds \<noteq> []" and "int (length ds) < 2 ^ 48"
  shows "percentile (sort ds) p90 = sort ds ! (rank90 (length ds) - 1)"
    and "percentile (sort ds) p50 = sort ds ! (rank50 (length ds) - 1)"
  using percentile_rank [of "sort ds"] assms by (metis length_sort list.size(3) length_0_conv)+

lemma rank90_exact: "0 < n \<Longrightarrow> 9 * n \<le> 10 * Suc (rank90 n - 1) \<and> 10 * (rank90 n - 1) < 9 * n"
proof -
  assume n: "0 < n"
  have "10 * rank90 n \<le> 9 * n + 9" "9 * n + 9 < 10 * rank90 n + 10"
    unfolding rank90_def by linarith+
  then show ?thesis using rank_bounds(1) [OF n] by (cases "rank90 n") auto
qed

text \<open>
  C14: the p90 the code computes with floating-point rank arithmetic is the nearest-rank
  percentile: a sample such that at least nine tenths of the samples are at or below it,
  and it is the least such sample.
\<close>

theorem percentile_nearest_rank:
  assumes "ds \<noteq> []" and "int (length ds) < 2 ^ 48"
  shows "percentile (sort ds) p90 \<in> set ds \<and>
         9 * length ds \<le> 10 * length (filter (\<lambda>x. x \<le> percentile (sort ds) p90) ds) \<and>
         10 * length (filter (\<lambda>x. x < percentile (sort ds) p90) ds) < 9 * length ds"
proof -
  let ?n = "length ds" and ?i = "rank90 (length ds) - 1"
  have v: "percentile (sort ds) p90 = sort ds ! ?i"
    using assms by (rule percentile_sorted_rank)
  have i: "?i < length (sort ds)" using rank_bounds(1) [of ?n] assms(1) by fastforce
  note c = count_le_nth [OF sorted_sort i, unfolded filter_sort length_sort]
  have "9 * ?n \<le> 10 * Suc ?i" "10 * ?i < 9 * ?n"
    using rank90_exact [of ?n] assms(1) by simp_all
  then show ?thesis
    unfolding v using c nth_mem [OF i] by (auto simp del: sorted_sort)
qed

theorem percentile_nearest_rank_witness:
  "percentile (sort [3, 1, 2]) p90 \<in> set [3, 1, 2 :: float64] \<and>
   9 * length [3, 1, 2 :: float64] \<le> 10 * length (filter (\<lambda>x. x \<le> percentile (sort [3, 1, 2]) p90) [3, 1, 2]) \<and>
   10 * length (filter (\<lambda>x. x < percentile (sort [3, 1, 2]) p90) [3, 1, 2]) < 9 * length [3, 1, 2 :: float64]"
  by (rule percentile_nearest_rank) simp_all

subsection \<open>Health\<close>

lemma failure_rate_signal:
  assumes "int (length runs) < 2 ^ 52"
  shows "unhealthy_failure_rate_threshold \<le> overall_failure_rate runs \<longleftrightarrow>
     (\<exists>r \<in> set runs. rr_status r = ''completed'') \<and>
     length (filter (\<lambda>r. rr_status r = ''completed'') runs)
       \<le> 5 * length (filter (\<lambda>r. rr_status r = ''completed'' \<and> rr_conclusion r = ''failure'') runs)"
proof -
  let ?done = "filter (\<lambda>r. rr_status r = ''completed'') runs"
  let ?failed = "filter (\<lambda>r. rr_conclusion r = ''failure'') ?done"
  have "length ?failed \<le> length ?done" "length ?done \<le> length runs" by (rule length_filter_le)+
  then have "0 \<le> int (length ?failed)" "int (length ?failed) \<le> int (length ?done)" "int (length ?done) < 2 ^ 52"
    using assms by linarith+
  then have "unhealthy_failure_rate_threshold \<le> rate (int (length ?failed)) (int (length ?done)) \<longleftrightarrow>
      int (length ?done) \<noteq> 0 \<and> int (length ?done) \<le> 5 * int (length ?failed)"
    by (rule rate_ge_fifth)
  then show ?thesis
    by (simp add: overall_failure_rate_def Let_def filter_empty_conv conj_commute) linarith
qed

text \<open>
  C15: the health verdict. The failure-rate signal is set exactly when at least one run
  completed and at least a fifth of the completed runs concluded in failure, in exact
  arithmetic although the code compares rounded quotients; the regression and flaky
  signals are set exactly by their conditions; a pipeline is healthy exactly without signals.
\<close>

theorem compute_health_spec:
  assumes "int (length current) < 2 ^ 52"
  shows "case compute_health current prior flaky of (status, signals) \<Rightarrow>
      (SignalFailureRate \<in> set signals \<longleftrightarrow>
         (\<exists>r \<in> set current. rr_status r = ''completed'') \<and>
         length (filter (\<lambda>r. rr_status r = ''completed'') current)
           \<le> 5 * length (filter (\<lambda>r. rr_status r = ''completed'' \<and> rr_conclusion r = ''failure'') current)) \<and>
      (SignalDurationRegression \<in> set signals \<longleftrightarrow>
         runs_p90 current \<noteq> 0 \<and> runs_p90 prior \<noteq> 0 \<and>
         fl64 (runs_p90 prior * duration_regression_factor) \<le> runs_p90 current) \<and>
      (SignalFlakyStep \<in> set signals \<longleftrightarrow> flaky) \<and>
      (status = HealthHealthy \<longleftrightarrow> signals = []) \<and> distinct signals"
  using failure_rate_signal [OF assms]
  by (simp add: compute_health_def regressed_def Let_def)

theorem compute_health_spec_witness:
  "case compute_health [] [] True of (status, signals) \<Rightarrow>
      (SignalFailureRate \<in> set signals \<longleftrightarrow> False) \<and> (SignalFlakyStep \<in> set signals \<longleftrightarrow> True) \<and>
      (status = HealthHealthy \<longleftrightarrow> signals = [])"
  using compute_health_spec [of "[]" "[]" True] by (simp split: prod.splits)

subsection \<open>Trends\<close>

lemma concat_bucket_runs: "concat (bucket_runs runs) = runs"
  by (induction runs rule: bucket_runs.induct) (subst bucket_runs.simps, simp)

lemma bucket_runs_sizes:
  "b \<in> set (bucket_runs runs) \<Longrightarrow> b \<noteq> [] \<and> length b \<le> trend_bucket_size"
proof (induction runs rule: bucket_runs.induct)
  case (1 runs)
  show ?case
  proof (cases "runs = []")
    case True
    then show ?thesis using "1.prems" by (simp add: bucket_runs.simps)
  next
    case False
    then have "b = take trend_bucket_size runs \<or> b \<in> set (bucket_runs (drop trend_bucket_size runs))"
      using "1.prems" by (subst (asm) bucket_runs.simps) simp
    then show ?thesis using False "1.IH" by (auto simp: trend_bucket_size_def)
  qed
qed

lemma bucket_runs_full: "b \<in> set (butlast (bucket_runs runs)) \<Longrightarrow> length b = trend_bucket_size"
proof (induction runs rule: bucket_runs.induct)
  case (1 runs)
  show ?case
  proof (cases "drop trend_bucket_size runs = []")
    case True
    then have "butlast (bucket_runs runs) = []"
      by (subst bucket_runs.simps) (simp add: bucket_runs.simps [of "[]"])
    then show ?thesis using "1.prems" by simp
  next
    case False
    then have "bucket_runs (drop trend_bucket_size runs) \<noteq> []" "runs \<noteq> []"
      by (auto simp: bucket_runs.simps [of "drop trend_bucket_size runs"])
    then have "b = take trend_bucket_size runs \<or> b \<in> set (butlast (bucket_runs (drop trend_bucket_size runs)))"
      using "1.prems" by (subst (asm) bucket_runs.simps) simp
    then show ?thesis using \<open>runs \<noteq> []\<close> "1.IH" False by auto
  qed
qed

lemma fold_duration_bucket:
  "fold duration_bucket bs t =
     (let bs' = filter (\<lambda>b. durations b \<noteq> []) bs in
      t\<lparr> tr_timestamps := tr_timestamps t @ map last_started bs',
         tr_p50 := tr_p50 t @ map (\<lambda>b. percentile (sort (durations b)) p50) bs',
         tr_p90 := tr_p90 t @ map (\<lambda>b. percentile (sort (durations b)) p90) bs' \<rparr>)"
  by (induction bs arbitrary: t) (simp_all add: duration_bucket_def Let_def)

lemma percentile_mono_rank:
  assumes "sorted xs" and "0 \<le> p" and "p \<le> q" shows "percentile xs p \<le> percentile xs q"
proof (cases "xs = []")
  case False
  have "p * fl64 (of_nat (length xs)) \<le> q * fl64 (of_nat (length xs))" "0 \<le> p * fl64 (of_nat (length xs))"
    using assms(2,3) fl64_nonneg [of "of_nat (length xs)"] by (auto intro: mult_right_mono)
  then have "\<lceil>fl64 (p * fl64 (of_nat (length xs)))\<rceil> \<le> \<lceil>fl64 (q * fl64 (of_nat (length xs)))\<rceil>"
    by (intro ceiling_mono fl64_mono)
  moreover have "nat (min x (int (length xs) - 1)) < length xs" for x
    using False by (cases xs) auto
  ultimately show ?thesis
    using False assms(1) unfolding percentile_def Let_def
    by (auto intro!: sorted_nth_mono nat_mono min.mono max.mono)
qed (simp add: percentile_def)

lemma p50_le_p90: "0 \<le> p50 \<and> p50 \<le> p90"
  unfolding p50_def p90_def by (simp add: fl64_mono fl64_nonneg)

text \<open>
  The duration trend: the runs are cut into consecutive buckets of five, in order and
  without loss, only the last one shorter; each bucket with a measured duration gives one
  point with its last known start, and every p50 is at most its p90.
\<close>

lemma duration_trend_is:
  "concat (bucket_runs runs) = runs \<and>
   list_all (\<lambda>b. length b = 5) (butlast (bucket_runs runs)) \<and>
   list_all (\<lambda>b. b \<noteq> [] \<and> length b \<le> 5) (bucket_runs runs) \<and>
   (let bs = filter (\<lambda>b. durations b \<noteq> []) (bucket_runs runs) in
      duration_trend runs =
        \<lparr> tr_timestamps = map last_started bs,
          tr_p50 = map (\<lambda>b. percentile (sort (durations b)) p50) bs,
          tr_p90 = map (\<lambda>b. percentile (sort (durations b)) p90) bs,
          tr_rate = [] \<rparr>) \<and>
   list_all2 (\<le>) (tr_p50 (duration_trend runs)) (tr_p90 (duration_trend runs))"
proof -
  have "list_all2 (\<le>) (map (\<lambda>b. percentile (sort (durations b)) p50) bs)
      (map (\<lambda>b. percentile (sort (durations b)) p90) bs)" for bs
    using p50_le_p90 by (auto simp: list_all2_conv_all_nth intro!: percentile_mono_rank)
  then show ?thesis
    using bucket_runs_full [of _ runs] bucket_runs_sizes [of _ runs]
    by (simp add: duration_trend_def fold_duration_bucket empty_trend_def Let_def
        concat_bucket_runs list_all_iff trend_bucket_size_def)
qed

lemma fold_failure_bucket:
  "fold failure_bucket bs t =
     (let done = filter (\<lambda>r. rr_status r = ''completed'');
          bs' = filter (\<lambda>b. done b \<noteq> []) bs in
      t\<lparr> tr_timestamps := tr_timestamps t @ map (\<lambda>b. last_started (done b)) bs',
         tr_rate := tr_rate t @ map overall_failure_rate bs' \<rparr>)"
  by (induction bs arbitrary: t)
    (simp_all add: failure_bucket_def overall_failure_rate_def Let_def)

text \<open>
  The failure-rate trend has one point for each bucket of five in which a run
  completed: the bucket's own failure rate, the same figure the health signal reads, and
  always between 0 and 1.
\<close>

lemma failure_rate_trend_is:
  "(let done = filter (\<lambda>r. rr_status r = ''completed'');
        bs = filter (\<lambda>b. done b \<noteq> []) (bucket_runs runs) in
      failure_rate_trend runs =
        \<lparr> tr_timestamps = map (\<lambda>b. last_started (done b)) bs, tr_p50 = [], tr_p90 = [],
          tr_rate = map overall_failure_rate bs \<rparr>) \<and>
   list_all (\<lambda>x. 0 \<le> x \<and> x \<le> 1) (tr_rate (failure_rate_trend runs))"
proof -
  have "0 \<le> overall_failure_rate b \<and> overall_failure_rate b \<le> 1" for b
    unfolding overall_failure_rate_def Let_def
    by (rule rate_range) (simp_all only: of_nat_0_le_iff of_nat_le_iff length_filter_le)
  then show ?thesis
    by (simp add: failure_rate_trend_def fold_failure_bucket empty_trend_def Let_def list_all_iff)
qed

text \<open>
  C16: the trends of a pipeline. The runs are cut into consecutive buckets of five, in order and
  without loss, only the last one shorter. Each bucket with a measured duration gives one point
  of the duration trend, with its last known start and a p50 that is at most its p90; each
  bucket in which a run completed gives one point of the failure-rate trend, the bucket's own
  failure rate, the figure the health signal reads, always between 0 and 1.
\<close>

theorem trends_spec:
  "(concat (bucket_runs runs) = runs \<and>
    list_all (\<lambda>b. length b = 5) (butlast (bucket_runs runs)) \<and>
    list_all (\<lambda>b. b \<noteq> [] \<and> length b \<le> 5) (bucket_runs runs) \<and>
    (let bs = filter (\<lambda>b. durations b \<noteq> []) (bucket_runs runs) in
       duration_trend runs =
         \<lparr> tr_timestamps = map last_started bs,
           tr_p50 = map (\<lambda>b. percentile (sort (durations b)) p50) bs,
           tr_p90 = map (\<lambda>b. percentile (sort (durations b)) p90) bs,
           tr_rate = [] \<rparr>) \<and>
    list_all2 (\<le>) (tr_p50 (duration_trend runs)) (tr_p90 (duration_trend runs))) \<and>
   ((let done = filter (\<lambda>r. rr_status r = ''completed'');
         bs = filter (\<lambda>b. done b \<noteq> []) (bucket_runs runs) in
       failure_rate_trend runs =
         \<lparr> tr_timestamps = map (\<lambda>b. last_started (done b)) bs, tr_p50 = [], tr_p90 = [],
           tr_rate = map overall_failure_rate bs \<rparr>) \<and>
    list_all (\<lambda>x. 0 \<le> x \<and> x \<le> 1) (tr_rate (failure_rate_trend runs)))"
  by (intro conjI [OF duration_trend_is failure_rate_trend_is])

subsection \<open>Step aggregation\<close>

definition completed :: "step_occurrence \<Rightarrow> bool" where
  "completed occ \<longleftrightarrow> so_status occ = ''completed''"

definition completed_with :: "string \<Rightarrow> step_occurrence \<Rightarrow> bool" where
  "completed_with c occ \<longleftrightarrow> completed occ \<and> so_conclusion occ = c"

lemma acc_add_simps [go_simps]:
  "sa_exec (acc_add occ a) = sa_exec a @ List.map_filter (\<lambda>x. duration_seconds (so_started x) (so_completed x)) [occ]"
  "sa_queue (acc_add occ a) = sa_queue a @ List.map_filter (\<lambda>x. duration_seconds (so_job_queued x) (so_job_started x)) [occ]"
  "sa_total (acc_add occ a) = sa_total a + (if completed occ then 1 else 0)"
  "sa_failed (acc_add occ a) = sa_failed a + (if completed_with ''failure'' occ then 1 else 0)"
  "sa_saw_success (acc_add occ a) = (sa_saw_success a \<or> completed_with ''success'' occ)"
  "sa_saw_failure (acc_add occ a) = (sa_saw_failure a \<or> completed_with ''failure'' occ)"
  "sa_url (acc_add occ a) = (if sa_url a = [] then so_job_url occ else sa_url a)"
  by (simp_all add: acc_add_def Let_def completed_def completed_with_def List.map_filter_simps
      split: option.split)

lemma fold_acc:
  "sa_exec (fold acc_add occs a) = sa_exec a @ List.map_filter (\<lambda>x. duration_seconds (so_started x) (so_completed x)) occs"
  "sa_queue (fold acc_add occs a) = sa_queue a @ List.map_filter (\<lambda>x. duration_seconds (so_job_queued x) (so_job_started x)) occs"
  "sa_total (fold acc_add occs a) = sa_total a + int (length (filter completed occs))"
  "sa_failed (fold acc_add occs a) = sa_failed a + int (length (filter (completed_with ''failure'') occs))"
  "sa_saw_success (fold acc_add occs a) = (sa_saw_success a \<or> list_ex (completed_with ''success'') occs)"
  "sa_saw_failure (fold acc_add occs a) = (sa_saw_failure a \<or> list_ex (completed_with ''failure'') occs)"
  by (induction occs arbitrary: a)
    (simp_all add: go_simps List.map_filter_simps split: option.split)

lemma fold_acc_url:
  "sa_url (fold acc_add occs a) = hd (filter (\<lambda>u. u \<noteq> []) (sa_url a # map so_job_url occs) @ [[]])"
  by (induction occs arbitrary: a) (simp_all add: go_simps)

definition occurrences_of :: "string \<Rightarrow> step_occurrence list \<Rightarrow> step_occurrence list" where
  "occurrences_of name occs = filter (\<lambda>x. so_name x = name) occs"

text \<open>A step of the aggregation, read off the occurrences of its name.\<close>

definition step_figures :: "step_occurrence list \<Rightarrow> step \<Rightarrow> bool" where
  "step_figures mine s \<longleftrightarrow>
     mine \<noteq> [] \<and> sp_id s = sp_name s \<and> sp_quarantine s = None \<and>
     sp_exec s = average (List.map_filter (\<lambda>x. duration_seconds (so_started x) (so_completed x)) mine) \<and>
     sp_contribution s = sp_exec s \<and>
     sp_queue s = average (List.map_filter (\<lambda>x. duration_seconds (so_job_queued x) (so_job_started x)) mine) \<and>
     sp_failure_count s = int (length (filter (completed_with ''failure'') mine)) \<and>
     sp_failure_rate s = rate (sp_failure_count s) (int (length (filter completed mine))) \<and>
     sp_flaky s = (list_ex (completed_with ''success'') mine \<and> list_ex (completed_with ''failure'') mine) \<and>
     sp_url s = hd (filter (\<lambda>u. u \<noteq> []) (map so_job_url mine) @ [[]])"

lemma step_of_acc_figures:
  "mine \<noteq> [] \<Longrightarrow> step_figures mine (step_of_acc (name, fold acc_add mine empty_acc))"
  by (simp add: step_figures_def step_of_acc_def fold_acc fold_acc_url empty_acc_def)

lemma sp_name_step_of_acc [simp]: "sp_name (step_of_acc e) = fst e"
  by (cases e) (simp add: step_of_acc_def)

lemma aggregate_steps_names:
  "distinct (map sp_name (aggregate_steps occs))"
  "sp_name ` set (aggregate_steps occs) = so_name ` set occs"
proof -
  have names: "map sp_name (map step_of_acc m) = map fst m" for m
    by simp
  show "distinct (map sp_name (aggregate_steps occs))"
    unfolding aggregate_steps_def distinct_map_sort_func names by simp
  have "sp_name ` set (map step_of_acc m) = set (map fst m)" for m
    by (simp add: image_image)
  then show "sp_name ` set (aggregate_steps occs) = so_name ` set occs"
    unfolding aggregate_steps_def set_sort_func by (metis map_fst_group_loop set_first_seen set_map)
qed

lemma aggregate_steps_mem:
  "s \<in> set (aggregate_steps occs) \<Longrightarrow> step_figures (occurrences_of (sp_name s) occs) s"
proof -
  assume "s \<in> set (aggregate_steps occs)"
  then obtain name where "name \<in> so_name ` set occs"
    and s: "s = step_of_acc (name, fold acc_add (occurrences_of name occs) empty_acc)"
    by (auto simp: aggregate_steps_def group_loop_mem occurrences_of_def)
  then have "occurrences_of name occs \<noteq> []"
    by (auto simp: occurrences_of_def filter_empty_conv)
  then show ?thesis using s step_of_acc_figures by simp
qed

text \<open>
  C17: the step list of a pipeline. One step per distinct name among the occurrences, in
  descending order of mean duration; a step's failure count and rate are those of its
  completed occurrences, and it is flaky exactly when one of them succeeded and one failed.
\<close>

theorem aggregate_steps_spec:
  "distinct (map sp_name (aggregate_steps occs)) \<and>
   sp_name ` set (aggregate_steps occs) = so_name ` set occs \<and>
   sorted_wrt (\<lambda>a b. sp_contribution b \<le> sp_contribution a) (aggregate_steps occs) \<and>
   list_all (\<lambda>s. step_figures (occurrences_of (sp_name s) occs) s) (aggregate_steps occs)"
  using by_contribution.sort_sorted [of "map step_of_acc (group_loop so_name empty_acc acc_add occs)"]
  by (simp add: aggregate_steps_names list_all_iff aggregate_steps_mem)
    (simp add: aggregate_steps_def by_contribution_def)

subsection \<open>Quarantine marks\<close>

definition marked :: "quarantines \<Rightarrow> pipeline_ref \<Rightarrow> string \<Rightarrow> bool" where
  "marked active p name \<longleftrightarrow> map_of active \<lparr> qk_pipeline = p, qk_step = name \<rparr> \<noteq> None"

lemma with_quarantines_erase:
  "list_all (\<lambda>s. sp_quarantine s = None) steps \<Longrightarrow>
   map (\<lambda>s. s\<lparr>sp_quarantine := None\<rparr>) (with_quarantines steps p active) = steps"
  unfolding with_quarantines_def
  by (induction steps) (simp_all split: option.split)

lemma aggregate_steps_unmarked: "list_all (\<lambda>s. sp_quarantine s = None) (aggregate_steps occs)"
  using aggregate_steps_mem by (auto simp: list_all_iff step_figures_def)

lemma any_flaky_with_quarantines:
  assumes "list_all (\<lambda>s. sp_quarantine s = None) steps"
  shows "any_flaky (with_quarantines steps p active) \<longleftrightarrow>
     (\<exists>s \<in> set steps. sp_flaky s \<and> \<not> marked active p (sp_name s))"
  using assms
  by (induction steps)
    (simp_all add: any_flaky_def with_quarantines_def counts_as_flaky_def marked_def split: option.split)

text \<open>
  C18: a quarantine mark changes no figure: without the marks the steps are the aggregated
  ones. It only mutes: a pipeline counts as flaky exactly when some flaky step of it is
  unmarked, and the unhealthy-step list keeps the unmarked flaky steps and the steps that
  fail without being flaky, marked or not.
\<close>

theorem quarantine_only_mutes:
  assumes "int (length occs) < 2 ^ 52"
  shows "map (\<lambda>s. s\<lparr>sp_quarantine := None\<rparr>) (with_quarantines (aggregate_steps occs) p active)
           = aggregate_steps occs \<and>
         (any_flaky (with_quarantines (aggregate_steps occs) p active) \<longleftrightarrow>
            (\<exists>s \<in> set (aggregate_steps occs). sp_flaky s \<and> \<not> marked active p (sp_name s))) \<and>
         map sp_name (unhealthy_of (with_quarantines (aggregate_steps occs) p active)) =
           map sp_name (filter (\<lambda>s. sp_flaky s \<and> \<not> marked active p (sp_name s)
             \<or> \<not> sp_flaky s \<and> 0 < sp_failure_count s) (aggregate_steps occs))"
proof -
  have rate: "0 < sp_failure_rate s \<longleftrightarrow> 0 < sp_failure_count s" if s: "s \<in> set (aggregate_steps occs)" for s
  proof -
    let ?mine = "occurrences_of (sp_name s) occs"
    have "length (filter (completed_with ''failure'') xs) \<le> length (filter completed xs)" for xs
      by (induction xs) (auto simp: completed_with_def)
    then have "length (filter (completed_with ''failure'') ?mine) \<le> length (filter completed ?mine)" .
    moreover have "length (filter completed ?mine) \<le> length occs"
      unfolding occurrences_of_def by (meson length_filter_le le_trans)
    ultimately show ?thesis
      using aggregate_steps_mem [OF s] assms rate_zero_iff rate_range
      by (fastforce simp: step_figures_def order_less_le)
  qed
  have "map sp_name (unhealthy_of (with_quarantines steps p active)) =
      map sp_name (filter (\<lambda>s. sp_flaky s \<and> \<not> marked active p (sp_name s)
        \<or> \<not> sp_flaky s \<and> 0 < sp_failure_count s) steps)"
    if "\<forall>s \<in> set steps. sp_quarantine s = None \<and> (0 < sp_failure_rate s \<longleftrightarrow> 0 < sp_failure_count s)" for steps
    using that
    by (induction steps) (auto simp: unhealthy_of_def with_quarantines_def marked_def split: option.splits)
  then show ?thesis
    using rate aggregate_steps_unmarked [of occs]
    by (simp add: with_quarantines_erase any_flaky_with_quarantines list_all_iff)
qed


definition example_occurrence :: "string \<Rightarrow> string \<Rightarrow> step_occurrence" where
  "example_occurrence name conclusion =
     \<lparr> so_name = name, so_status = ''completed'', so_conclusion = conclusion,
       so_started = Some 0, so_completed = None, so_job_queued = None,
       so_job_started = Some 0, so_job_url = ''u'', so_run = ''r'', so_run_started = Some 0,
       so_job = ''j'' \<rparr>"

definition example_ref :: pipeline_ref where
  "example_ref = \<lparr> pr_repo = ''a'', pr_name = ''ci'' \<rparr>"

definition example_marks :: quarantines where
  "example_marks = [(\<lparr> qk_pipeline = example_ref, qk_step = ''test'' \<rparr>,
     \<lparr> qn_note = [], qn_at = 0, qn_expires = 1 \<rparr>)]"

definition example_occurrences :: "step_occurrence list" where
  "example_occurrences = [example_occurrence ''test'' ''failure'', example_occurrence ''test'' ''success'',
     example_occurrence ''lint'' ''failure'']"

theorem quarantine_only_mutes_witness:
  "\<not> any_flaky (with_quarantines (aggregate_steps example_occurrences) example_ref example_marks) \<and>
   map sp_name (unhealthy_of (with_quarantines (aggregate_steps example_occurrences) example_ref example_marks))
     = [''lint''] \<and>
   list_ex sp_flaky (aggregate_steps example_occurrences)"
proof -
  have len: "int (length example_occurrences) < 2 ^ 52" by (simp add: example_occurrences_def)
  have "map sp_name (filter (\<lambda>s. sp_flaky s \<and> \<not> marked example_marks example_ref (sp_name s)
      \<or> \<not> sp_flaky s \<and> 0 < sp_failure_count s) (aggregate_steps example_occurrences)) = [''lint'']"
    by code_simp
  moreover have "\<not> (\<exists>s \<in> set (aggregate_steps example_occurrences).
      sp_flaky s \<and> \<not> marked example_marks example_ref (sp_name s))" by code_simp
  moreover have "list_ex sp_flaky (aggregate_steps example_occurrences)" by code_simp
  ultimately show ?thesis
    using quarantine_only_mutes [OF len, of example_ref example_marks] by simp
qed

subsection \<open>Paging\<close>

text \<open>
  A page request on a list. It panics exactly when the clamped offset plus the limit
  exceeds the largest \<open>int\<close>; otherwise a positive limit gives that many entries from the
  offset on and says whether entries follow, and any other limit gives all the rest. A
  negative offset counts as zero.
\<close>

lemma paginate_spec:
  assumes "int (length xs) \<le> max_int64" and "limit \<le> max_int64"
  shows "paginate xs limit offset =
     (let from = min (max offset 0) (int (length xs)) in
      if limit \<le> 0 then Some (drop (nat from) xs, False)
      else if max_int64 < from + limit then None
      else Some (take (nat limit) (drop (nat from) xs), from + limit < int (length xs)))"
proof -
  define off where "off = min (max offset 0) (int (length xs))"
  have f: "0 \<le> off" "off \<le> int (length xs)" by (auto simp: off_def)
  consider "limit \<le> 0" | "0 < limit" "max_int64 < off + limit" | "0 < limit" "off + limit \<le> max_int64"
    by linarith
  then have "paginate xs limit offset =
     (if limit \<le> 0 then Some (drop (nat off) xs, False)
      else if max_int64 < off + limit then None
      else Some (take (nat limit) (drop (nat off) xs), off + limit < int (length xs)))"
  proof cases
    case 1
    then show ?thesis
      using f by (simp add: paginate_def Let_def go_slice_def flip: off_def)
  next
    case 2
    have "wrap64 (off + limit) = off + limit - 18446744073709551616"
      using 2 f assms by (intro wrap64_over) simp_all
    then have "wrap64 (off + limit) < 0"
      using f assms by (simp add: max_int64_def)
    then show ?thesis
      using 2 f by (simp add: paginate_def Let_def go_slice_def flip: off_def)
  next
    case 3
    then have "wrap64 (off + limit) = off + limit"
      using f by (intro wrap64_id) (simp add: in_int64_def min_int64_def)
    moreover have "take (nat (min (off + limit) (int (length xs)) - off)) (drop (nat off) xs)
        = take (nat limit) (drop (nat off) xs)"
      using 3 f by (cases "off + limit \<le> int (length xs)") (auto simp: min_def)
    ultimately show ?thesis
      using 3 f by (simp add: paginate_def Let_def go_slice_def min_less_iff_disj flip: off_def)
  qed
  then show ?thesis by (simp add: Let_def off_def)
qed

subsection \<open>Outcomes\<close>

text \<open>
  What a client sees of a run or step. Passed means a conclusion of success and
  nothing else, failed means failure or timeout; once there is a conclusion the status does
  not matter, so nothing concluded shows as running or queued, and without one nothing shows
  as passed, failed, cancelled or skipped.
\<close>

lemma outcome_of_spec:
  "(outcome_of status conclusion = OutcomePassed \<longleftrightarrow> conclusion = ''success'') \<and>
   (outcome_of status conclusion = OutcomeFailed \<longleftrightarrow> is_failed conclusion) \<and>
   (outcome_of status conclusion = OutcomeRunning \<longleftrightarrow> conclusion = [] \<and> status = ''in_progress'') \<and>
   (outcome_of status conclusion = OutcomeQueued \<longleftrightarrow>
      conclusion = [] \<and> status \<in> set [''queued'', ''waiting'', ''pending'', ''requested'']) \<and>
   (conclusion = [] \<or> outcome_of status conclusion = outcome_of status' conclusion)"
  by (auto simp: outcome_of_def is_failed_def)

subsection \<open>Categories\<close>

lemma rules_categorised: "list_all (\<lambda>r. fst r \<noteq> CategoryUncategorised) category_rules"
  by (simp add: category_rules_def)

text \<open>
  A failed step is left uncategorised exactly when it did not time out and no word of
  its name starts with a keyword of any rule, so no rule is a silent catch-all; a timeout is
  a network timeout whatever the step is called.
\<close>

lemma categorize_failure_spec:
  "(categorize_failure U name conclusion = CategoryUncategorised \<longleftrightarrow>
      conclusion \<noteq> ''timed_out'' \<and> \<not> list_ex (matches_rule (name_words U name)) category_rules) \<and>
   (categorize_failure U name ''timed_out'' = CategoryNetworkTimeouts)"
proof -
  have "find (matches_rule ws) category_rules = Some r \<Longrightarrow> fst r \<noteq> CategoryUncategorised" for ws r
    by (drule find_mem, drule conjunct1) (rule rules_categorised [unfolded list_all_iff, rule_format])
  note some = this
  have none: "find (matches_rule ws) category_rules = None \<longleftrightarrow> \<not> list_ex (matches_rule ws) category_rules" for ws
    by (simp only: find_None_iff list_ex_iff Bex_def)
  show ?thesis
  proof (cases "find (matches_rule (name_words U name)) category_rules")
    case None
    moreover have "\<not> list_ex (matches_rule (name_words U name)) category_rules"
      using None unfolding none .
    ultimately show ?thesis by (simp add: categorize_failure_def)
  next
    case (Some r)
    moreover have "list_ex (matches_rule (name_words U name)) category_rules"
      using none [of "name_words U name"] Some by simp
    ultimately show ?thesis using some [OF Some] by (simp add: categorize_failure_def)
  qed
qed

end
