(* ===== verification/MetricsStore.thy ===== *)
theory MetricsStore
  imports MetricsService MetricsFacts
begin

text \<open>
  The SQLite adapter of the metrics store (\<open>internal/metrics/sqlite\<close>): every query as a
  function of the tables, every statement as an update, and the proof that the adapter
  keeps the contract the service relies on. A query without \<open>ORDER BY\<close> lists rows in
  table order; times compare as instants, as their stored texts do in UTC (\<open>TimeText\<close>).
\<close>

subsection \<open>SQL\<close>

text \<open>\<open>LIMIT n\<close>: a negative limit is none. \<open>NULL\<close> sorts before every value.\<close>

definition sql_limit :: "int \<Rightarrow> 'a list \<Rightarrow> 'a list" where
  "sql_limit n xs = (if n < 0 then xs else take (nat n) xs)"

definition sql_offset :: "int \<Rightarrow> 'a list \<Rightarrow> 'a list" where
  "sql_offset n xs = drop (nat n) xs"

definition newest_first :: "run_row \<Rightarrow> run_row \<Rightarrow> int" where
  "newest_first a b = cmp_or [started_at_compare (ru_started b) (ru_started a), cmp_compare (ru_id b) (ru_id a)]"

interpretation newest_first: comparator newest_first
proof -
  have "comparator (\<lambda>a b. started_at_compare (ru_started b) (ru_started a))"
    by unfold_locales (auto simp: started_at_compare_def cmp_compare_def split: option.splits if_splits)
  then show "comparator newest_first"
    unfolding newest_first_def by (intro comparator_intros)
qed

definition forge_of_repo :: "db \<Rightarrow> string \<Rightarrow> string \<Rightarrow> bool" where
  "forge_of_repo d repo forge = list_ex (\<lambda>p. rp_id p = repo \<and> rp_forge p = forge) (t_repos d)"

text \<open>\<open>appendRunScope\<close>: an empty filter is no restriction.\<close>

definition run_scope :: "db \<Rightarrow> string \<Rightarrow> string \<Rightarrow> string \<Rightarrow> run_row \<Rightarrow> bool" where
  "run_scope d repo forge branch r \<longleftrightarrow>
     (repo = [] \<or> ru_repo r = repo) \<and>
     (forge = [] \<or> forge_of_repo d (ru_repo r) forge) \<and>
     (branch = [] \<or> ru_branch r = Some branch)"

definition ref_of :: "run_row \<Rightarrow> pipeline_ref" where
  "ref_of r = \<lparr> pr_repo = ru_repo r, pr_name = ru_pipeline r \<rparr>"

subsection \<open>Pipelines and runs\<close>

definition by_repo_name :: "pipeline_ref \<Rightarrow> pipeline_ref \<Rightarrow> int" where
  "by_repo_name x y = cmp_or [cmp_compare (pr_repo x) (pr_repo y), cmp_compare (pr_name x) (pr_name y)]"

definition select_pipelines :: "pipeline_filter \<Rightarrow> db \<Rightarrow> pipeline_ref list" where
  "select_pipelines flt d =
     (let refs = sort_func by_repo_name
                   (first_seen (map ref_of (filter (run_scope d (pf_repo flt) (pf_forge flt) []) (t_runs d))))
      in if 0 < pf_limit flt then sql_limit (wrap64 (pf_limit flt + 1)) (sql_offset (pf_offset flt) refs)
         else refs)"

text \<open>The extra row that tells whether another page exists.\<close>

definition cut_extra :: "int \<Rightarrow> 'a list \<Rightarrow> 'a list \<times> bool" where
  "cut_extra limit rows =
     (if 0 < limit \<and> limit < int (length rows) then (take (nat limit) rows, True) else (rows, False))"

definition sql_list_pipelines :: "pipeline_filter \<Rightarrow> (pipeline_ref list \<times> bool) io" where
  "sql_list_pipelines flt =
     bindE (queryE ''query pipelines'' ''scan pipeline'' ''iterate pipelines'' (select_pipelines flt))
       (\<lambda>refs. retE (cut_extra (pf_limit flt) refs))"

definition run_record_of :: "run_row \<Rightarrow> run_record" where
  "run_record_of r =
     \<lparr> rr_id = ru_id r, rr_status = ru_status r, rr_conclusion = text_of (ru_conclusion r),
       rr_started = ru_started r, rr_completed = ru_completed r \<rparr>"

definition recent_runs :: "pipeline_ref \<Rightarrow> int \<Rightarrow> db \<Rightarrow> run_row list" where
  "recent_runs ref n d =
     sql_limit n (sort_func newest_first
       (filter (\<lambda>r. ru_repo r = pr_repo ref \<and> ru_pipeline r = pr_name ref) (t_runs d)))"

definition sql_pipeline_runs :: "pipeline_ref \<Rightarrow> window \<Rightarrow> run_record list io" where
  "sql_pipeline_runs ref win =
     queryE ''query pipeline runs'' ''scan run'' ''iterate pipeline runs''
       (\<lambda>d. map run_record_of (recent_runs ref (run_count win) d))"

subsection \<open>Steps\<close>

definition joined_steps :: "db \<Rightarrow> (step_row \<times> job_row \<times> run_row) list" where
  "joined_steps d =
     concat (map (\<lambda>s. concat (map (\<lambda>j. map (\<lambda>r. (s, j, r))
       (filter (\<lambda>r. ru_id r = jo_run j) (t_runs d)))
       (filter (\<lambda>j. jo_id j = st_job s) (t_jobs d)))) (t_steps d))"

definition occurrence_of :: "step_row \<times> job_row \<times> run_row \<Rightarrow> step_occurrence" where
  "occurrence_of e = (case e of (s, j, r) \<Rightarrow>
     \<lparr> so_name = st_name s, so_status = st_status s, so_conclusion = text_of (st_conclusion s),
       so_started = st_started s, so_completed = st_completed s,
       so_job_queued = jo_queued j, so_job_started = jo_started j, so_job_url = jo_url j,
       so_run = jo_run j, so_run_started = ru_started r, so_job = jo_id j \<rparr>)"

definition sql_pipeline_steps :: "pipeline_ref \<Rightarrow> window \<Rightarrow> step_occurrence list io" where
  "sql_pipeline_steps ref win =
     queryE ''query pipeline steps'' ''scan step'' ''iterate steps''
       (\<lambda>d. map occurrence_of
          (filter (\<lambda>(s, j, r). jo_run j \<in> set (map ru_id (recent_runs ref (run_count win) d))) (joined_steps d)))"

definition by_job_start :: "step_row \<times> job_row \<times> run_row \<Rightarrow> step_row \<times> job_row \<times> run_row \<Rightarrow> int" where
  "by_job_start x y =
     cmp_or [started_at_compare (jo_started (fst (snd x))) (jo_started (fst (snd y))),
             cmp_compare (st_number (fst x)) (st_number (fst y))]"

definition sql_run_steps :: "string \<Rightarrow> step_occurrence list io" where
  "sql_run_steps run_id =
     queryE ''query run steps'' ''scan step'' ''iterate steps''
       (\<lambda>d. map occurrence_of (sort_func by_job_start (filter (\<lambda>(s, j, r). jo_run j = run_id) (joined_steps d))))"

subsection \<open>Windows\<close>

definition in_span :: "gotime \<Rightarrow> gotime \<Rightarrow> run_row \<Rightarrow> bool" where
  "in_span since until r = (case ru_started r of None \<Rightarrow> False | Some t \<Rightarrow> since \<le> t \<and> t < until)"

definition sql_window_runs :: "run_window_filter \<Rightarrow> window_run list io" where
  "sql_window_runs flt =
     queryE ''query window runs'' ''scan window run'' ''iterate window runs''
       (\<lambda>d. map (\<lambda>r. \<lparr> wr_pipeline = ref_of r, wr_run = run_record_of r \<rparr>)
          (filter (\<lambda>r. in_span (wf_since flt) (wf_until flt) r
             \<and> run_scope d (wf_repo flt) (wf_forge flt) (wf_branch flt) r) (t_runs d)))"

definition sql_window_steps :: "run_window_filter \<Rightarrow> window_step list io" where
  "sql_window_steps flt =
     queryE ''query window steps'' ''scan window step'' ''iterate window steps''
       (\<lambda>d. map (\<lambda>(s, j, r). \<lparr> ws_pipeline = ref_of r, ws_step = (occurrence_of (s, j, r))\<lparr>so_job := []\<rparr> \<rparr>)
          (filter (\<lambda>(s, j, r). in_span (wf_since flt) (wf_until flt) r
             \<and> run_scope d (wf_repo flt) (wf_forge flt) (wf_branch flt) r) (joined_steps d)))"

definition by_busy :: "branch_count \<Rightarrow> branch_count \<Rightarrow> int" where
  "by_busy a b = cmp_or [cmp_compare (bc_count b) (bc_count a), cmp_compare (bc_name a) (bc_name b)]"

definition sql_window_branches :: "run_window_filter \<Rightarrow> branch_count list io" where
  "sql_window_branches flt =
     queryE ''query window branches'' ''scan branch'' ''iterate branches''
       (\<lambda>d. sort_func by_busy
          (map (\<lambda>e. \<lparr> bc_name = fst e, bc_count = snd e \<rparr>)
            (group_loop (\<lambda>r. text_of (ru_branch r)) 0 (\<lambda>_ n. n + 1)
              (filter (\<lambda>r. in_span (wf_since flt) (wf_until flt) r \<and> text_of (ru_branch r) \<noteq> []
                 \<and> run_scope d (wf_repo flt) (wf_forge flt) [] r) (t_runs d)))))"

subsection \<open>The run list\<close>

definition status_matches :: "run_status \<Rightarrow> run_row \<Rightarrow> bool" where
  "status_matches st r =
     (case st of
        RunStatusAll \<Rightarrow> True
      | RunStatusFailed \<Rightarrow> ru_conclusion r = Some ''failure'' \<or> ru_conclusion r = Some ''timed_out''
      | RunStatusRunning \<Rightarrow> ru_status r \<noteq> ''completed''
      | RunStatusSuccess \<Rightarrow> ru_conclusion r = Some ''success'')"

definition pending_then_newest :: "run_row \<Rightarrow> run_row \<Rightarrow> int" where
  "pending_then_newest a b =
     cmp_or [cmp_compare (ru_started a \<noteq> None) (ru_started b \<noteq> None),
             started_at_compare (ru_started b) (ru_started a), cmp_compare (ru_id b) (ru_id a)]"

definition run_entry_of :: "db \<Rightarrow> run_row \<Rightarrow> run_entry list" where
  "run_entry_of d r =
     map (\<lambda>p. \<lparr> re_id = ru_id r, re_pipeline = ref_of r, re_forge = rp_forge p, re_status = ru_status r,
        re_conclusion = text_of (ru_conclusion r), re_started = ru_started r, re_completed = ru_completed r,
        re_branch = text_of (ru_branch r), re_sha = text_of (ru_sha r), re_message = text_of (ru_message r),
        re_actor = text_of (ru_actor r), re_url = ru_url r, re_steps = [] \<rparr>)
       (filter (\<lambda>p. rp_id p = ru_repo r) (t_repos d))"

definition select_runs :: "run_list_filter \<Rightarrow> db \<Rightarrow> run_entry list" where
  "select_runs flt d =
     (let rows = concat (map (run_entry_of d)
          (sort_func pending_then_newest
            (filter (\<lambda>r. run_scope d (rf_repo flt) (rf_forge flt) (rf_branch flt) r \<and> status_matches (rf_status flt) r)
              (t_runs d))))
      in if 0 < rf_limit flt then sql_limit (wrap64 (rf_limit flt + 1)) (sql_offset (rf_offset flt) rows)
         else rows)"

definition by_run_job_start :: "step_row \<times> job_row \<Rightarrow> step_row \<times> job_row \<Rightarrow> int" where
  "by_run_job_start x y =
     cmp_or [cmp_compare (jo_run (snd x)) (jo_run (snd y)),
             started_at_compare (jo_started (snd x)) (jo_started (snd y)),
             cmp_compare (st_number (fst x)) (st_number (fst y))]"

definition select_entry_steps :: "string list \<Rightarrow> db \<Rightarrow> (string \<times> run_step) list" where
  "select_entry_steps ids d =
     map (\<lambda>(s, j). (jo_run j, \<lparr> rs_job = jo_id j, rs_name = st_name s, rs_status = st_status s,
             rs_conclusion = text_of (st_conclusion s), rs_url = jo_url j \<rparr>))
       (sort_func by_run_job_start
         (filter (\<lambda>(s, j). jo_run j \<in> set ids)
           (concat (map (\<lambda>s. map (\<lambda>j. (s, j)) (filter (\<lambda>j. jo_id j = st_job s) (t_jobs d))) (t_steps d)))))"

definition attach_steps :: "run_entry list \<Rightarrow> run_entry list io" where
  "attach_steps runs =
     (if runs = [] then retE []
      else bindE (queryE ''query run steps'' ''scan run step'' ''iterate run steps''
                   (select_entry_steps (map re_id runs)))
             (\<lambda>steps. retE (map (\<lambda>r. r\<lparr>re_steps := re_steps r @ map snd (filter (\<lambda>e. fst e = re_id r) steps)\<rparr>) runs)))"

definition sql_list_runs :: "run_list_filter \<Rightarrow> (run_entry list \<times> bool) io" where
  "sql_list_runs flt =
     bindE (queryE ''query runs'' ''scan run'' ''iterate runs'' (select_runs flt)) (\<lambda>rows.
       let (runs, more) = cut_extra (rf_limit flt) rows
       in bindE (attach_steps runs) (\<lambda>runs. retE (runs, more)))"

subsection \<open>Usage\<close>

definition usage_of :: "job_row \<times> run_row \<Rightarrow> usage_record option" where
  "usage_of e = (case e of (j, r) \<Rightarrow>
     (case (jo_started j, jo_completed j) of
        (Some a, Some b) \<Rightarrow> Some \<lparr> ur_pipeline = ru_pipeline r, ur_secs = duration_to_seconds (time_sub b a) \<rparr>
      | _ \<Rightarrow> None))"

definition usage_rows :: "string \<Rightarrow> int \<Rightarrow> db \<Rightarrow> (job_row \<times> run_row) list" where
  "usage_rows repo n d =
     filter (\<lambda>(j, r). ru_repo r = repo
         \<and> ru_id r \<in> set (map ru_id (recent_runs \<lparr> pr_repo = repo, pr_name = ru_pipeline r \<rparr> (max n 0) d)))
       (concat (map (\<lambda>j. map (\<lambda>r. (j, r)) (filter (\<lambda>r. ru_id r = jo_run j) (t_runs d))) (t_jobs d)))"

definition sql_repo_usage :: "string \<Rightarrow> window \<Rightarrow> usage_record list io" where
  "sql_repo_usage repo win =
     bindE (queryE ''query repo usage'' ''scan usage job'' ''iterate repo usage'' (usage_rows repo (run_count win)))
       (\<lambda>rows. retE (List.map_filter usage_of rows))"

subsection \<open>Quarantine marks\<close>

definition mark_key :: "quarantine_row \<Rightarrow> quarantine_key" where
  "mark_key q = \<lparr> qk_pipeline = \<lparr> pr_repo = qu_repo q, pr_name = qu_pipeline q \<rparr>, qk_step = qu_step q \<rparr>"

definition mark_of :: "quarantine_row \<Rightarrow> quarantine" where
  "mark_of q = \<lparr> qn_note = qu_note q, qn_at = qu_at q, qn_expires = qu_expires q \<rparr>"

definition sql_active_quarantines :: "gotime \<Rightarrow> quarantines io" where
  "sql_active_quarantines now =
     bindE (queryE ''query quarantines'' ''scan quarantine'' ''read quarantines''
              (\<lambda>d. filter (\<lambda>q. now < qu_expires q) (t_quarantines d)))
       (\<lambda>rows. retE (fold (\<lambda>q m. (mark_key q, mark_of q) # m) rows []))"

definition upsert_quarantine :: "quarantine_row \<Rightarrow> db \<Rightarrow> (db \<times> nat) option" where
  "upsert_quarantine q d =
     (if list_ex (\<lambda>x. quarantine_row_key x = quarantine_row_key q) (t_quarantines d)
      then Some (d\<lparr>t_quarantines := map (\<lambda>x. if quarantine_row_key x = quarantine_row_key q
                then x\<lparr>qu_note := qu_note q, qu_at := qu_at q, qu_expires := qu_expires q\<rparr> else x) (t_quarantines d)\<rparr>, 1)
      else if \<not> list_ex (\<lambda>p. rp_id p = qu_repo q) (t_repos d) then None
      else Some (d\<lparr>t_quarantines := t_quarantines d @ [q]\<rparr>, 1))"

definition row_of_mark :: "quarantine_key \<Rightarrow> quarantine \<Rightarrow> quarantine_row" where
  "row_of_mark k q =
     \<lparr> qu_repo = pr_repo (qk_pipeline k), qu_pipeline = pr_name (qk_pipeline k), qu_step = qk_step k,
       qu_note = qn_note q, qu_at = qn_at q, qu_expires = qn_expires q \<rparr>"

definition sql_quarantine_step :: "quarantine_key \<Rightarrow> string \<Rightarrow> gotime \<Rightarrow> quarantine io" where
  "sql_quarantine_step k note now =
     (let q = \<lparr> qn_note = note, qn_at = now, qn_expires = now + quarantine_duration \<rparr>
      in bindE (wrapE ''quarantine step'' (execE (upsert_quarantine (row_of_mark k q)))) (\<lambda>_. retE q))"

definition delete_quarantine :: "quarantine_key \<Rightarrow> db \<Rightarrow> (db \<times> nat) option" where
  "delete_quarantine k d =
     (let rest = filter (\<lambda>x. mark_key x \<noteq> k) (t_quarantines d)
      in Some (d\<lparr>t_quarantines := rest\<rparr>, length (t_quarantines d) - length rest))"

definition sql_unquarantine_step :: "quarantine_key \<Rightarrow> unit io" where
  "sql_unquarantine_step k =
     bindE (wrapE ''un-quarantine step'' (execE (delete_quarantine k))) (\<lambda>_. retE ())"

definition sql_mstore :: mstore where
  "sql_mstore =
     \<lparr> ms_list_pipelines = sql_list_pipelines, ms_pipeline_runs = sql_pipeline_runs,
       ms_pipeline_steps = sql_pipeline_steps, ms_repo_usage = sql_repo_usage,
       ms_window_runs = sql_window_runs, ms_window_steps = sql_window_steps,
       ms_window_branches = sql_window_branches, ms_list_runs = sql_list_runs,
       ms_run_steps = sql_run_steps, ms_active = sql_active_quarantines,
       ms_quarantine = sql_quarantine_step, ms_unquarantine = sql_unquarantine_step \<rparr>"

subsection \<open>The contract\<close>

definition quarantine_marks :: "db \<Rightarrow> quarantine_key \<Rightarrow> quarantine option" where
  "quarantine_marks d k = map_option mark_of (find (\<lambda>q. mark_key q = k) (t_quarantines d))"

lemma mark_key_row: "mark_key (row_of_mark k q) = k" "mark_of (row_of_mark k q) = q"
  by (simp_all add: mark_key_def mark_of_def row_of_mark_def)

lemma row_key_mark_key: "quarantine_row_key a = quarantine_row_key b \<longleftrightarrow> mark_key a = mark_key b"
  by (auto simp: quarantine_row_key_def mark_key_def)

lemma row_of_mark_fields [simp]:
  "quarantine_row_key x = quarantine_row_key (row_of_mark k q) \<longleftrightarrow> mark_key x = k"
  "qu_note (row_of_mark k q) = qn_note q" "qu_at (row_of_mark k q) = qn_at q"
  "qu_expires (row_of_mark k q) = qn_expires q"
  by (simp_all add: row_key_mark_key mark_key_row) (simp_all add: row_of_mark_def)

lemma marks_map_of:
  "distinct (map mark_key qs) \<Longrightarrow>
   map_of (fold (\<lambda>q m. (mark_key q, mark_of q) # m) qs []) k = map_option mark_of (find (\<lambda>q. mark_key q = k) qs)"
proof -
  assume d: "distinct (map mark_key qs)"
  have "fold (\<lambda>q m. (mark_key q, mark_of q) # m) qs l = rev (map (\<lambda>q. (mark_key q, mark_of q)) qs) @ l" for l
    by (induction qs arbitrary: l) auto
  then have f: "fold (\<lambda>q m. (mark_key q, mark_of q) # m) qs [] = rev (map (\<lambda>q. (mark_key q, mark_of q)) qs)"
    by simp
  have "map_of (rev (map (\<lambda>q. (mark_key q, mark_of q)) qs)) = map_of (map (\<lambda>q. (mark_key q, mark_of q)) qs)"
    using d by (intro map_of_rev) (simp add: comp_def)
  then have "map_of (fold (\<lambda>q m. (mark_key q, mark_of q) # m) qs []) = map_of (map (\<lambda>q. (mark_key q, mark_of q)) qs)"
    unfolding f .
  moreover have "map_of (map (\<lambda>q. (mark_key q, mark_of q)) qs) k = map_option mark_of (find (\<lambda>q. mark_key q = k) qs)"
    by (induction qs) auto
  ultimately show ?thesis by simp
qed

lemma upsert_marks:
  assumes "upsert_quarantine (row_of_mark k q) d = Some (d', n)"
  shows "quarantine_marks d' = (quarantine_marks d)(k := Some q)"
proof (cases "list_ex (\<lambda>x. quarantine_row_key x = quarantine_row_key (row_of_mark k q)) (t_quarantines d)")
  case True
  define f where "f = (\<lambda>x. if mark_key x = k
     then x\<lparr>qu_note := qn_note q, qu_at := qn_at q, qu_expires := qn_expires q\<rparr> else x)"
  have key: "mark_key (f x) = mark_key x" for x by (simp add: f_def mark_key_def)
  have d': "t_quarantines d' = map f (t_quarantines d)"
    using assms True
    by (auto simp: upsert_quarantine_def f_def)
  have m: "quarantine_marks d' k' = map_option (mark_of \<circ> f) (find (\<lambda>x. mark_key x = k') (t_quarantines d))" for k'
    by (simp add: quarantine_marks_def d' find_map_key [of mark_key f, OF key] option.map_comp)
  obtain x0 where "find (\<lambda>x. mark_key x = k) (t_quarantines d) = Some x0"
    using True by (cases "find (\<lambda>x. mark_key x = k) (t_quarantines d)") (auto simp: find_None_iff list_ex_iff)
  moreover from find_mem [OF this] have "mark_of (f x0) = q"
    by (simp add: f_def mark_of_def)
  moreover have "quarantine_marks d' k' = quarantine_marks d k'" if "k' \<noteq> k" for k'
  proof (cases "find (\<lambda>x. mark_key x = k') (t_quarantines d)")
    case (Some x)
    with find_mem [OF this] that have "f x = x" by (simp add: f_def)
    then show ?thesis unfolding m by (simp add: Some quarantine_marks_def)
  next
    case None
    then show ?thesis unfolding m by (simp add: quarantine_marks_def)
  qed
  ultimately show ?thesis by (auto simp: fun_eq_iff m)
next
  case False
  then have "t_quarantines d' = t_quarantines d @ [row_of_mark k q]"
    using assms by (auto simp: upsert_quarantine_def split: if_splits)
  moreover have "find (\<lambda>x. mark_key x = k) (t_quarantines d) = None"
    using False by (auto simp: find_None_iff list_ex_iff mark_key_row)
  ultimately show ?thesis
    by (intro ext) (auto simp: quarantine_marks_def find_append mark_key_row split: option.splits)
qed

lemma delete_marks:
  assumes "delete_quarantine k d = Some (d', n)"
  shows "quarantine_marks d' = (quarantine_marks d)(k := None)"
proof
  fix k'
  have "find (\<lambda>x. mark_key x = k') (filter (\<lambda>x. mark_key x \<noteq> k) xs) =
      (if k' = k then None else find (\<lambda>x. mark_key x = k') xs)" for xs
    by (induction xs) auto
  moreover have "t_quarantines d' = filter (\<lambda>x. mark_key x \<noteq> k) (t_quarantines d)"
    using assms by (auto simp: delete_quarantine_def Let_def)
  ultimately show "quarantine_marks d' k' = ((quarantine_marks d)(k := None)) k'"
    by (simp add: quarantine_marks_def)
qed

lemma upsert_ok:
  assumes "run_tables_ok d" and "upsert_quarantine q d = Some (d', n)" shows "run_tables_ok d'"
proof (cases "list_ex (\<lambda>x. quarantine_row_key x = quarantine_row_key q) (t_quarantines d)")
  case True
  define f where "f = (\<lambda>x. if quarantine_row_key x = quarantine_row_key q
     then x\<lparr>qu_note := qu_note q, qu_at := qu_at q, qu_expires := qu_expires q\<rparr> else x)"
  have d': "d' = d\<lparr>t_quarantines := map f (t_quarantines d)\<rparr>"
    using assms(2) True by (simp add: upsert_quarantine_def f_def)
  have "quarantine_row_key \<circ> f = quarantine_row_key" "qu_repo (f x) = qu_repo x" for x
    by (auto simp: f_def quarantine_row_key_def)
  then show ?thesis
    using assms(1) unfolding run_tables_ok_def d' by (simp add: refs_in_map_children)
next
  case False
  then have "list_ex (\<lambda>p. rp_id p = qu_repo q) (t_repos d)" and d': "d' = d\<lparr>t_quarantines := t_quarantines d @ [q]\<rparr>"
    using assms(2) by (auto simp: upsert_quarantine_def split: if_splits)
  obtain p where "p \<in> set (t_repos d)" "rp_id p = qu_repo q"
    using \<open>list_ex _ (t_repos d)\<close> by (auto simp: list_ex_iff)
  then have "qu_repo q \<in> rp_id ` set (t_repos d)" by (intro rev_image_eqI) auto
  then show ?thesis
  proof -
    have "quarantine_row_key q \<notin> quarantine_row_key ` set (t_quarantines d)"
      using False by (auto simp: list_ex_iff)
    with assms(1) \<open>qu_repo q \<in> rp_id ` set (t_repos d)\<close> show ?thesis
      unfolding run_tables_ok_def d' by simp
  qed
qed

lemma delete_ok:
  "run_tables_ok d \<Longrightarrow> delete_quarantine k d = Some (d', n) \<Longrightarrow> run_tables_ok d'"
  by (auto simp: run_tables_ok_def delete_quarantine_def Let_def distinct_map_filter_key refs_in_filter)

lemma run_tables_marks: "run_tables_ok d \<Longrightarrow> distinct (map mark_key (t_quarantines d))"
  by (auto simp: run_tables_ok_def distinct_map inj_on_def row_key_mark_key)

lemma recent_runs_length: "0 < n \<Longrightarrow> int (length (recent_runs ref n d)) \<le> n"
  by (simp add: recent_runs_def sql_limit_def)

interpretation sql: metrics_store sql_mstore run_tables_ok quarantine_marks
proof
  fix P flt ref win repo wflt rflt i now
  show "keeps P (ms_list_pipelines sql_mstore flt)"
    by (simp add: sql_mstore_def sql_list_pipelines_def) (intro keeps_intros)
  show "keeps P (ms_pipeline_runs sql_mstore ref win)"
    by (simp add: sql_mstore_def sql_pipeline_runs_def keeps_queryE)
  show "keeps P (ms_pipeline_steps sql_mstore ref win)"
    by (simp add: sql_mstore_def sql_pipeline_steps_def keeps_queryE)
  show "keeps P (ms_repo_usage sql_mstore repo win)"
    by (simp add: sql_mstore_def sql_repo_usage_def) (intro keeps_intros)
  show "keeps P (ms_window_runs sql_mstore wflt)"
    by (simp add: sql_mstore_def sql_window_runs_def keeps_queryE)
  show "keeps P (ms_window_steps sql_mstore wflt)"
    by (simp add: sql_mstore_def sql_window_steps_def keeps_queryE)
  show "keeps P (ms_window_branches sql_mstore wflt)"
    by (simp add: sql_mstore_def sql_window_branches_def keeps_queryE)
  show "keeps P (ms_list_runs sql_mstore rflt)"
    by (auto simp: sql_mstore_def sql_list_runs_def attach_steps_def Let_def split: prod.split intro!: keeps_intros)
  show "keeps P (ms_run_steps sql_mstore i)"
    by (simp add: sql_mstore_def sql_run_steps_def keeps_queryE)
  show "keeps P (ms_active sql_mstore now)"
    by (simp add: sql_mstore_def sql_active_quarantines_def) (intro keeps_intros)
next
  fix ref win w rs w'
  assume "ms_pipeline_runs sql_mstore ref win w = (Inr rs, w')" and "0 < run_count win"
  then show "int (length rs) \<le> run_count win"
    using recent_runs_length by (auto simp: sql_mstore_def sql_pipeline_runs_def dest: queryE_Inr)
next
  fix w now act w' k
  assume ok: "run_tables_ok (w_db w)" and "ms_active sql_mstore now w = (Inr act, w')"
  then have act: "act = fold (\<lambda>q m. (mark_key q, mark_of q) # m) (filter (\<lambda>q. now < qu_expires q) (t_quarantines (w_db w))) []"
    by (auto simp: sql_mstore_def sql_active_quarantines_def bindE_eq_Inr dest: queryE_Inr)
  note d = run_tables_marks [OF ok]
  have "map_of act k = map_option mark_of
      (find (\<lambda>q. mark_key q = k) (filter (\<lambda>q. now < qu_expires q) (t_quarantines (w_db w))))"
    unfolding act by (intro marks_map_of distinct_map_filter_key d)
  then show "map_of act k = (case quarantine_marks (w_db w) k of
      None \<Rightarrow> None | Some q \<Rightarrow> if now < qn_expires q then Some q else None)"
    by (simp add: find_filter_distinct [OF d] quarantine_marks_def mark_of_def split: option.split)
next
  fix w k nt t q w'
  assume "ms_quarantine sql_mstore k nt t w = (Inr q, w')"
  then show "q = \<lparr>qn_note = nt, qn_at = t, qn_expires = t + quarantine_duration\<rparr> \<and>
      quarantine_marks (w_db w') = (quarantine_marks (w_db w))(k := Some q)"
    by (auto simp: sql_mstore_def sql_quarantine_step_def Let_def bindE_eq_Inr dest!: execE_Inr upsert_marks)
next
  fix w k u w'
  assume "ms_unquarantine sql_mstore k w = (Inr u, w')"
  then show "quarantine_marks (w_db w') = (quarantine_marks (w_db w))(k := None)"
    by (auto simp: sql_mstore_def sql_unquarantine_step_def bindE_eq_Inr dest!: execE_Inr delete_marks)
next
  fix k nt t w e w'
  show "ms_quarantine sql_mstore k nt t w = (Inl e, w') \<Longrightarrow> w_db w' = w_db w"
    by (simp add: sql_mstore_def sql_quarantine_step_def Let_def exec_then_ret_Inl)
  show "ms_unquarantine sql_mstore k w = (Inl e, w') \<Longrightarrow> w_db w' = w_db w"
    by (simp add: sql_mstore_def sql_unquarantine_step_def exec_then_ret_Inl)
next
  fix k nt t
  show "keeps run_tables_ok (ms_quarantine sql_mstore k nt t)"
    by (simp add: sql_mstore_def sql_quarantine_step_def Let_def)
      (rule keeps_bindE keeps_wrapE keeps_execE keeps_retE | erule (1) upsert_ok)+
  show "keeps run_tables_ok (ms_unquarantine sql_mstore k)"
    by (simp add: sql_mstore_def sql_unquarantine_step_def)
      (rule keeps_bindE keeps_wrapE keeps_execE keeps_retE | erule (1) delete_ok)+
qed

end
