(* ===== verification/InsightsFacts.thy ===== *)
theory InsightsFacts
  imports Insights MetricsFacts
begin

text \<open>
  What the failure insights satisfy: they do not depend on the iteration order of any map,
  their views add up to the same failed steps, the flaky-step list agrees with the step
  aggregation, and the mean time to recovery is the mean length of the outages.
\<close>

subsection \<open>Comparison functions\<close>

interpretation by_failed_runs: comparator by_failed_runs
  unfolding by_failed_runs_def by (intro comparator_intros)

interpretation by_failures: comparator by_failures
  unfolding by_failures_def by (intro comparator_intros)

interpretation by_ref: comparator by_ref
  unfolding by_ref_def by (intro comparator_intros)

interpretation by_occurrences: comparator by_occurrences
  unfolding by_occurrences_def by (intro comparator_intros)

interpretation by_category: comparator by_category
  unfolding by_category_def by (intro comparator_intros)

interpretation by_flake_rate: comparator by_flake_rate
  unfolding by_flake_rate_def by (intro comparator_intros)

interpretation by_finish: comparator by_finish
  unfolding by_finish_def by (rule comparator_key)

lemma category_text_inj: "category_text a = category_text b \<longleftrightarrow> a = b"
  by (cases a; cases b) (simp_all add: category_text_def)

lemma by_ref_eq_0: "by_ref x y = 0 \<longleftrightarrow> x = y"
  by (auto simp: by_ref_def cmp_or_eq_0 simp del: cmp_or.simps)

lemma by_failed_runs_eq_0: "by_failed_runs a b = 0 \<Longrightarrow> fp_pipeline a = fp_pipeline b"
  by (auto simp: by_failed_runs_def cmp_or_eq_0 simp del: cmp_or.simps)

lemma by_failures_eq_0: "by_failures a b = 0 \<Longrightarrow> sf_step a = sf_step b"
  by (auto simp: by_failures_def cmp_or_eq_0 simp del: cmp_or.simps)

lemma by_occurrences_eq_0: "by_occurrences a b = 0 \<Longrightarrow> fg_step a = fg_step b"
  by (auto simp: by_occurrences_def cmp_or_eq_0 simp del: cmp_or.simps)

lemma by_category_eq_0: "by_category a b = 0 \<Longrightarrow> cc_category a = cc_category b"
  by (auto simp: by_category_def cmp_or_eq_0 category_text_inj simp del: cmp_or.simps)

lemma by_flake_rate_eq_0: "by_flake_rate a b = 0 \<Longrightarrow> (fs_pipeline a, fs_name a) = (fs_pipeline b, fs_name b)"
  by (auto simp: by_flake_rate_def cmp_or_eq_0 simp del: cmp_or.simps)

text \<open>Sorting the entries of a map, keyed by something the comparison is total on.\<close>

lemma sort_entries:
  assumes "comparator c" and "\<And>a b. c a b = 0 \<Longrightarrow> key a = key b"
    and "permuting ord" and "distinct (map key (map f m))"
  shows "sort_func c (map f (ord m)) = sort_func c (map f m)"
proof (rule comparator.sort_func_perm [OF assms(1)])
  show "mset (map f (ord m)) = mset (map f m)"
    using assms(3) by (rule permuting_map_mset)
  fix a b assume "a \<in> set (map f (ord m))" "b \<in> set (map f (ord m))" "c a b = 0"
  then show "a = b"
    using assms(2) distinct_key_inj [OF assms(4)] permuting_set [OF assms(3)] by auto
qed

subsection \<open>Independence of map order\<close>

lemma fold_add_permuting:
  "permuting ord \<Longrightarrow> fold (\<lambda>e t. t + f e) (ord m) (0::int) = sum_list (map f m)"
proof -
  have "fold (\<lambda>e t. t + f e) xs a = a + sum_list (map f xs)" for xs and a :: int
    by (induction xs arbitrary: a) auto
  then show "permuting ord \<Longrightarrow> fold (\<lambda>e t. t + f e) (ord m) 0 = sum_list (map f m)"
    using sum_list_map_mset permuting_mset by (metis add_0)
qed

lemma top_failing_order:
  "orders_ok os \<Longrightarrow> top_failing_pipelines os runs = top_failing_pipelines insertion_orders runs"
proof -
  assume os: "orders_ok os"
  let ?m = "group_loop wr_pipeline (0, 0) count_run runs"
  let ?fp = "\<lambda>e. \<lparr> fp_pipeline = fst e, fp_runs = fst (snd e), fp_failed = snd (snd e) \<rparr>"
  have p: "permuting (or_top os)" using os by (simp add: orders_ok_def)
  have "distinct (map fp_pipeline (map ?fp ?m))" by (simp add: comp_def)
  then have "distinct (map fp_pipeline (filter (\<lambda>fp. 0 < fp_failed fp) (map ?fp ?m)))"
    by (rule distinct_map_filter_key)
  note inj = distinct_key_inj [OF this]
  have "sort_func by_failed_runs (filter (\<lambda>fp. 0 < fp_failed fp) (map ?fp (or_top os ?m)))
      = sort_func by_failed_runs (filter (\<lambda>fp. 0 < fp_failed fp) (map ?fp ?m))"
  proof (rule by_failed_runs.sort_func_perm)
    show "mset (filter (\<lambda>fp. 0 < fp_failed fp) (map ?fp (or_top os ?m)))
        = mset (filter (\<lambda>fp. 0 < fp_failed fp) (map ?fp ?m))"
      using permuting_map_mset [OF p] by (metis mset_filter)
    fix a b
    assume "a \<in> set (filter (\<lambda>fp. 0 < fp_failed fp) (map ?fp (or_top os ?m)))"
      and "b \<in> set (filter (\<lambda>fp. 0 < fp_failed fp) (map ?fp (or_top os ?m)))"
    then have "a \<in> set (filter (\<lambda>fp. 0 < fp_failed fp) (map ?fp ?m))"
      and "b \<in> set (filter (\<lambda>fp. 0 < fp_failed fp) (map ?fp ?m))"
      by (simp_all only: set_filter set_map permuting_set [OF p])
    moreover assume "by_failed_runs a b = 0"
    ultimately show "a = b" by (intro inj by_failed_runs_eq_0)
  qed
  then show ?thesis by (simp add: top_failing_pipelines_def insertion_orders_def)
qed

lemma stage_order:
  assumes "orders_ok os"
  shows "stage_distribution os steps = stage_distribution insertion_orders steps"
proof -
  let ?m = "group_loop ws_name 0 (\<lambda>_ n. n + 1) (failed_steps steps)"
  have p: "permuting (or_stages os)" "permuting (or_stage_total os)"
    using assms by (simp_all add: orders_ok_def)
  have t: "fold (\<lambda>e t. t + snd e) (or_stage_total os ?m) 0 = fold (\<lambda>e t. t + snd e) ?m 0"
    using fold_add_permuting [OF p(2)] fold_add_permuting [OF permuting_id] by metis
  let ?f = "\<lambda>e. \<lparr> sf_step = fst e, sf_failures = snd e, sf_share = rate (snd e) (fold (\<lambda>e t. t + snd e) ?m 0) \<rparr>"
  have "distinct (map sf_step (map ?f ?m))" by (simp add: comp_def)
  then have "sort_func by_failures (map ?f (or_stages os ?m)) = sort_func by_failures (map ?f ?m)"
    using sort_entries [where key = sf_step and c = by_failures] by_failures.comparator_axioms by_failures_eq_0 p(1)
    by blast
  then show ?thesis
    unfolding stage_distribution_def Let_def t by (simp add: insertion_orders_def)
qed

text \<open>\<open>mostCommon\<close>: the key with the highest count, the least such key.\<close>

definition beats :: "string \<times> int \<Rightarrow> string \<times> int \<Rightarrow> bool" where
  "beats a b \<longleftrightarrow> snd b < snd a \<or> snd a = snd b \<and> fst a \<le> fst b"

lemma beats_trans: "beats x y \<Longrightarrow> beats y z \<Longrightarrow> beats x z"
  by (auto simp: beats_def)

definition best_step :: "string \<times> int \<Rightarrow> string \<times> int \<Rightarrow> string \<times> int" where
  "best_step e b = (if snd b < snd e \<or> snd e = snd b \<and> fst e < fst b then e else b)"

lemma most_common_best: "most_common m = fst (fold best_step m ([], 0))"
proof -
  have "(\<lambda>(key, count) (best, best_count).
      if best_count < count \<or> count = best_count \<and> key < best then (key, count) else (best, best_count))
      = best_step"
    by (auto simp: best_step_def fun_eq_iff)
  then show ?thesis by (simp add: most_common_def)
qed

lemma best_step_fold:
  "(fold best_step m b = b \<or> fold best_step m b \<in> set m) \<and> beats (fold best_step m b) b \<and>
   (\<forall>e \<in> set m. beats (fold best_step m b) e)"
proof (induction m arbitrary: b)
  case Nil
  then show ?case by (simp add: beats_def)
next
  case (Cons e m)
  have "best_step e b = e \<or> best_step e b = b" "beats (best_step e b) e" "beats (best_step e b) b"
    by (auto simp: best_step_def beats_def)
  then show ?case
    using Cons.IH [of "best_step e b"] beats_trans [of "fold best_step m (best_step e b)" "best_step e b"]
    by (simp only: fold_simps list.set Ball_def insert_iff) metis
qed

lemma most_common_spec:
  assumes "m \<noteq> []" and "\<forall>e \<in> set m. 0 < snd e"
  shows "\<exists>n. (most_common m, n) \<in> set m \<and> (\<forall>e \<in> set m. beats (most_common m, n) e)"
proof -
  define r where "r = fold best_step m ([], 0)"
  have r: "r = ([], 0) \<or> r \<in> set m" "\<forall>e \<in> set m. beats r e"
    using best_step_fold [of m "([], 0)"] by (simp_all add: r_def)
  obtain e where e: "e \<in> set m" using assms(1) by (cases m) auto
  with r(2) assms(2) have "r \<noteq> ([], 0)" by (fastforce simp: beats_def)
  then have "r \<in> set m" using r(1) by blast
  moreover have "(most_common m, snd r) = r" by (simp add: most_common_best r_def)
  ultimately show ?thesis using r(2) by metis
qed

lemma most_common_perm:
  assumes "permuting ord" and "distinct (map fst m)" and "\<forall>e \<in> set m. 0 < snd e"
  shows "most_common (ord m) = most_common m"
proof (cases "m = []")
  case True
  then have "ord m = []" using permuting_mset [OF assms(1), of m] by simp
  with True show ?thesis by simp
next
  case False
  then have "ord m \<noteq> []" using permuting_set [OF assms(1), of m] by auto
  then obtain n where n: "(most_common (ord m), n) \<in> set m" "\<forall>e \<in> set m. beats (most_common (ord m), n) e"
    using most_common_spec [of "ord m"] assms(3) unfolding permuting_set [OF assms(1)] by blast
  obtain n' where n': "(most_common m, n') \<in> set m" "\<forall>e \<in> set m. beats (most_common m, n') e"
    using most_common_spec [OF False assms(3)] by blast
  have "beats (most_common (ord m), n) (most_common m, n')" "beats (most_common m, n') (most_common (ord m), n)"
    using n n' by blast+
  then show ?thesis by (auto simp: beats_def)
qed

text \<open>The accumulators of a failure group, in closed form.\<close>

lemma fold_group_add:
  "ga_occurrences (fold group_add xs a) = ga_occurrences a + int (length xs)"
  "ga_conclusions (fold group_add xs a) =
     fold (\<lambda>ws m. map_upsert (so_conclusion (ws_step ws)) 0 (\<lambda>n. n + 1) m) xs (ga_conclusions a)"
  "ga_pipelines (fold group_add xs a) =
     fold (\<lambda>ws m. map_upsert (ws_pipeline ws) () (\<lambda>u. u) m) xs (ga_pipelines a)"
  by (induction xs arbitrary: a) (simp_all add: group_add_def)

lemma group_conclusions:
  "ga_conclusions (fold group_add xs empty_group) =
     group_loop (\<lambda>ws. so_conclusion (ws_step ws)) 0 (\<lambda>_ n. n + 1) xs"
  by (simp add: fold_group_add group_loop_def empty_group_def)

lemma group_pipelines:
  "ga_pipelines (fold group_add xs empty_group) = group_loop ws_pipeline () (\<lambda>_ u. u) xs"
  by (simp add: fold_group_add group_loop_def empty_group_def)

lemma group_occurrences: "ga_occurrences (fold group_add xs empty_group) = int (length xs)"
  by (simp add: fold_group_add empty_group_def)

lemma count_loop_mem:
  "(k, n) \<in> set (group_loop key 0 (\<lambda>_ n. n + 1) xs) \<longleftrightarrow>
     k \<in> key ` set xs \<and> n = int (length (filter (\<lambda>x. key x = k) xs))"
  by (simp add: group_loop_mem fold_count)

lemma count_loop_pos: "\<forall>e \<in> set (group_loop key 0 (\<lambda>_ n. n + 1) xs). (0::int) < snd e"
  by (auto simp: count_loop_mem filter_empty_conv)

text \<open>A failure group, read off the failed steps of its name.\<close>

definition group_entry :: "(string \<Rightarrow> string list) \<Rightarrow> string \<times> window_step list \<Rightarrow> failure_group" where
  "group_entry U e =
     (let c = most_common (group_loop (\<lambda>ws. so_conclusion (ws_step ws)) 0 (\<lambda>_ n. n + 1) (snd e))
      in \<lparr> fg_step = fst e, fg_category = categorize_failure U (fst e) c, fg_conclusion = c,
           fg_occurrences = int (length (snd e)),
           fg_pipelines = sort_func by_ref (first_seen (map ws_pipeline (snd e))) \<rparr>)"

lemma failure_group_of_entry:
  assumes "orders_ok os"
  shows "failure_group_of os U (name, fold group_add xs empty_group) = group_entry U (name, xs)"
proof -
  have p: "permuting (or_conclusions os)" "permuting (or_refs os)"
    using assms by (simp_all add: orders_ok_def)
  let ?c = "group_loop (\<lambda>ws. so_conclusion (ws_step ws)) 0 (\<lambda>_ n. n + 1) xs"
  have "most_common (or_conclusions os ?c) = most_common ?c"
    using count_loop_pos by (intro most_common_perm [OF p(1)]) simp_all
  moreover have "sort_func by_ref (map fst (or_refs os (group_loop ws_pipeline () (\<lambda>_ u. u) xs)))
      = sort_func by_ref (map fst (group_loop ws_pipeline () (\<lambda>_ u. u) xs))"
    using p(2) by (intro sort_entries [where key = "\<lambda>r. r"] by_ref.comparator_axioms) (simp_all add: by_ref_eq_0)
  ultimately show ?thesis
    by (simp add: failure_group_of_def group_entry_def Let_def group_conclusions group_pipelines group_occurrences)
qed

definition named :: "string \<Rightarrow> window_step list \<Rightarrow> window_step list" where
  "named name = filter (\<lambda>ws. ws_name ws = name)"

lemma failure_groups_closed:
  assumes "orders_ok os"
  shows "failure_groups os U steps =
     sort_func by_occurrences
       (map (\<lambda>name. group_entry U (name, named name (failed_steps steps)))
         (first_seen (map ws_name (failed_steps steps))))"
proof -
  have p: "permuting (or_groups os)" using assms by (simp add: orders_ok_def)
  let ?m = "group_loop ws_name empty_group group_add (failed_steps steps)"
  have m: "map (failure_group_of os U) ?m =
      map (\<lambda>name. group_entry U (name, named name (failed_steps steps)))
        (first_seen (map ws_name (failed_steps steps)))"
    by (simp add: group_loop_closed failure_group_of_entry [OF assms] named_def)
  have "distinct (map fg_step (map (failure_group_of os U) ?m))"
    unfolding m by (simp add: comp_def group_entry_def Let_def)
  then have "sort_func by_occurrences (map (failure_group_of os U) (or_groups os ?m))
      = sort_func by_occurrences (map (failure_group_of os U) ?m)"
    using sort_entries [where key = fg_step and c = by_occurrences] by_occurrences.comparator_axioms
      by_occurrences_eq_0 p by blast
  then show ?thesis by (simp only: failure_groups_def m)
qed

lemma orders_ok_insertion: "orders_ok insertion_orders"
  by (simp add: orders_ok_def insertion_orders_def)

lemma groups_order: "orders_ok os \<Longrightarrow> failure_groups os U steps = failure_groups insertion_orders U steps"
  by (simp add: failure_groups_closed orders_ok_insertion)

lemma categories_order:
  assumes "orders_ok os"
  shows "category_breakdown os U steps = category_breakdown insertion_orders U steps"
proof -
  have p: "permuting (or_categories os)" using assms by (simp add: orders_ok_def)
  let ?m = "group_loop fg_category 0 (\<lambda>g n. n + fg_occurrences g) (failure_groups insertion_orders U steps)"
  let ?f = "\<lambda>t e. \<lparr> cc_category = fst e, cc_occurrences = snd e, cc_share = rate (snd e) t \<rparr>"
  have "distinct (map cc_category (map (?f t) ?m))" for t by (simp add: comp_def)
  then have "sort_func by_category (map (?f t) (or_categories os ?m)) = sort_func by_category (map (?f t) ?m)" for t
    using sort_entries [where key = cc_category and c = by_category] by_category.comparator_axioms by_category_eq_0 p
    by blast
  then show ?thesis
    by (simp add: category_breakdown_def Let_def groups_order [OF assms]) (simp add: insertion_orders_def)
qed

lemma fold_flaky_count:
  "fold (flaky_count active) es (a, b) =
     (a + sum_list (map (\<lambda>e. fst (flaky_count active e (0, 0))) es),
      b + sum_list (map (\<lambda>e. snd (flaky_count active e (0, 0))) es))"
  by (induction es arbitrary: a b) (simp_all add: flaky_count_def Let_def)

lemma flaky_ratio_order:
  assumes "orders_ok os"
  shows "flaky_step_ratio os steps active = flaky_step_ratio insertion_orders steps active"
proof -
  have p: "permuting (or_flaky os)" using assms by (simp add: orders_ok_def)
  have "fold (flaky_count active) (or_flaky os m) (0, 0) = fold (flaky_count active) m (0, 0)" for m
    unfolding fold_flaky_count by (simp add: sum_list_map_mset [OF permuting_mset [OF p]])
  then show ?thesis by (simp add: flaky_step_ratio_def insertion_orders_def)
qed

subsection \<open>Outages\<close>

definition failed_run :: "window_run \<Rightarrow> bool" where
  "failed_run w \<longleftrightarrow> is_failed (rr_conclusion (wr_run w))"

definition passed_run :: "window_run \<Rightarrow> bool" where
  "passed_run w \<longleftrightarrow> rr_conclusion (wr_run w) = ''success''"

definition finish :: "window_run \<Rightarrow> gotime" where
  "finish w = finished_at (wr_run w)"

text \<open>
  The recovered outages of runs in finishing order: from the first failure to the next
  success, then on from there.
\<close>

function recovered_outages :: "window_run list \<Rightarrow> (gotime \<times> gotime) list" where
  "recovered_outages ws =
     (case dropWhile (\<lambda>w. \<not> failed_run w) ws of
        [] \<Rightarrow> []
      | f # r \<Rightarrow>
          (case dropWhile (\<lambda>w. \<not> passed_run w) r of
             [] \<Rightarrow> []
           | g # r' \<Rightarrow> (finish f, finish g) # recovered_outages r'))"
  by pat_completeness auto
termination
proof (relation "measure length")
  fix ws f r g r'
  assume "dropWhile (\<lambda>w. \<not> failed_run w) ws = f # r" "dropWhile (\<lambda>w. \<not> passed_run w) r = g # r'"
  then have "length (f # r) \<le> length ws" "length (g # r') \<le> length r"
    by (metis length_dropWhile_le)+
  then show "(r', ws) \<in> measure length" by simp
qed simp

declare recovered_outages.simps [simp del]

definition closing :: "gotime option \<Rightarrow> window_run list \<Rightarrow> (gotime \<times> gotime) list" where
  "closing down ws =
     (case down of None \<Rightarrow> recovered_outages ws
      | Some t \<Rightarrow>
          (case dropWhile (\<lambda>w. \<not> passed_run w) ws of
             [] \<Rightarrow> [] | g # r' \<Rightarrow> (t, finish g) # recovered_outages r'))"

lemma not_both: "\<not> (failed_run w \<and> passed_run w)"
  by (auto simp: failed_run_def passed_run_def is_failed_def)

lemma closing_simps [go_simps]:
  "closing d [] = []"
  "closing None (w # ws) = (if failed_run w then closing (Some (finish w)) ws else closing None ws)"
  "closing (Some t) (w # ws) = (if passed_run w then (t, finish w) # closing None ws else closing (Some t) ws)"
  by (simp_all add: closing_def recovered_outages.simps [of "[]"] recovered_outages.simps [of "w # ws"]
      recovered_outages.simps [of ws] split: option.split)

definition outage_time :: "(gotime \<times> gotime) list \<Rightarrow> int" where
  "outage_time outs = sum_list (map (\<lambda>o'. time_sub (snd o') (fst o')) outs)"

lemma outage_fold:
  "in_int64 (ou_total s) \<Longrightarrow>
   ou_total (fold outage_step ws s) = wrap64 (ou_total s + outage_time (closing (ou_down s) ws)) \<and>
   ou_recoveries (fold outage_step ws s) = ou_recoveries s + int (length (closing (ou_down s) ws))"
proof (induction ws arbitrary: s)
  case Nil
  then show ?case by (simp add: go_simps outage_time_def wrap64_id)
next
  case (Cons w ws)
  have t: "in_int64 (ou_total (outage_step w s))"
    using Cons.prems by (simp add: outage_step_def Let_def wrap64_range split: option.split)
  show ?case
    using Cons.IH [OF t] wrap64_add
    by (cases "ou_down s")
      (simp_all add: outage_step_def Let_def go_simps outage_time_def failed_run_def passed_run_def finish_def add.assoc)
qed

definition outages_of :: "window_run list \<Rightarrow> (gotime \<times> gotime) list" where
  "outages_of ws = recovered_outages (sort_func by_finish ws)"

lemma fold_pipeline_outages:
  "in_int64 (ou_total s) \<Longrightarrow>
   ou_total (fold pipeline_outages es s) = wrap64 (ou_total s + sum_list (map (\<lambda>e. outage_time (outages_of (snd e))) es)) \<and>
   ou_recoveries (fold pipeline_outages es s) =
     ou_recoveries s + sum_list (map (\<lambda>e. int (length (outages_of (snd e)))) es)"
proof (induction es arbitrary: s)
  case Nil
  then show ?case by (simp add: wrap64_id)
next
  case (Cons e es)
  let ?s = "pipeline_outages e s"
  have s: "ou_total ?s = wrap64 (ou_total s + outage_time (outages_of (snd e)))"
      "ou_recoveries ?s = ou_recoveries s + int (length (outages_of (snd e)))"
    using outage_fold [of "s\<lparr>ou_down := None\<rparr>"] Cons.prems
    by (simp_all add: pipeline_outages_def closing_def outages_of_def)
  then have "in_int64 (ou_total ?s)" by (simp add: wrap64_range)
  from Cons.IH [OF this] show ?case
    using wrap64_add by (simp add: s add.assoc)
qed

definition pipeline_runs :: "pipeline_ref \<Rightarrow> window_run list \<Rightarrow> window_run list" where
  "pipeline_runs p runs = filter (\<lambda>w. wr_pipeline w = p) (concluded_runs runs)"

definition all_outages :: "window_run list \<Rightarrow> (gotime \<times> gotime) list" where
  "all_outages runs =
     concat (map (\<lambda>p. outages_of (pipeline_runs p runs)) (first_seen (map wr_pipeline (concluded_runs runs))))"

lemma runs_by_pipeline_closed:
  "runs_by_pipeline runs =
     map (\<lambda>p. (p, pipeline_runs p runs)) (first_seen (map wr_pipeline (concluded_runs runs)))"
  by (simp add: runs_by_pipeline_def group_loop_closed fold_append_singleton pipeline_runs_def)

lemma outage_time_concat:
  "outage_time (concat (map f xs)) = sum_list (map (\<lambda>x. outage_time (f x)) xs)"
  "int (length (concat (map f xs))) = sum_list (map (\<lambda>x. int (length (f x))) xs)"
  by (induction xs) (simp_all add: outage_time_def)

lemma closing_ordered:
  "sorted_wrt (\<lambda>a b. finish a \<le> finish b) ws \<Longrightarrow> (\<forall>t. d = Some t \<longrightarrow> (\<forall>w \<in> set ws. t \<le> finish w)) \<Longrightarrow>
   \<forall>o' \<in> set (closing d ws). fst o' \<le> snd o'"
proof (induction ws arbitrary: d)
  case (Cons w ws)
  have ws: "sorted_wrt (\<lambda>a b. finish a \<le> finish b) ws" using Cons.prems(1) by simp
  have "\<forall>o' \<in> set (closing None ws). fst o' \<le> snd o'"
    by (rule Cons.IH [OF ws]) simp
  moreover have "\<forall>o' \<in> set (closing (Some (finish w)) ws). fst o' \<le> snd o'"
    by (rule Cons.IH [OF ws]) (use Cons.prems(1) in simp)
  moreover have "\<forall>o' \<in> set (closing (Some t) ws). fst o' \<le> snd o'" if "d = Some t" for t
    by (rule Cons.IH [OF ws]) (use Cons.prems(2) that in simp)
  ultimately show ?case using Cons.prems(2) by (cases d) (auto simp: go_simps)
qed (simp add: go_simps)

lemma mean_time_is:
  assumes "orders_ok os"
  shows "mean_time_to_recovery os runs =
           (if all_outages runs = [] then None
            else Some (go_quot (wrap64 (outage_time (all_outages runs))) (int (length (all_outages runs)))))"
proof -
  have p: "permuting (or_mttr os)" using assms by (simp add: orders_ok_def)
  let ?m = "runs_by_pipeline runs" and ?o = "\<lparr> ou_total = 0, ou_recoveries = 0, ou_down = None \<rparr>"
  have t: "sum_list (map (\<lambda>e. outage_time (outages_of (snd e))) (or_mttr os ?m)) = outage_time (all_outages runs)"
    and n: "sum_list (map (\<lambda>e. int (length (outages_of (snd e)))) (or_mttr os ?m)) = int (length (all_outages runs))"
    by (simp_all add: sum_list_map_mset [OF permuting_mset [OF p]] runs_by_pipeline_closed all_outages_def
        outage_time_concat comp_def del: length_concat)
  show "mean_time_to_recovery os runs =
      (if all_outages runs = [] then None
       else Some (go_quot (wrap64 (outage_time (all_outages runs))) (int (length (all_outages runs)))))"
    using fold_pipeline_outages [of ?o "or_mttr os ?m"]
    by (simp add: mean_time_to_recovery_def Let_def t n in_int64_def min_int64_def max_int64_def)
qed

text \<open>
  C19: the mean time to recovery is the total length of the recovered outages of all
  pipelines over their number, and is absent when nothing recovered. An outage runs from
  the first failure to the next success of the same pipeline, by completion time, so its
  length is never negative; the order in which Go visits the pipelines does not matter.
\<close>

theorem mean_time_to_recovery_spec:
  assumes "orders_ok os"
  shows "mean_time_to_recovery os runs =
           (if all_outages runs = [] then None
            else Some (go_quot (wrap64 (outage_time (all_outages runs))) (int (length (all_outages runs))))) \<and>
         list_all (\<lambda>o'. fst o' \<le> snd o') (all_outages runs)"
proof
  show "mean_time_to_recovery os runs =
      (if all_outages runs = [] then None
       else Some (go_quot (wrap64 (outage_time (all_outages runs))) (int (length (all_outages runs)))))"
    using assms by (rule mean_time_is)
  have "\<forall>o' \<in> set (outages_of ws). fst o' \<le> snd o'" for ws
    using closing_ordered [of "sort_func by_finish ws" None] by_finish.sort_sorted [of ws]
    by (simp add: closing_def outages_of_def by_finish_def finish_def)
  then show "list_all (\<lambda>o'. fst o' \<le> snd o') (all_outages runs)"
    by (auto simp: all_outages_def list_all_iff)
qed

definition example_run :: "string \<Rightarrow> gotime \<Rightarrow> window_run" where
  "example_run conclusion t =
     \<lparr> wr_pipeline = example_ref,
       wr_run = \<lparr> rr_id = ''r'', rr_status = ''completed'', rr_conclusion = conclusion,
                  rr_started = None, rr_completed = Some t \<rparr> \<rparr>"

theorem mean_time_to_recovery_spec_witness:
  "mean_time_to_recovery (insertion_orders\<lparr>or_mttr := rev\<rparr>)
     [example_run ''success'' 70, example_run ''failure'' 10, example_run ''failure'' 30] = Some 60"
proof -
  have o1: "orders_ok (insertion_orders\<lparr>or_mttr := rev\<rparr>)"
    by (simp add: orders_ok_def insertion_orders_def)
  let ?r = "[example_run ''success'' 70, example_run ''failure'' 10, example_run ''failure'' 30]"
  have "all_outages ?r = [(10, 70)]"
    by (simp add: all_outages_def pipeline_runs_def concluded_runs_def example_run_def outages_of_def by_finish_def
        cmp_compare_def finished_at_def is_failed_def recovered_outages.simps failed_run_def passed_run_def finish_def)
  moreover have "go_quot (wrap64 (outage_time [(10, 70)])) 1 = 60" by code_simp
  ultimately show ?thesis
    using mean_time_to_recovery_spec [OF o1, of ?r] by simp
qed

subsection \<open>The whole overview\<close>

lemma mset_map_filter: "mset xs = mset ys \<Longrightarrow> mset (List.map_filter f xs) = mset (List.map_filter f ys)"
  by (simp add: map_filter_def mset_filter)

lemma marked_entry_key:
  "marked_entry active e = Some x \<Longrightarrow> (fs_pipeline x, fs_name x) = fst e"
  by (auto simp: marked_entry_def flaky_step_entry_def Let_def split: prod.splits option.splits if_splits)

lemma set_map_filter: "set (List.map_filter f xs) = {y. \<exists>x \<in> set xs. f x = Some y}"
  by (induction xs) (auto simp: List.map_filter_simps split: option.splits)

lemma distinct_map_map_filter:
  assumes "\<And>x y. f x = Some y \<Longrightarrow> key y = key' x" and "distinct (map key' xs)"
  shows "distinct (map key (List.map_filter f xs))"
  using assms(2)
proof (induction xs)
  case (Cons x xs)
  show ?case
  proof (cases "f x")
    case (Some y)
    have "key y \<noteq> key z" if z: "z \<in> set (List.map_filter f xs)" for z
    proof -
      obtain x' where "x' \<in> set xs" "f x' = Some z" using z by (auto simp: set_map_filter)
      then show ?thesis using assms(1) [OF Some] assms(1) [of x' z] Cons.prems by auto
    qed
    then show ?thesis using Some Cons by (auto simp: List.map_filter_simps)
  qed (use Cons in \<open>simp add: List.map_filter_simps\<close>)
qed (simp add: List.map_filter_simps)

lemma flaky_steps_order:
  assumes "orders_ok os"
  shows "flaky_steps os steps active = flaky_steps insertion_orders steps active"
proof -
  have p: "permuting (or_matrix os)" using assms by (simp add: orders_ok_def)
  let ?m = "completed_by_step steps"
  have d: "distinct (map fst ?m)" by (simp add: completed_by_step_def)
  have "sort_func by_flake_rate (List.map_filter (marked_entry active) (or_matrix os ?m))
      = sort_func by_flake_rate (List.map_filter (marked_entry active) ?m)"
  proof (rule by_flake_rate.sort_func_perm)
    show "mset (List.map_filter (marked_entry active) (or_matrix os ?m)) = mset (List.map_filter (marked_entry active) ?m)"
      by (rule mset_map_filter [OF permuting_mset [OF p]])
    fix a b
    assume "a \<in> set (List.map_filter (marked_entry active) (or_matrix os ?m))"
      and "b \<in> set (List.map_filter (marked_entry active) (or_matrix os ?m))" and c: "by_flake_rate a b = 0"
    then obtain x y where xy: "x \<in> set ?m" "y \<in> set ?m" "marked_entry active x = Some a" "marked_entry active y = Some b"
      by (auto simp: set_map_filter permuting_set [OF p])
    then have "fst x = fst y"
      using marked_entry_key by_flake_rate_eq_0 [OF c] by metis
    then have "x = y" using distinct_key_inj [OF d] xy by blast
    then show "a = b" using xy by simp
  qed
  then show ?thesis by (simp add: flaky_steps_def insertion_orders_def)
qed

text \<open>
  C20: the failure overview and the flaky-step list are determined by the stored runs,
  steps and marks: no figure, ranking or tie depends on the order in which Go iterates its
  maps.
\<close>

theorem insights_deterministic:
  assumes "orders_ok os"
  shows "insights_of os U window current prior steps active
           = insights_of insertion_orders U window current prior steps active \<and>
         flaky_steps os steps active = flaky_steps insertion_orders steps active"
  using assms mean_time_is [OF assms] mean_time_is [OF orders_ok_insertion]
  by (simp add: insights_of_def Let_def top_failing_order stage_order groups_order categories_order
      flaky_ratio_order flaky_steps_order split: prod.splits)

theorem insights_deterministic_witness:
  "insights_of (insertion_orders\<lparr>or_stages := rev, or_conclusions := rev\<rparr>) (\<lambda>_. []) (InsightWindow 1)
     [example_run ''failure'' 1] [] [\<lparr> ws_pipeline = example_ref, ws_step = example_occurrence ''test'' ''failure'' \<rparr>] []
   = insights_of insertion_orders (\<lambda>_. []) (InsightWindow 1)
     [example_run ''failure'' 1] [] [\<lparr> ws_pipeline = example_ref, ws_step = example_occurrence ''test'' ''failure'' \<rparr>] []"
  by (rule insights_deterministic [THEN conjunct1]) (simp add: orders_ok_def insertion_orders_def)

subsection \<open>The views agree\<close>

lemma sum_by_key:
  fixes f :: "'a \<Rightarrow> int"
  shows "distinct ks \<Longrightarrow> key ` set xs \<subseteq> set ks \<Longrightarrow>
     sum_list (map (\<lambda>k. sum_list (map f (filter (\<lambda>x. key x = k) xs))) ks) = sum_list (map f xs)"
proof (induction xs)
  case Nil
  then show ?case by (simp add: sum_list_0)
next
  case (Cons x xs)
  have "sum_list (map (\<lambda>k. sum_list (map f (filter (\<lambda>y. key y = k) (x # xs)))) ks)
      = sum_list (map (\<lambda>k. if key x = k then f x else 0) ks)
        + sum_list (map (\<lambda>k. sum_list (map f (filter (\<lambda>y. key y = k) xs))) ks)"
    unfolding sum_list_addf [symmetric] by (rule arg_cong [where f = sum_list]) auto
  moreover have "sum_list (map (\<lambda>k. if key x = k then f x else 0) ks) = f x"
    using Cons.prems by (simp add: sum_list_distinct_conv_sum_set sum.delta')
  ultimately show ?case using Cons by simp
qed

lemma length_by_key:
  "distinct ks \<Longrightarrow> key ` set xs \<subseteq> set ks \<Longrightarrow>
   sum_list (map (\<lambda>k. int (length (filter (\<lambda>x. key x = k) xs))) ks) = int (length xs)"
  using sum_by_key [where f = "\<lambda>_. 1" and ks = ks and key = key and xs = xs] by (simp add: sum_list_triv)

lemma failed_by_name:
  "sum_list (map (\<lambda>name. int (length (named name fs))) (first_seen (map ws_name fs))) = int (length fs)"
  unfolding named_def by (rule length_by_key) simp_all

lemma stage_distribution_closed:
  assumes "orders_ok os"
  shows "stage_distribution os steps =
     sort_func by_failures
       (map (\<lambda>name. \<lparr> sf_step = name, sf_failures = int (length (named name (failed_steps steps))),
                      sf_share = rate (int (length (named name (failed_steps steps)))) (int (length (failed_steps steps))) \<rparr>)
         (first_seen (map ws_name (failed_steps steps))))"
proof -
  let ?fs = "failed_steps steps"
  let ?m = "group_loop ws_name (0::int) (\<lambda>_ n. n + 1) ?fs"
  have m: "?m = map (\<lambda>name. (name, int (length (named name ?fs)))) (first_seen (map ws_name ?fs))"
    by (simp add: group_loop_closed fold_count named_def)
  have "fold (\<lambda>e t. t + snd e) ?m 0 = sum_list (map snd ?m)"
    by (rule fold_add_permuting [OF permuting_id])
  also have "\<dots> = int (length ?fs)"
    unfolding m using failed_by_name [of ?fs] by (simp add: comp_def)
  finally show ?thesis
    by (simp add: stage_order [OF assms] stage_distribution_def [of insertion_orders] Let_def)
      (simp add: insertion_orders_def m comp_def)
qed

lemma category_breakdown_sum:
  assumes "orders_ok os"
  shows "sum_list (map cc_occurrences (category_breakdown os U steps)) = int (length (failed_steps steps))"
    and "c \<in> set (category_breakdown os U steps) \<Longrightarrow>
      cc_share c = rate (cc_occurrences c) (int (length (failed_steps steps)))"
proof -
  let ?gs = "failure_groups os U steps"
  have g: "sum_list (map fg_occurrences ?gs) = int (length (failed_steps steps))"
    unfolding failure_groups_closed [OF assms]
    using failed_by_name [of "failed_steps steps"] by (simp add: comp_def group_entry_def Let_def)
  have p: "permuting (or_categories os)" using assms by (simp add: orders_ok_def)
  have f: "fold (\<lambda>g n. n + fg_occurrences g) xs a = a + sum_list (map fg_occurrences xs)" for xs a
    by (induction xs arbitrary: a) simp_all
  let ?m = "group_loop fg_category 0 (\<lambda>g n. n + fg_occurrences g) ?gs"
  have "sum_list (map snd ?m) = sum_list (map fg_occurrences ?gs)"
    using sum_by_key [of "first_seen (map fg_category ?gs)" fg_category ?gs fg_occurrences]
    by (simp add: group_loop_closed comp_def f)
  then show "sum_list (map cc_occurrences (category_breakdown os U steps)) = int (length (failed_steps steps))"
    by (simp add: category_breakdown_def Let_def comp_def sum_list_map_mset [OF permuting_mset [OF p]] g)
  show "c \<in> set (category_breakdown os U steps) \<Longrightarrow>
      cc_share c = rate (cc_occurrences c) (int (length (failed_steps steps)))"
    by (auto simp: category_breakdown_def Let_def f g)
qed

text \<open>
  The three failure views count the same thing. The stage distribution and the failure
  groups list the same steps with the same counts in the same order; their counts, and
  those of the category breakdown, add up to the failed step executions of the window; and
  every share is taken over that total.
\<close>

lemma failure_views_agree:
  assumes "orders_ok os"
  shows "map (\<lambda>s. (sf_step s, sf_failures s)) (stage_distribution os steps)
           = map (\<lambda>g. (fg_step g, fg_occurrences g)) (failure_groups os U steps) \<and>
         sum_list (map sf_failures (stage_distribution os steps)) = int (length (failed_steps steps)) \<and>
         sum_list (map cc_occurrences (category_breakdown os U steps)) = int (length (failed_steps steps)) \<and>
         list_all (\<lambda>s. sf_share s = rate (sf_failures s) (int (length (failed_steps steps))))
           (stage_distribution os steps) \<and>
         list_all (\<lambda>c. cc_share c = rate (cc_occurrences c) (int (length (failed_steps steps))))
           (category_breakdown os U steps)"
proof -
  let ?c = "\<lambda>a b :: string \<times> int. cmp_or [cmp_compare (snd b) (snd a), cmp_compare (fst a) (fst b)]"
  have "map (\<lambda>s. (sf_step s, sf_failures s)) (sort_func by_failures xs)
      = sort_func ?c (map (\<lambda>s. (sf_step s, sf_failures s)) xs)" for xs
    by (rule map_sort_func) (simp add: by_failures_def)
  moreover have "map (\<lambda>g. (fg_step g, fg_occurrences g)) (sort_func by_occurrences xs)
      = sort_func ?c (map (\<lambda>g. (fg_step g, fg_occurrences g)) xs)" for xs
    by (rule map_sort_func) (simp add: by_occurrences_def)
  ultimately have "map (\<lambda>s. (sf_step s, sf_failures s)) (stage_distribution os steps)
      = map (\<lambda>g. (fg_step g, fg_occurrences g)) (failure_groups os U steps)"
    unfolding stage_distribution_closed [OF assms] failure_groups_closed [OF assms]
    by (simp add: comp_def group_entry_def Let_def)
  moreover have "sum_list (map sf_failures (stage_distribution os steps)) = int (length (failed_steps steps))"
    unfolding stage_distribution_closed [OF assms]
    using failed_by_name [of "failed_steps steps"] by (simp add: comp_def)
  moreover have "list_all (\<lambda>s. sf_share s = rate (sf_failures s) (int (length (failed_steps steps))))
      (stage_distribution os steps)"
    unfolding stage_distribution_closed [OF assms] by (simp add: list_all_iff)
  ultimately show ?thesis
    using category_breakdown_sum [OF assms] by (simp add: list_all_iff)
qed

subsection \<open>Flaky steps\<close>

definition pipeline_occurrences :: "pipeline_ref \<Rightarrow> window_step list \<Rightarrow> step_occurrence list" where
  "pipeline_occurrences p steps = map ws_step (filter (\<lambda>ws. ws_pipeline ws = p) steps)"

lemma length_filter_sort_func: "length (filter P (sort_func c xs)) = length (filter P xs)"
  by (metis mset_filter mset_sort_func size_mset)

text \<open>
  The flaky entry of a step's completed occurrences, against the aggregated step of all of
  its occurrences.
\<close>

lemma flaky_entry_of_step:
  assumes "s \<in> set (aggregate_steps occs)"
  shows "map_option (\<lambda>e. (fs_pipeline e, fs_name e, fs_rate e))
           (flaky_step_entry p (sp_name s) (filter completed (occurrences_of (sp_name s) occs)))
         = (if sp_flaky s then Some (p, sp_name s, sp_failure_rate s) else None)"
proof -
  let ?mine = "occurrences_of (sp_name s) occs"
  have f: "step_figures ?mine s" using assms by (rule aggregate_steps_mem)
  let ?sorted = "sort_func (\<lambda>a b. started_at_compare (so_run_started a) (so_run_started b)) (filter completed ?mine)"
  have w: "filter (\<lambda>x. so_conclusion x = c) (filter completed xs) = filter (completed_with c) xs" for c xs
    by (induction xs) (auto simp: completed_with_def)
  have len: "length (filter (\<lambda>x. so_conclusion x = c) ?sorted) = length (filter (completed_with c) ?mine)" for c
    unfolding length_filter_sort_func w ..
  have none: "filter (\<lambda>x. so_conclusion x = c) ?sorted = [] \<longleftrightarrow> \<not> list_ex (completed_with c) ?mine" for c
  proof -
    have "filter (\<lambda>x. so_conclusion x = c) ?sorted = [] \<longleftrightarrow> length (filter (\<lambda>x. so_conclusion x = c) ?sorted) = 0"
      by (simp only: length_0_conv)
    then show ?thesis unfolding len by (simp add: filter_empty_conv list_ex_iff)
  qed
  have "sp_flaky s = (list_ex (completed_with ''success'') ?mine \<and> list_ex (completed_with ''failure'') ?mine)"
    and "sp_failure_rate s = rate (int (length (filter (completed_with ''failure'') ?mine))) (int (length (filter completed ?mine)))"
    using f by (simp_all add: step_figures_def)
  then show ?thesis
    by (simp add: flaky_step_entry_def Let_def none len)
qed

lemma completed_by_step_mem:
  "((p, name), l) \<in> set (completed_by_step steps) \<longleftrightarrow>
     l = filter completed (occurrences_of name (pipeline_occurrences p steps)) \<and> l \<noteq> []"
proof -
  have f: "fold (\<lambda>ws l. l @ [ws_step ws]) xs l = l @ map ws_step xs" for xs l
    by (induction xs arbitrary: l) simp_all
  let ?done = "filter (\<lambda>ws. so_status (ws_step ws) = ''completed'') steps"
  have l: "map ws_step (filter (\<lambda>ws. (ws_pipeline ws, ws_name ws) = (p, name)) ?done)
      = filter completed (occurrences_of name (pipeline_occurrences p steps))"
    by (induction steps) (auto simp: occurrences_of_def pipeline_occurrences_def completed_def ws_name_def)
  have "(p, name) \<in> (\<lambda>ws. (ws_pipeline ws, ws_name ws)) ` set ?done \<longleftrightarrow>
      map ws_step (filter (\<lambda>ws. (ws_pipeline ws, ws_name ws) = (p, name)) ?done) \<noteq> []"
    by (auto simp: filter_empty_conv)
  then show ?thesis
    unfolding l by (auto simp: completed_by_step_def group_loop_mem f l [simplified])
qed

lemma marked_entry_figures:
  "map_option (\<lambda>x. (fs_pipeline x, fs_name x, fs_rate x)) (marked_entry active ((p, name), l))
   = map_option (\<lambda>x. (fs_pipeline x, fs_name x, fs_rate x)) (flaky_step_entry p name l)"
  by (auto simp: marked_entry_def split: option.split)

lemma flaky_entry_Nil: "flaky_step_entry p name [] = None"
  by (simp add: flaky_step_entry_def)

lemma flaky_steps_mem:
  assumes "permuting (or_matrix os)"
  shows "x \<in> (\<lambda>e. (fs_pipeline e, fs_name e, fs_rate e)) ` set (flaky_steps os steps active) \<longleftrightarrow>
    (\<exists>p name. Some x = map_option (\<lambda>e. (fs_pipeline e, fs_name e, fs_rate e))
       (flaky_step_entry p name (filter completed (occurrences_of name (pipeline_occurrences p steps)))))"
proof -
  let ?k = "\<lambda>e. (fs_pipeline e, fs_name e, fs_rate e)" and ?m = "completed_by_step steps"
  have M: "set (flaky_steps os steps active) = {y. \<exists>e \<in> set ?m. marked_entry active e = Some y}"
    by (simp add: flaky_steps_def set_map_filter permuting_set [OF assms])
  have E: "Some x = map_option ?k z \<longleftrightarrow> (\<exists>y. z = Some y \<and> x = ?k y)" for z
    by (cases z) auto
  have N: "l \<noteq> []" if "Some x = map_option ?k (flaky_step_entry p name l)" for p name l
    using that flaky_entry_Nil by (cases l) auto
  have "x \<in> ?k ` set (flaky_steps os steps active) \<longleftrightarrow> (\<exists>e \<in> set ?m. Some x = map_option ?k (marked_entry active e))"
    unfolding M E image_def by blast
  also have "\<dots> \<longleftrightarrow> (\<exists>p name l. ((p, name), l) \<in> set ?m \<and> Some x = map_option ?k (flaky_step_entry p name l))"
    unfolding Bex_def split_paired_Ex marked_entry_figures ..
  also have "\<dots> \<longleftrightarrow> (\<exists>p name. Some x = map_option ?k (flaky_step_entry p name
      (filter completed (occurrences_of name (pipeline_occurrences p steps)))))"
    using N unfolding completed_by_step_mem by blast
  finally show ?thesis .
qed

lemma flaky_entry_of_name:
  "Some x = map_option (\<lambda>e. (fs_pipeline e, fs_name e, fs_rate e))
     (flaky_step_entry p name (filter completed (occurrences_of name occs))) \<longleftrightarrow>
   (\<exists>s \<in> set (aggregate_steps occs). sp_name s = name \<and> sp_flaky s \<and> x = (p, name, sp_failure_rate s))"
proof (cases "name \<in> so_name ` set occs")
  case True
  then obtain s where s: "s \<in> set (aggregate_steps occs)" "sp_name s = name"
    using aggregate_steps_names(2) by (metis imageE)
  have "s' = s" if "s' \<in> set (aggregate_steps occs)" "sp_name s' = name" for s'
    using distinct_key_inj [OF aggregate_steps_names(1)] s that by metis
  then have "(\<exists>s \<in> set (aggregate_steps occs). sp_name s = name \<and> sp_flaky s \<and> x = (p, name, sp_failure_rate s)) \<longleftrightarrow>
      sp_flaky s \<and> x = (p, name, sp_failure_rate s)"
    using s by blast
  moreover note flaky_entry_of_step [OF s(1), of p, unfolded s(2)]
  ultimately show ?thesis by (simp only: split: if_splits) auto
next
  case False
  then have "occurrences_of name occs = []" by (auto simp: occurrences_of_def filter_empty_conv)
  then show ?thesis
    using False aggregate_steps_names(2) [of occs] by (auto simp: flaky_entry_Nil)
qed

text \<open>
  The cross-pipeline flaky list shows exactly the steps the per-pipeline step lists
  call flaky, with the same failure rate, once each, ranked by flake rate; the two
  computations, one over completed occurrences and one over all of them, cannot disagree.
\<close>

lemma flaky_steps_agree:
  assumes "orders_ok os"
  shows "(\<lambda>e. (fs_pipeline e, fs_name e, fs_rate e)) ` set (flaky_steps os steps active) =
           {(p, sp_name s, sp_failure_rate s) | p s.
              s \<in> set (aggregate_steps (pipeline_occurrences p steps)) \<and> sp_flaky s} \<and>
         distinct (map (\<lambda>e. (fs_pipeline e, fs_name e)) (flaky_steps os steps active)) \<and>
         sorted_wrt (\<lambda>a b. fs_rate b \<le> fs_rate a) (flaky_steps os steps active)"
proof -
  let ?k = "\<lambda>e. (fs_pipeline e, fs_name e, fs_rate e)"
  have p: "permuting (or_matrix os)" using assms by (simp add: orders_ok_def)
  have "?k ` set (flaky_steps os steps active) =
      {(p, sp_name s, sp_failure_rate s) | p s.
         s \<in> set (aggregate_steps (pipeline_occurrences p steps)) \<and> sp_flaky s}"
    by (intro set_eqI) (auto simp: flaky_steps_mem [OF p] flaky_entry_of_name)
  moreover have "distinct (map (\<lambda>e. (fs_pipeline e, fs_name e)) (flaky_steps os steps active))"
    unfolding flaky_steps_def distinct_map_sort_func
    by (rule distinct_map_map_filter [where key' = fst])
      (simp_all add: marked_entry_key permuting_distinct [OF p] completed_by_step_def)
  moreover have "by_flake_rate a b \<le> 0 \<Longrightarrow> fs_rate b \<le> fs_rate a" for a b
    by (auto simp: by_flake_rate_def cmp_compare_def split: if_splits)
  then have "sorted_wrt (\<lambda>a b. fs_rate b \<le> fs_rate a) (flaky_steps os steps active)"
    unfolding flaky_steps_def by (intro sorted_wrt_mono_rel [OF _ by_flake_rate.sort_sorted])
  ultimately show ?thesis by blast
qed

text \<open>
  C21: the different views of the same steps agree. The stage distribution and the failure groups
  list the same steps with the same counts in the same order; their counts, and those of the
  category breakdown, add up to the failed step executions of the window, over which every share
  is taken. The cross-pipeline flaky list shows exactly the steps the per-pipeline step lists call
  flaky, with the same failure rate, once each and ranked by it; the two computations, one over
  completed occurrences and one over all of them, cannot disagree.
\<close>

theorem step_views_agree:
  assumes "orders_ok os"
  shows "(map (\<lambda>s. (sf_step s, sf_failures s)) (stage_distribution os steps)
           = map (\<lambda>g. (fg_step g, fg_occurrences g)) (failure_groups os U steps) \<and>
         sum_list (map sf_failures (stage_distribution os steps)) = int (length (failed_steps steps)) \<and>
         sum_list (map cc_occurrences (category_breakdown os U steps)) = int (length (failed_steps steps)) \<and>
         list_all (\<lambda>s. sf_share s = rate (sf_failures s) (int (length (failed_steps steps))))
           (stage_distribution os steps) \<and>
         list_all (\<lambda>c. cc_share c = rate (cc_occurrences c) (int (length (failed_steps steps))))
           (category_breakdown os U steps)) \<and>
         (\<lambda>e. (fs_pipeline e, fs_name e, fs_rate e)) ` set (flaky_steps os steps active) =
           {(p, sp_name s, sp_failure_rate s) | p s.
              s \<in> set (aggregate_steps (pipeline_occurrences p steps)) \<and> sp_flaky s} \<and>
         distinct (map (\<lambda>e. (fs_pipeline e, fs_name e)) (flaky_steps os steps active)) \<and>
         sorted_wrt (\<lambda>a b. fs_rate b \<le> fs_rate a) (flaky_steps os steps active)"
  by (intro conjI [OF failure_views_agree [OF assms] flaky_steps_agree [OF assms]])

theorem step_views_agree_witness:
  "let steps = [\<lparr> ws_pipeline = example_ref, ws_step = example_occurrence ''test'' ''failure'' \<rparr>,
       \<lparr> ws_pipeline = example_ref, ws_step = example_occurrence ''test'' ''success'' \<rparr>]
   in sum_list (map sf_failures (stage_distribution (insertion_orders\<lparr>or_stages := rev\<rparr>) steps)) = int (length (failed_steps steps)) \<and>
     distinct (map (\<lambda>e. (fs_pipeline e, fs_name e)) (flaky_steps (insertion_orders\<lparr>or_stages := rev\<rparr>) steps [])) \<and>
     length (failed_steps steps) = 1 \<and> list_ex sp_flaky (aggregate_steps (map ws_step steps))"
proof -
  have "orders_ok (insertion_orders\<lparr>or_stages := rev\<rparr>)"
    by (simp add: orders_ok_def insertion_orders_def)
  note agree = step_views_agree [OF this,
      of "[\<lparr> ws_pipeline = example_ref, ws_step = example_occurrence ''test'' ''failure'' \<rparr>,
        \<lparr> ws_pipeline = example_ref, ws_step = example_occurrence ''test'' ''success'' \<rparr>]" _ "[]"]
  show ?thesis unfolding Let_def
    by (intro conjI agree [THEN conjunct1, THEN conjunct2, THEN conjunct1]
      agree [THEN conjunct2, THEN conjunct2, THEN conjunct1]) code_simp+
qed

end
