(* ===== verification/MetricsOps.thy ===== *)
theory MetricsOps
  imports MetricsStore InsightsFacts
begin

text \<open>
  The metrics service over the SQLite adapter: what its operations return and change. The
  facts come from the locale \<open>metrics_store\<close> through its interpretation \<open>sql\<close>.
\<close>

subsection \<open>Reading changes nothing\<close>

text \<open>
  None of the eleven read operations of the metrics service changes the stored data,
  whatever they return and whichever database call fails.
\<close>

theorem metrics_reads_change_nothing:
  "w_db (snd (list_pipelines sql_mstore win flt w)) = w_db w \<and>
   w_db (snd (get_pipeline sql_mstore i win w)) = w_db w \<and>
   w_db (snd (get_pipeline_steps sql_mstore i win w)) = w_db w \<and>
   w_db (snd (list_flaky_runs sql_mstore i name win w)) = w_db w \<and>
   w_db (snd (get_run_steps sql_mstore i w)) = w_db w \<and>
   w_db (snd (list_unhealthy_steps sql_mstore win limit offset w)) = w_db w \<and>
   w_db (snd (get_repo_usage sql_mstore repo win w)) = w_db w \<and>
   w_db (snd (get_failure_insights sql_mstore os U now iw iflt w)) = w_db w \<and>
   w_db (snd (list_flaky_steps sql_mstore os now iw iflt limit offset w)) = w_db w \<and>
   w_db (snd (list_branches sql_mstore now iw iflt w)) = w_db w \<and>
   w_db (snd (list_runs sql_mstore rflt w)) = w_db w"
  by (intro conjI keeps_all_db sql.service_reads)

subsection \<open>Marks\<close>

text \<open>
  C23: the life of a quarantine mark. After a successful \<open>QuarantineStep\<close> at \<open>now\<close> the
  mark is in force at every time before \<open>now\<close> plus thirty days, with the given note, and
  no longer after that; a mark of any other step is as before, and the tables keep their
  integrity. The note has at most 500 characters.
\<close>

theorem quarantine_lifecycle:
  assumes "run_tables_ok (w_db w)"
    and "quarantine_step sql_mstore i name note now w = (Inr q, w1)"
    and "w_db w2 = w_db w1" and "active_quarantines sql_mstore t w2 = (Inr act, w3)"
    and "active_quarantines sql_mstore t w = (Inr before, w0)"
  shows "run_tables_ok (w_db w1) \<and> rune_count note \<le> 500 \<and>
     (\<exists>ref. parse_pipeline_id i = Inr ref \<and>
        map_of act = (map_of before)(\<lparr> qk_pipeline = ref, qk_step = name \<rparr> :=
          (if t < now + 30 * 24 * hours
           then Some \<lparr> qn_note = note, qn_at = now, qn_expires = now + 30 * 24 * hours \<rparr> else None)))"
proof -
  obtain ref where ref: "parse_pipeline_id i = Inr ref" "rune_count note \<le> max_quarantine_note"
    and q: "q = \<lparr> qn_note = note, qn_at = now, qn_expires = now + quarantine_duration \<rparr>"
    and m: "quarantine_marks (w_db w1) = (quarantine_marks (w_db w))(\<lparr> qk_pipeline = ref, qk_step = name \<rparr> := Some q)"
    using sql.quarantine_step_marks [OF assms(1,2)] by blast
  have "keeps run_tables_ok (quarantine_step sql_mstore i name note now)"
    unfolding quarantine_step_def
    by (auto intro!: keeps_intros sql.keeps_known_pipeline sql.keeps_inv_quarantine)
  then have ok: "run_tables_ok (w_db w1)" using assms(1,2) keepsD by fastforce
  have act: "map_of act k = (case quarantine_marks (w_db w1) k of
      None \<Rightarrow> None | Some q \<Rightarrow> if t < qn_expires q then Some q else None)" for k
    using sql.active_is [of w2 t act w3 k] assms(3,4) ok by (simp add: active_quarantines_def)
  have before: "map_of before k = (case quarantine_marks (w_db w) k of
      None \<Rightarrow> None | Some q \<Rightarrow> if t < qn_expires q then Some q else None)" for k
    using sql.active_is [of w t before w0 k] assms(1,5) by (simp add: active_quarantines_def)
  have "map_of act = (map_of before)(\<lparr> qk_pipeline = ref, qk_step = name \<rparr> :=
      (if t < now + 30 * 24 * hours
       then Some \<lparr> qn_note = note, qn_at = now, qn_expires = now + 30 * 24 * hours \<rparr> else None))"
    by (rule ext) (simp add: act before m q quarantine_duration_def)
  with ok ref show ?thesis by (auto simp: max_quarantine_note_def)
qed

definition example_world :: world where
  "example_world = \<lparr> w_db = empty_db\<lparr>
       t_repos := [\<lparr> rp_id = ''a'', rp_forge = ''github'', rp_identifier = ''o/n'', rp_instance = None,
         rp_token_enc = [], rp_token_masked = [], rp_webhook_secret = [], rp_status = ''active'',
         rp_status_reason = None, rp_created_at = 0, rp_etag = [] \<rparr>],
       t_runs := [\<lparr> ru_id = ''r'', ru_repo = ''a'', ru_forge_run = ''1'', ru_pipeline = ''ci'',
         ru_status = ''in_progress'', ru_conclusion = None, ru_started = Some 5, ru_completed = None,
         ru_url = [], ru_branch = None, ru_sha = None, ru_message = None, ru_actor = None \<rparr>] \<rparr>,
     w_pos = 0, w_env = quiet_env, w_limits = [], w_ready = None \<rparr>"

lemma example_world_ok: "run_tables_ok (w_db example_world)"
  by code_simp

theorem quarantine_lifecycle_witness:
  "run_tables_ok (w_db (snd (quarantine_step sql_mstore (pipeline_id example_ref) ''test'' ''n'' 7 example_world))) \<and>
   fst (quarantine_step sql_mstore (pipeline_id example_ref) ''test'' ''n'' 7 example_world) =
     Inr \<lparr> qn_note = ''n'', qn_at = 7, qn_expires = 7 + 30 * 24 * hours \<rparr>"
proof -
  let ?s = "quarantine_step sql_mstore (pipeline_id example_ref) ''test'' ''n'' 7 example_world"
  let ?q = "\<lparr> qn_note = ''n'', qn_at = 7, qn_expires = 7 + 30 * 24 * hours \<rparr>"
  have 1: "fst ?s = Inr ?q" by code_simp
  then have s: "?s = (Inr ?q, snd ?s)" by (metis prod.collapse)
  have "fst (active_quarantines sql_mstore 8 (snd ?s)) = Inr [(\<lparr> qk_pipeline = example_ref, qk_step = ''test'' \<rparr>, ?q)]"
    by code_simp
  then have a: "active_quarantines sql_mstore 8 (snd ?s) =
      (Inr [(\<lparr> qk_pipeline = example_ref, qk_step = ''test'' \<rparr>, ?q)], snd (active_quarantines sql_mstore 8 (snd ?s)))"
    by (metis prod.collapse)
  have "fst (active_quarantines sql_mstore 8 example_world) = Inr []" by code_simp
  then have b: "active_quarantines sql_mstore 8 example_world =
      (Inr [], snd (active_quarantines sql_mstore 8 example_world))"
    by (metis prod.collapse)
  show ?thesis
    using quarantine_lifecycle [OF example_world_ok s refl a b] 1 by blast
qed

subsection \<open>Pages of pipelines\<close>

interpretation by_repo_name: comparator by_repo_name
  unfolding by_repo_name_def by (intro comparator_intros)

lemma page_extra:
  assumes "0 < limit" and "limit \<le> max_int64" and "int (length xs) \<le> max_int64"
  shows "cut_extra limit (sql_limit (wrap64 (limit + 1)) (sql_offset offset xs))
     = (take (nat limit) (drop (nat offset) xs), limit < int (length (drop (nat offset) xs)))"
proof (cases "limit = max_int64")
  case True
  have w: "wrap64 (max_int64 + 1) = min_int64" by code_simp
  have "\<not> max_int64 < int (length (drop (nat offset) xs))" using assms(3) by simp
  moreover have "take (nat max_int64) (drop (nat offset) xs) = drop (nat offset) xs"
    using assms(3) by (intro take_all) (simp add: max_int64_def)
  ultimately show ?thesis
    using True by (simp add: w cut_extra_def sql_limit_def sql_offset_def min_int64_def)
next
  case False
  then have "wrap64 (limit + 1) = limit + 1"
    using assms by (intro wrap64_id) (simp add: in_int64_def min_int64_def)
  moreover have "nat (limit + 1) = Suc (nat limit)" using assms(1) by simp
  ultimately show ?thesis
    using assms(1)
    by (auto simp: cut_extra_def sql_limit_def sql_offset_def min_def not_less le_nat_iff intro!: take_all [symmetric])
qed

lemma distinct_sort_func: "distinct (sort_func c xs) \<longleftrightarrow> distinct xs"
  using distinct_map_sort_func [of id] by simp

text \<open>
  The pipeline list of the store. It lists each pipeline with recorded runs in the
  requested repository and forge once, by repository then name; a page is the slice of
  that list at the offset, and \<open>hasMore\<close> says exactly whether something follows it.
\<close>

lemma sql_list_pipelines_page:
  fixes flt :: pipeline_filter
  defines "every \<equiv> \<lambda>d. select_pipelines (flt\<lparr>pf_limit := 0\<rparr>) d"
  assumes "sql_list_pipelines flt w = (Inr (refs, has_more), w')"
    and "pf_limit flt \<le> max_int64" and "int (length (every (w_db w))) \<le> max_int64"
  shows "refs = (if pf_limit flt \<le> 0 then every (w_db w)
                 else take (nat (pf_limit flt)) (drop (nat (pf_offset flt)) (every (w_db w)))) \<and>
         (has_more \<longleftrightarrow> 0 < pf_limit flt \<and> pf_limit flt < int (length (drop (nat (pf_offset flt)) (every (w_db w))))) \<and>
         distinct (every (w_db w)) \<and> sorted_wrt (\<lambda>a b. by_repo_name a b \<le> 0) (every (w_db w)) \<and>
         set (every (w_db w)) =
           ref_of ` {r \<in> set (t_runs (w_db w)). run_scope (w_db w) (pf_repo flt) (pf_forge flt) [] r}"
proof -
  let ?d = "w_db w"
  have every: "every ?d = sort_func by_repo_name
      (first_seen (map ref_of (filter (run_scope ?d (pf_repo flt) (pf_forge flt) []) (t_runs ?d))))"
    by (simp add: every_def select_pipelines_def)
  have "cut_extra (pf_limit flt) (select_pipelines flt ?d) = (refs, has_more)"
    using assms(2) by (auto simp: sql_list_pipelines_def bindE_eq_Inr dest: queryE_Inr)
  moreover have "select_pipelines flt ?d = (if 0 < pf_limit flt
      then sql_limit (wrap64 (pf_limit flt + 1)) (sql_offset (pf_offset flt) (every ?d)) else every ?d)"
    by (simp add: select_pipelines_def every)
  ultimately have "(refs, has_more) = (if pf_limit flt \<le> 0 then (every ?d, False)
      else (take (nat (pf_limit flt)) (drop (nat (pf_offset flt)) (every ?d)),
            pf_limit flt < int (length (drop (nat (pf_offset flt)) (every ?d)))))"
    using page_extra [OF _ assms(3,4), of "pf_offset flt"] by (auto simp: cut_extra_def split: if_splits)
  moreover have "distinct (every ?d)" "sorted_wrt (\<lambda>a b. by_repo_name a b \<le> 0) (every ?d)"
    unfolding every distinct_sort_func by (simp_all add: by_repo_name.sort_sorted)
  moreover have "set (every ?d) = ref_of ` {r \<in> set (t_runs ?d). run_scope ?d (pf_repo flt) (pf_forge flt) [] r}"
    unfolding every by simp
  ultimately show ?thesis by (auto split: if_splits)
qed

lemma wrap64_le: "min_int64 \<le> x \<Longrightarrow> wrap64 x \<le> x"
proof -
  assume "min_int64 \<le> x"
  then have "0 \<le> x + 9223372036854775808" by (simp add: min_int64_def)
  then have "(x + 9223372036854775808) mod 18446744073709551616 \<le> x + 9223372036854775808"
    by (rule zmod_le_nonneg_dividend)
  then show ?thesis by (simp add: wrap64_def)
qed

lemma paginate_slice:
  assumes "paginate xs limit offset = Some (page, has_more)"
  shows "\<exists>m n. page = take n (drop m xs) \<and> (limit \<le> 0 \<or> int n \<le> limit)"
proof (cases "limit \<le> 0")
  case True
  then have "page = drop (nat (min (max offset 0) (int (length xs)))) xs"
    using assms by (auto simp: paginate_def Let_def go_slice_def split: if_splits)
  then have "page = take (length xs) (drop (nat (min (max offset 0) (int (length xs)))) xs)" by simp
  with True show ?thesis by blast
next
  case False
  let ?o = "min (max offset 0) (int (length xs))"
  let ?e = "min (wrap64 (?o + limit)) (int (length xs))"
  have "page = take (nat (?e - ?o)) (drop (nat ?o) xs)" and "?o \<le> ?e"
    using assms False by (auto simp: paginate_def Let_def go_slice_def split: if_splits)
  moreover have "wrap64 (?o + limit) \<le> ?o + limit"
    using False by (intro wrap64_le) (simp add: min_int64_def)
  then have "int (nat (?e - ?o)) \<le> limit" using False by linarith
  ultimately show ?thesis by blast
qed

definition summary_of :: "pipeline_ref \<Rightarrow> pipeline \<Rightarrow> bool" where
  "summary_of ref p \<longleftrightarrow> pl_repo p = pr_repo ref \<and> pl_name p = pr_name ref \<and> pl_id p = pipeline_id ref"

lemma summarize_ref: "summarize st ref win w = (Inr p, w') \<Longrightarrow> summary_of ref p"
  by (auto simp: summarize_def summarize_from_runs_def bindE_eq_Inr Let_def summary_of_def case_prod_beta)

lemma summaries:
  assumes "list_all2 summary_of refs ps"
  shows "map (\<lambda>p. (pl_repo p, pl_name p)) ps = map (\<lambda>r. (pr_repo r, pr_name r)) refs"
    and "\<forall>p \<in> set ps. pl_id p = pipeline_id \<lparr> pr_repo = pl_repo p, pr_name = pl_name p \<rparr>"
  using assms by (induction rule: list_all2_induct) (auto simp: summary_of_def pipeline_id_def)

lemma ref_eq: "(pr_repo a, pr_name a) = (pr_repo b, pr_name b) \<longleftrightarrow> a = (b :: pipeline_ref)"
  by (cases a; cases b) auto

lemma distinct_ref_pairs: "distinct (map (\<lambda>r. (pr_repo r, pr_name r)) refs) \<longleftrightarrow> distinct (refs :: pipeline_ref list)"
  by (simp add: distinct_map inj_on_def ref_eq del: prod.inject)

interpretation by_last_run: comparator "\<lambda>a b. compare_last_run_desc (pl_last_run a) (pl_last_run b)"
  by unfold_locales
    (auto simp: compare_last_run_desc_def cmp_compare_def split: option.splits if_splits)

lemma refs_distinct:
  assumes "ms_list_pipelines sql_mstore flt w = (Inr (refs, has_more), w')"
  shows "distinct refs" and "0 < pf_limit flt \<Longrightarrow> int (length refs) \<le> pf_limit flt"
proof -
  have r: "cut_extra (pf_limit flt) (select_pipelines flt (w_db w)) = (refs, has_more)"
    using assms by (auto simp: sql_mstore_def sql_list_pipelines_def bindE_eq_Inr dest: queryE_Inr)
  have "distinct (select_pipelines flt (w_db w))"
    by (simp add: select_pipelines_def Let_def distinct_sort_func sql_limit_def sql_offset_def)
  with r show "distinct refs" by (auto simp: cut_extra_def split: if_splits)
  show "0 < pf_limit flt \<Longrightarrow> int (length refs) \<le> pf_limit flt"
    using r by (auto simp: cut_extra_def split: if_splits)
qed

text \<open>The page cut from the summaries of every pipeline, filtered and sorted in memory.\<close>

lemma page_of_summaries:
  assumes "list_across_pipelines sql_mstore win flt w = (Inr (page, has_more), w')"
  shows "\<exists>refs ps m n. distinct refs \<and> list_all2 summary_of refs ps \<and> (pf_limit flt \<le> 0 \<or> int n \<le> pf_limit flt) \<and>
    page = take n (drop m
      (let qs = filter (\<lambda>p. case pf_health flt of None \<Rightarrow> True | Some h \<Rightarrow> pl_health p = h) ps
       in if pf_sort flt = SortByLastRun
          then sort_func (\<lambda>a b. compare_last_run_desc (pl_last_run a) (pl_last_run b)) qs else qs))"
proof -
  obtain refs x w1 ps w2 where refs: "ms_list_pipelines sql_mstore (flt\<lparr>pf_limit := 0, pf_offset := 0\<rparr>) w = (Inr (refs, x), w1)"
    and ps: "mapE (\<lambda>ref. summarize sql_mstore ref win) refs w1 = (Inr ps, w2)"
    and page: "opt_panicE (paginate
        (let qs = filter (\<lambda>p. case pf_health flt of None \<Rightarrow> True | Some h \<Rightarrow> pl_health p = h) ps
         in if pf_sort flt = SortByLastRun
            then sort_func (\<lambda>a b. compare_last_run_desc (pl_last_run a) (pl_last_run b)) qs else qs)
        (pf_limit flt) (pf_offset flt)) w2 = (Inr (page, has_more), w')"
    using assms by (auto simp: list_across_pipelines_def bindE_eq_Inr Let_def)
  have "paginate (let qs = filter (\<lambda>p. case pf_health flt of None \<Rightarrow> True | Some h \<Rightarrow> pl_health p = h) ps
         in if pf_sort flt = SortByLastRun
            then sort_func (\<lambda>a b. compare_last_run_desc (pl_last_run a) (pl_last_run b)) qs else qs)
        (pf_limit flt) (pf_offset flt) = Some (page, has_more)"
    using page by (auto simp: opt_panicE_def panicE_def simp del: Let_def split: option.splits)
  note slice = paginate_slice [OF this]
  have "list_all2 summary_of refs ps" using ps summarize_ref by (rule mapE_Inr)
  with slice refs_distinct(1) [OF refs] show ?thesis by blast
qed

lemma slice_of_sorted:
  fixes ps :: "pipeline list"
  defines "qs \<equiv> \<lambda>s. if s = SortByLastRun then sort_func (\<lambda>a b. compare_last_run_desc (pl_last_run a) (pl_last_run b)) ps else ps"
  assumes "page = take n (drop m (qs s))" and "distinct (map key ps)"
  shows "set page \<subseteq> set ps \<and> distinct (map key page) \<and> length page \<le> n \<and>
    (s = SortByLastRun \<longrightarrow> sorted_wrt (\<lambda>a b. compare_last_run_desc (pl_last_run a) (pl_last_run b) \<le> 0) page)"
proof -
  have "set page \<subseteq> set (qs s)"
    unfolding assms(2) using set_take_subset set_drop_subset by (rule subset_trans)
  moreover have "set (qs s) = set ps" by (simp add: qs_def)
  moreover have "distinct (map key (qs s))" using assms(3) by (simp add: qs_def distinct_map_sort_func)
  then have "distinct (map key page)"
    unfolding assms(2) by (simp only: take_map [symmetric] drop_map [symmetric] distinct_take distinct_drop)
  moreover have "sorted_wrt (\<lambda>a b. compare_last_run_desc (pl_last_run a) (pl_last_run b) \<le> 0) page" if "s = SortByLastRun"
    unfolding assms(2) by (intro sorted_wrt_take sorted_wrt_drop) (simp add: qs_def that by_last_run.sort_sorted)
  ultimately show ?thesis by (simp add: assms(2))
qed



subsection \<open>Pages of unhealthy steps\<close>

text \<open>
  The page of \<open>ListUnhealthySteps\<close>. For an offset that is not negative it is the
  slice at the offset with an exact \<open>hasMore\<close>; a negative offset with a positive limit,
  which \<open>paginate\<close> would clamp, panics, and so does a sum beyond the largest \<open>int\<close>.
\<close>

lemma cut_groups_spec:
  assumes "int (length groups) \<le> max_int64" and "limit \<le> max_int64" and "min_int64 \<le> offset"
  shows "cut_groups groups limit offset =
     (let from = min offset (int (length groups)) in
      if limit \<le> 0 then Some (groups, False)
      else if from < 0 \<or> max_int64 < from + limit then None
      else Some (take (nat limit) (drop (nat from) groups), from + limit < int (length groups)))"
proof -
  define s where "s = min offset (int (length groups))"
  have s: "min_int64 \<le> s" "s \<le> int (length groups)"
    using assms(1,3) by (auto simp: s_def min_int64_def)
  consider "limit \<le> 0" | "0 < limit" "s < 0" | "0 < limit" "0 \<le> s" "max_int64 < s + limit"
    | "0 < limit" "0 \<le> s" "s + limit \<le> max_int64" by linarith
  then have "cut_groups groups limit offset =
     (if limit \<le> 0 then Some (groups, False)
      else if s < 0 \<or> max_int64 < s + limit then None
      else Some (take (nat limit) (drop (nat s) groups), s + limit < int (length groups)))"
  proof cases
    case 2
    then show ?thesis unfolding cut_groups_def Let_def s_def [symmetric] by (simp add: go_slice_def)
  next
    case 3
    have "wrap64 (s + limit) = s + limit - 18446744073709551616"
      using 3 s assms by (intro wrap64_over) simp_all
    then have "wrap64 (s + limit) < s" using assms(2) by (simp add: max_int64_def)
    then show ?thesis using 3 by (simp add: cut_groups_def Let_def go_slice_def flip: s_def)
  next
    case 4
    then have "wrap64 (s + limit) = s + limit" by (intro wrap64_id) (simp add: in_int64_def min_int64_def)
    moreover have "take (nat (min (s + limit) (int (length groups)) - s)) (drop (nat s) groups)
        = take (nat limit) (drop (nat s) groups)"
      using 4 s by (cases "s + limit \<le> int (length groups)") (auto simp: min_def)
    ultimately show ?thesis
      unfolding cut_groups_def Let_def s_def [symmetric]
      using 4 s by (simp add: go_slice_def min_less_iff_disj)
  qed (simp_all add: cut_groups_def Let_def go_slice_def flip: s_def)
  then show ?thesis by (simp add: Let_def s_def)
qed

text \<open>
  C25: the two ways to cut a page out of a list, which should be one. \<open>paginate\<close> (the pipelines
  by health) counts a negative offset as zero and \<open>ListUnhealthySteps\<close> does not: it panics on one
  when the limit is positive. Both panic exactly when offset and limit, which the caller names, add up to more than
  the largest \<open>int\<close>. In every other case a positive limit gives that many entries from the offset
  on and says exactly whether entries follow. Without a limit \<open>paginate\<close> gives what
  follows the offset, \<open>ListUnhealthySteps\<close> everything.
\<close>

theorem pages_spec:
  assumes "int (length xs) \<le> max_int64" and "limit \<le> max_int64" and "min_int64 \<le> offset"
  shows "(let from = min (max offset 0) (int (length xs)) in
      paginate xs limit offset =
        (if limit \<le> 0 then Some (drop (nat from) xs, False)
         else if max_int64 < from + limit then None
         else Some (take (nat limit) (drop (nat from) xs), from + limit < int (length xs)))) \<and>
    (let from = min offset (int (length xs)) in
      cut_groups xs limit offset =
        (if limit \<le> 0 then Some (xs, False)
         else if from < 0 \<or> max_int64 < from + limit then None
         else Some (take (nat limit) (drop (nat from) xs), from + limit < int (length xs))))"
  using paginate_spec [OF assms(1,2)] cut_groups_spec [OF assms] by (simp only: Let_def)

theorem pages_spec_witness:
  "cut_groups [''a'', ''b''] 1 (- 1) = None \<and> paginate [''a'', ''b''] 1 (- 1) = Some ([''a''], True) \<and>
   paginate [''a'', ''b''] 9223372036854775807 1 = None"
  using pages_spec [of "[''a'', ''b'']" 1 "- 1"] pages_spec [of "[''a'', ''b'']" 9223372036854775807 1]
  by (simp add: max_int64_def min_int64_def)

subsection \<open>The overview of stored history\<close>



end
