(* ===== verification/GoTime.thy ===== *)
theory GoTime
  imports Schema
begin

text \<open>
  \<open>time.Parse\<close> with the layout \<open>time.RFC3339\<close> and the lower-case \<open>encoding/hex\<close> codec, as
  the standard library defines them, and the facts the callers use.
\<close>

subsection \<open>Dates\<close>

definition leap_year :: "int \<Rightarrow> bool" where
  "leap_year y \<longleftrightarrow> y mod 4 = 0 \<and> (y mod 100 \<noteq> 0 \<or> y mod 400 = 0)"

definition days_in :: "int \<Rightarrow> int \<Rightarrow> int" where
  "days_in m y = (if m = 2 then (if leap_year y then 29 else 28)
     else if m = 4 \<or> m = 6 \<or> m = 9 \<or> m = 11 then 30 else 31)"

text \<open>Days from 1970-01-01 to the given date of the proleptic Gregorian calendar.\<close>

definition days_from_civil :: "int \<Rightarrow> int \<Rightarrow> int \<Rightarrow> int" where
  "days_from_civil y m d =
     (let y' = (if m \<le> 2 then y - 1 else y);
          yoe = y' mod 400;
          doy = (153 * ((m + 9) mod 12) + 2) div 5 + d - 1;
          doe = yoe * 365 + yoe div 4 - yoe div 100 + doy
      in (y' div 400) * 146097 + doe - 719468)"

subsection \<open>RFC 3339\<close>

definition two_digits :: "string \<Rightarrow> (int \<times> string) option" where
  "two_digits s = (case s of
      a # b # r \<Rightarrow> (case (digit a, digit b) of (Some x, Some y) \<Rightarrow> Some (int (10 * x + y), r) | _ \<Rightarrow> None)
    | _ \<Rightarrow> None)"

text \<open>The hour of a layout may have one digit.\<close>

definition one_or_two_digits :: "string \<Rightarrow> (int \<times> string) option" where
  "one_or_two_digits s = (case two_digits s of
      Some r \<Rightarrow> Some r
    | None \<Rightarrow> (case s of a # r \<Rightarrow> map_option (\<lambda>x. (int x, r)) (digit a) | [] \<Rightarrow> None))"

definition four_digits :: "string \<Rightarrow> (int \<times> string) option" where
  "four_digits s = (case two_digits s of None \<Rightarrow> None | Some (a, r) \<Rightarrow>
     (case two_digits r of None \<Rightarrow> None | Some (b, r') \<Rightarrow> Some (100 * a + b, r')))"

definition expect :: "char \<Rightarrow> string \<Rightarrow> string option" where
  "expect c s = (case s of x # r \<Rightarrow> if x = c then Some r else None | [] \<Rightarrow> None)"

text \<open>An optional fraction of a second: its first nine digits count.\<close>

definition fraction :: "string \<Rightarrow> int \<times> string" where
  "fraction s = (case s of
      p # q # r \<Rightarrow>
        if (p = CHR ''.'' \<or> p = CHR '','') \<and> digit q \<noteq> None
        then (let ds = takeWhile (\<lambda>c. digit c \<noteq> None) (q # r);
                  nine = take 9 (ds @ replicate 9 (CHR ''0''))
              in (foldl (\<lambda>n c. 10 * n + (case digit c of Some x \<Rightarrow> int x | None \<Rightarrow> 0)) 0 nine, drop (length ds) (q # r)))
        else (0, s)
    | _ \<Rightarrow> (0, s))"

text \<open>The offset from UTC in seconds, and nothing may follow it.\<close>

definition zone :: "string \<Rightarrow> int option" where
  "zone s = (case s of
      [] \<Rightarrow> None
    | c # r \<Rightarrow>
        if c = CHR ''Z'' then (if r = [] then Some 0 else None)
        else if c = CHR ''+'' \<or> c = CHR ''-'' then
          Option.bind (two_digits r) (\<lambda>(h, r1).
          Option.bind (expect (CHR '':'') r1) (\<lambda>r2.
          Option.bind (two_digits r2) (\<lambda>(m, r3).
            if h \<le> 24 \<and> m \<le> 60 \<and> r3 = []
            then Some ((if c = CHR ''-'' then - 1 else 1) * (h * 60 + m) * 60) else None)))
        else None)"

definition parse_rfc3339 :: "string \<Rightarrow> gotime option" where
  "parse_rfc3339 s =
     Option.bind (four_digits s) (\<lambda>(y, s1).
     Option.bind (expect (CHR ''-'') s1) (\<lambda>s2.
     Option.bind (two_digits s2) (\<lambda>(mo, s3).
     Option.bind (expect (CHR ''-'') s3) (\<lambda>s4.
     Option.bind (two_digits s4) (\<lambda>(d, s5).
     Option.bind (expect (CHR ''T'') s5) (\<lambda>s6.
     Option.bind (one_or_two_digits s6) (\<lambda>(h, s7).
     Option.bind (expect (CHR '':'') s7) (\<lambda>s8.
     Option.bind (two_digits s8) (\<lambda>(mi, s9).
     Option.bind (expect (CHR '':'') s9) (\<lambda>s10.
     Option.bind (two_digits s10) (\<lambda>(sec, s11).
     let (ns, s12) = fraction s11 in
     Option.bind (zone s12) (\<lambda>off.
       if 1 \<le> mo \<and> mo \<le> 12 \<and> 1 \<le> d \<and> d \<le> days_in mo y \<and> h < 24 \<and> mi < 60 \<and> sec < 60
       then Some ((((days_from_civil y mo d * 24 + h) * 60 + mi) * 60 + sec - off) * seconds + ns)
       else None))))))))))))"

subsection \<open>Hexadecimal\<close>

definition hex_char :: "nat \<Rightarrow> char" where
  "hex_char n = ''0123456789abcdef'' ! n"

definition hex_value :: "char \<Rightarrow> nat option" where
  "hex_value c =
     (let n = byte c in
      if 48 \<le> n \<and> n \<le> 57 then Some (n - 48)
      else if 97 \<le> n \<and> n \<le> 102 then Some (n - 87)
      else if 65 \<le> n \<and> n \<le> 70 then Some (n - 55) else None)"

fun hex_encode :: "string \<Rightarrow> string" where
  "hex_encode [] = []"
| "hex_encode (c # s) = hex_char (byte c div 16) # hex_char (byte c mod 16) # hex_encode s"

fun hex_decode :: "string \<Rightarrow> string option" where
  "hex_decode [] = Some []"
| "hex_decode [_] = None"
| "hex_decode (a # b # s) =
     (case (hex_value a, hex_value b) of
        (Some x, Some y) \<Rightarrow> map_option (\<lambda>r. char_of (16 * x + y) # r) (hex_decode s)
      | _ \<Rightarrow> None)"

lemma hex_value_char: "n < 16 \<Longrightarrow> hex_value (hex_char n) = Some n"
proof -
  have "list_all (\<lambda>n. hex_value (hex_char n) = Some n) [0..<16]" by code_simp
  then show "n < 16 \<Longrightarrow> hex_value (hex_char n) = Some n" by (simp add: list_all_iff)
qed

lemma hex_decode_encode: "hex_decode (hex_encode s) = Some s"
proof (induction s)
  case (Cons c s)
  have "byte c < 256" by simp
  then have "byte c div 16 < 16" by (intro less_mult_imp_div_less) simp
  then show ?case using Cons by (simp add: hex_value_char)
qed simp

text \<open>Every text that starts with \<open>sha256=\<close> contains a character that is no digit.\<close>

lemma hex_encode_no_prefix: "trim_prefix (hex_encode s) ''sha256='' = hex_encode s"
proof -
  have "\<not> has_prefix (hex_encode s) ''sha256=''"
  proof
    assume "has_prefix (hex_encode s) ''sha256=''"
    then obtain t where t: "hex_encode s = ''sha256='' @ t" by (auto simp: has_prefix_iff)
    have "hex_decode (''sha256='' @ t) = None" by (simp add: hex_value_def)
    then show False using hex_decode_encode [of s] by (simp add: t)
  qed
  then show ?thesis by (simp add: trim_prefix_def)
qed

end
