(* ===== verification/TimeText.thy ===== *)
theory TimeText
  imports MetricsStore GoTime
begin

text \<open>
  Times as the database holds them. The SQLite driver, opened without \<open>_time_format\<close>
  (\<open>internal/db/db.go\<close>), writes a \<open>time.Time\<close> as the text of its \<open>String\<close> method, and
  \<open>WHERE\<close> and \<open>ORDER BY\<close> compare these texts byte by byte. The queries of this development
  compare instants; here is when that is the same.
\<close>

subsection \<open>Dates\<close>

text \<open>How many whole parts of a size, at most \<open>k\<close>, and what is left.\<close>

definition count_off :: "int \<Rightarrow> int \<Rightarrow> int \<Rightarrow> int \<times> int" where
  "count_off k w n = (let c = min k (n div w) in (c, n - w * c))"

text \<open>The year that began in March, and the day of it numbered from zero; day 0 is 0000-03-01.\<close>

definition march_date :: "int \<Rightarrow> int \<times> int" where
  "march_date n =
     (let (c, r) = count_off 3 36524 (n mod 146097); (q, s) = count_off 24 1461 r; (t, doy) = count_off 3 365 s
      in (400 * (n div 146097) + 100 * c + 4 * q + t, doy))"

text \<open>The year, month and day of a number of days since 1970-01-01.\<close>

definition civil_of_days :: "int \<Rightarrow> int \<times> int \<times> int" where
  "civil_of_days z =
     (case march_date (z + 719468) of (y, doy) \<Rightarrow>
        let mp = (5 * doy + 2) div 153; months = 12 * y + mp + 2
        in (months div 12, months mod 12 + 1, doy - (153 * mp + 2) div 5 + 1))"

lemma count_off_spec:
  assumes "count_off k w n = (c, r)" and "0 < w" "0 \<le> n" "0 \<le> k" "n < w * (k + 1) + e" "0 \<le> e"
  shows "n = w * c + r" "0 \<le> c" "c \<le> k" "0 \<le> r" "r < w + e"
proof -
  have c: "c = min k (n div w)" and r: "r = n - w * c" using assms(1) by (auto simp: count_off_def Let_def)
  show "n = w * c + r" "0 \<le> c" "c \<le> k" using assms(2-4) by (simp_all add: c r pos_imp_zdiv_nonneg_iff)
  have n: "w * (n div w) \<le> n" "n < w * (n div w) + w"
    using pos_mod_sign [OF assms(2), of n] pos_mod_bound [OF assms(2), of n] mult_div_mod_eq [of w n] by linarith+
  have "w * c \<le> w * (n div w)" using assms(2) by (intro mult_left_mono) (simp_all add: c)
  with n(1) show "0 \<le> r" by (simp add: r)
  show "r < w + e"
    using n(2) assms(5,6) by (cases "n div w \<le> k") (simp_all add: c r min_def algebra_simps)
qed

lemma div_mod_less:
  fixes x y :: int
  assumes "x < y" and "0 < w"
  shows "x div w < y div w \<or> (x div w = y div w \<and> x mod w < y mod w)"
proof -
  have "x div w \<le> y div w" using assms by (intro zdiv_mono1) simp_all
  moreover have "x mod w < y mod w" if "x div w = y div w"
    using assms(1) that div_mult_mod_eq [of x w] div_mult_mod_eq [of y w] by (simp only: that)
  ultimately show ?thesis by linarith
qed

lemma count_off_less:
  assumes "m < n" and "0 < w"
  shows "fst (count_off k w m) < fst (count_off k w n) \<or>
    (fst (count_off k w m) = fst (count_off k w n) \<and> snd (count_off k w m) < snd (count_off k w n))"
  using zdiv_mono1 [of m n w] assms by (auto simp: count_off_def Let_def min_def)

lemma march_date_steps:
  obtains c r q s t doy where "count_off 3 36524 (n mod 146097) = (c, r)" "count_off 24 1461 r = (q, s)"
    "count_off 3 365 s = (t, doy)" "march_date n = (400 * (n div 146097) + 100 * c + 4 * q + t, doy)"
    "n = 146097 * (n div 146097) + 36524 * c + 1461 * q + 365 * t + doy"
    "0 \<le> c" "c \<le> 3" "0 \<le> q" "q \<le> 24" "0 \<le> t" "t \<le> 3" "0 \<le> doy" "doy \<le> 365"
proof -
  obtain c r where c: "count_off 3 36524 (n mod 146097) = (c, r)" by fastforce
  obtain q s where q: "count_off 24 1461 r = (q, s)" by fastforce
  obtain t doy where t: "count_off 3 365 s = (t, doy)" by fastforce
  have "0 \<le> n mod 146097" "n mod 146097 < 36524 * (3 + 1) + 1" by simp_all
  note 1 = count_off_spec [OF c zero_less_numeral this(1) zero_le_numeral this(2) zero_le_one]
  have "r < 1461 * (24 + 1) + 0" using 1(5) by simp
  note 2 = count_off_spec [OF q zero_less_numeral 1(4) zero_le_numeral this order_refl]
  have "s < 365 * (3 + 1) + 1" using 2(5) by simp
  note 3 = count_off_spec [OF t zero_less_numeral 2(4) zero_le_numeral this zero_le_one]
  have "march_date n = (400 * (n div 146097) + 100 * c + 4 * q + t, doy)" by (simp add: march_date_def c q t)
  moreover have "n = 146097 * (n div 146097) + n mod 146097" by simp
  then have "n = 146097 * (n div 146097) + 36524 * c + 1461 * q + 365 * t + doy" using 1(1) 2(1) 3(1) by linarith
  ultimately show ?thesis
    using 1 2 3 by (intro that [OF c q t]) (assumption | linarith)+
qed

lemma march_date_range: "march_date n = (y, doy) \<Longrightarrow> 0 \<le> doy \<and> doy \<le> 365"
  by (rule march_date_steps [of n]) simp

lemma march_date_inverse:
  assumes n: "march_date n = (y, doy)"
  shows "146097 * (y div 400) + (365 * (y mod 400) + y mod 400 div 4 - y mod 400 div 100 + doy) = n"
proof -
  obtain c q t where y: "y = (100 * c + 4 * q + t) + 400 * (n div 146097)"
      and e: "n = 146097 * (n div 146097) + 36524 * c + 1461 * q + 365 * t + doy"
      and b: "0 \<le> c" "c \<le> 3" "0 \<le> q" "q \<le> 24" "0 \<le> t" "t \<le> 3"
    by (rule march_date_steps [of n]) (use n in auto)
  have "0 \<le> 100 * c + 4 * q + t" "100 * c + 4 * q + t < 400" using b by auto
  then have "y div 400 = n div 146097" "y mod 400 = 100 * c + 4 * q + t"
    unfolding y by simp_all
  moreover have "(t + 4 * (25 * c + q)) div 4 = 25 * c + q" "(4 * q + t + 100 * c) div 100 = c"
    using b by (simp_all del: distrib_left_numeral)
  then have "(100 * c + 4 * q + t) div 4 = 25 * c + q" "(100 * c + 4 * q + t) div 100 = c"
    by (simp_all add: algebra_simps)
  ultimately show ?thesis using e by simp
qed

text \<open>Reading a date undoes this.\<close>

lemma months_of:
  fixes mp y :: int assumes "0 \<le> mp" "mp \<le> 11"
  shows "(12 * y + mp + 2) div 12 = (if mp \<le> 9 then y else y + 1)"
    "(12 * y + mp + 2) mod 12 = (if mp \<le> 9 then mp + 2 else mp - 10)"
proof -
  have "(12 * y + mp + 2) div 12 = y + (mp + 2) div 12" "(12 * y + mp + 2) mod 12 = (mp + 2) mod 12"
    by (simp_all add: add.assoc)
  moreover have "(mp + 2) div 12 = (if mp \<le> 9 then 0 else 1)" "(mp + 2) mod 12 = (if mp \<le> 9 then mp + 2 else mp - 10)"
    using assms by (auto simp: div_eq_dividend_iff int_div_pos_eq int_mod_pos_eq)
  ultimately show "(12 * y + mp + 2) div 12 = (if mp \<le> 9 then y else y + 1)"
    "(12 * y + mp + 2) mod 12 = (if mp \<le> 9 then mp + 2 else mp - 10)" by simp_all
qed

lemma month_range: fixes doy :: int assumes "0 \<le> doy" "doy \<le> 365" shows "0 \<le> (5 * doy + 2) div 153" "(5 * doy + 2) div 153 \<le> 11"
  using assms by simp_all

lemma days_of_civil: "civil_of_days z = (y, m, d) \<Longrightarrow> days_from_civil y m d = z"
proof -
  assume c: "civil_of_days z = (y, m, d)"
  obtain Y doy where n: "march_date (z + 719468) = (Y, doy)" by fastforce
  define mp where "mp = (5 * doy + 2) div 153"
  have mp: "0 \<le> mp" "mp \<le> 11" using month_range march_date_range [OF n] by (simp_all add: mp_def)
  have y: "y = (12 * Y + mp + 2) div 12" "m = (12 * Y + mp + 2) mod 12 + 1" "d = doy - (153 * mp + 2) div 5 + 1"
    using c by (auto simp: civil_of_days_def n Let_def mp_def)
  have Y: "(if m \<le> 2 then y - 1 else y) = Y" "(m + 9) mod 12 = mp"
    using mp by (auto simp: y months_of)
  show ?thesis
    using march_date_inverse [OF n] by (simp add: days_from_civil_def Let_def Y y(3) algebra_simps)
qed

subsection \<open>Dates in order\<close>

lemma march_date_less:
  assumes "m < n" and y: "march_date m = (y, doy)" "march_date n = (y', doy')"
  shows "y < y' \<or> (y = y' \<and> doy < doy')"
proof -
  obtain c r q s t where M: "count_off 3 36524 (m mod 146097) = (c, r)" "count_off 24 1461 r = (q, s)"
    "count_off 3 365 s = (t, doy)" "y = 400 * (m div 146097) + 100 * c + 4 * q + t"
    and b: "c \<le> 3" "q \<le> 24" "t \<le> 3" "0 \<le> c" "0 \<le> q" "0 \<le> t"
    by (rule march_date_steps [of m]) (use y(1) in auto)
  obtain c' r' q' s' t' where N: "count_off 3 36524 (n mod 146097) = (c', r')" "count_off 24 1461 r' = (q', s')"
    "count_off 3 365 s' = (t', doy')" "y' = 400 * (n div 146097) + 100 * c' + 4 * q' + t'"
    and b': "c' \<le> 3" "q' \<le> 24" "t' \<le> 3" "0 \<le> c'" "0 \<le> q'" "0 \<le> t'"
    by (rule march_date_steps [of n]) (use y(2) in auto)
  have "m div 146097 < n div 146097 \<or> (m div 146097 = n div 146097 \<and> m mod 146097 < n mod 146097)"
    using assms(1) by (intro div_mod_less) simp_all
  moreover have "m mod 146097 < n mod 146097 \<Longrightarrow> c < c' \<or> (c = c' \<and> r < r')"
    using count_off_less [of "m mod 146097" "n mod 146097" 36524 3] M(1) N(1) by simp
  moreover have "r < r' \<Longrightarrow> q < q' \<or> (q = q' \<and> s < s')"
    using count_off_less [of r r' 1461 24] M(2) N(2) by simp
  moreover have "s < s' \<Longrightarrow> t < t' \<or> (t = t' \<and> doy < doy')"
    using count_off_less [of s s' 365 3] M(3) N(3) by simp
  ultimately show ?thesis unfolding M(4) N(4) using b b' by linarith
qed

lemma civil_of_days_less:
  assumes "z < z'" and c: "civil_of_days z = (y, m, d)" "civil_of_days z' = (y', m', d')"
  shows "y < y' \<or> (y = y' \<and> (m < m' \<or> (m = m' \<and> d < d')))"
proof -
  obtain Y doy Y' doy' where n: "march_date (z + 719468) = (Y, doy)" "march_date (z' + 719468) = (Y', doy')" by fastforce
  define mp mp' where mp: "mp = (5 * doy + 2) div 153" "mp' = (5 * doy' + 2) div 153"
  have r: "0 \<le> mp" "mp \<le> 11" "0 \<le> mp'" "mp' \<le> 11"
    using month_range march_date_range [OF n(1)] march_date_range [OF n(2)] by (simp_all add: mp)
  have parts: "y = (12 * Y + mp + 2) div 12" "m = (12 * Y + mp + 2) mod 12 + 1" "d = doy - (153 * mp + 2) div 5 + 1"
    "y' = (12 * Y' + mp' + 2) div 12" "m' = (12 * Y' + mp' + 2) mod 12 + 1" "d' = doy' - (153 * mp' + 2) div 5 + 1"
    using c by (auto simp: civil_of_days_def n Let_def mp)
  have "Y < Y' \<or> (Y = Y' \<and> doy < doy')" using march_date_less [OF _ n] assms(1) by simp
  moreover have "doy < doy' \<Longrightarrow> mp \<le> mp'" by (auto simp: mp intro: zdiv_mono1)
  ultimately have "12 * Y + mp < 12 * Y' + mp' \<or> (12 * Y + mp = 12 * Y' + mp' \<and> Y = Y' \<and> mp = mp' \<and> doy < doy')"
    using r by linarith
  then show ?thesis
    using r unfolding parts by (auto simp: months_of)
qed

subsection \<open>The text of a time\<close>

definition digit_char :: "int \<Rightarrow> char" where
  "digit_char n = char_of (48 + nat n)"

text \<open>A number in exactly \<open>k\<close> digits, and a fraction of \<open>10 ^ k\<close> parts without its trailing zeros.\<close>

fun digits_of :: "nat \<Rightarrow> int \<Rightarrow> string" where
  "digits_of 0 n = []"
| "digits_of (Suc k) n = digit_char (n div 10 ^ k) # digits_of k (n mod 10 ^ k)"

fun fraction_digits :: "nat \<Rightarrow> int \<Rightarrow> string" where
  "fraction_digits 0 n = []"
| "fraction_digits (Suc k) n =
     (if n = 0 then [] else digit_char (n div 10 ^ k) # fraction_digits k (n mod 10 ^ k))"

text \<open>Numbers of fixed width, each after a separator.\<close>

fun show_parts :: "(string \<times> nat) list \<Rightarrow> int list \<Rightarrow> string" where
  "show_parts ((sep, k) # ps) (n # ns) = sep @ digits_of k n @ show_parts ps ns"
| "show_parts _ _ = []"

definition zone_offset :: "int \<Rightarrow> string" where
  "zone_offset off =
     (if off < 0 then ''-'' else ''+'') @ digits_of 2 (\<bar>off\<bar> div 3600) @ digits_of 2 (\<bar>off\<bar> div 60 mod 60)"

text \<open>A time with its zone (offset in seconds, name) and the text of its monotonic reading, if it has one.\<close>

record zoned =
  zt_at :: gotime
  zt_offset :: int
  zt_zone :: string
  zt_mono :: string

definition local_time :: "zoned \<Rightarrow> int" where
  "local_time z = zt_at z + zt_offset z * seconds"

definition date_parts :: "int \<Rightarrow> int list" where
  "date_parts days = (case civil_of_days days of (y, m, d) \<Rightarrow> [y, m, d])"

definition time_parts :: "int \<Rightarrow> int list" where
  "time_parts s = date_parts (s div 86400) @ [s mod 86400 div 3600, s mod 86400 div 60 mod 60, s mod 86400 mod 60]"

abbreviation layout :: "(string \<times> nat) list" where
  "layout \<equiv> [([], 4), (''-'', 2), (''-'', 2), ('' '', 2), ('':'', 2), ('':'', 2)]"

text \<open>\<open>time.Time.String\<close>: the layout \<open>2006-01-02 15:04:05.999999999 -0700 MST\<close>, for the years of four digits.\<close>

definition time_string :: "zoned \<Rightarrow> string" where
  "time_string z =
     (let s = local_time z div seconds; ns = local_time z mod seconds
      in show_parts layout (time_parts s) @
         (if ns = 0 then [] else ''.'' @ fraction_digits 9 ns) @
         '' '' @ zone_offset (zt_offset z) @ '' '' @ zt_zone z @ zt_mono z)"

definition utc :: "gotime \<Rightarrow> zoned" where
  "utc t = \<lparr> zt_at = t, zt_offset = 0, zt_zone = ''UTC'', zt_mono = [] \<rparr>"

subsection \<open>Texts in order\<close>

lemma digit_char_less: "0 \<le> a \<Longrightarrow> a < b \<Longrightarrow> b < 10 \<Longrightarrow> digit_char a < digit_char b"
  by (simp add: digit_char_def less_char_def)

lemma space_before_digit: "0 \<le> a \<Longrightarrow> a < 10 \<Longrightarrow> CHR '' '' < digit_char a"
  by (simp add: digit_char_def less_char_def)

lemma append_less: "(p @ u :: string) < p @ v \<longleftrightarrow> u < v"
  by (induction p) simp_all

text \<open>The first digit and the others of a number.\<close>

lemma leading_digit:
  fixes a b :: int assumes "0 \<le> a" "a < b" "b < 10 ^ Suc k"
  shows "0 \<le> a div 10 ^ k" "b div 10 ^ k < 10" "0 \<le> a mod 10 ^ k" "b mod 10 ^ k < 10 ^ k"
    "a div 10 ^ k < b div 10 ^ k \<or> (a div 10 ^ k = b div 10 ^ k \<and> a mod 10 ^ k < b mod 10 ^ k)"
proof -
  show "0 \<le> a div 10 ^ k" "0 \<le> a mod 10 ^ k" "b mod 10 ^ k < 10 ^ k"
    using assms(1) by (simp_all add: pos_imp_zdiv_nonneg_iff)
  show "b div 10 ^ k < 10"
  proof (rule ccontr)
    assume "\<not> b div 10 ^ k < 10"
    then have "10 * 10 ^ k \<le> b div 10 ^ k * 10 ^ k" by (intro mult_right_mono) simp_all
    moreover have "0 \<le> b mod 10 ^ k" by simp
    ultimately show False using div_mult_mod_eq [of b "10 ^ k"] assms(3) unfolding power_Suc by linarith
  qed
  show "a div 10 ^ k < b div 10 ^ k \<or> (a div 10 ^ k = b div 10 ^ k \<and> a mod 10 ^ k < b mod 10 ^ k)"
    using assms(2) by (intro div_mod_less) simp_all
qed

lemma digits_less: "0 \<le> a \<Longrightarrow> a < b \<Longrightarrow> b < 10 ^ k \<Longrightarrow> digits_of k a @ u < digits_of k b @ v"
proof (induction k arbitrary: a b)
  case (Suc k)
  note d = leading_digit [OF Suc.prems]
  show ?case using d(5) digit_char_less [OF d(1) _ d(2)] Suc.IH [OF d(3) _ d(4)] by auto
qed simp

lemma fraction_less:
  "0 \<le> a \<Longrightarrow> a < b \<Longrightarrow> b < 10 ^ k \<Longrightarrow> fraction_digits k a @ CHR '' '' # u < fraction_digits k b @ CHR '' '' # v"
proof (induction k arbitrary: a b)
  case (Suc k)
  note d = leading_digit [OF Suc.prems]
  have b: "b \<noteq> 0" using Suc.prems by simp
  show ?case
  proof (cases "a = 0")
    case True
    have "0 \<le> b div 10 ^ k" using d(1,5) by linarith
    then show ?thesis using space_before_digit [OF _ d(2)] b True by simp
  next
    case False
    then show ?thesis
      using d(5) digit_char_less [OF d(1) _ d(2)] Suc.IH [OF d(3) _ d(4)] b by auto
  qed
qed simp

lemma show_parts_less:
  "length ns = length ps \<Longrightarrow> length ns' = length ps \<Longrightarrow>
   list_all2 (\<lambda>(_, k) n. 0 \<le> n \<and> n < 10 ^ k) ps ns \<Longrightarrow> list_all2 (\<lambda>(_, k) n. 0 \<le> n \<and> n < 10 ^ k) ps ns' \<Longrightarrow>
   ns < ns' \<Longrightarrow> show_parts ps ns @ u < show_parts ps ns' @ v"
proof (induction ps arbitrary: ns ns')
  case (Cons p ps)
  obtain sep k where p: "p = (sep, k)" by (cases p)
  obtain n ms n' ms' where ns: "ns = n # ms" "ns' = n' # ms'" using Cons.prems(1,2) by (cases ns; cases ns') auto
  have r: "0 \<le> n" "n' < 10 ^ k" using Cons.prems(3,4) by (simp_all add: p ns)
  consider "n < n'" | "n = n'" "ms < ms'" using Cons.prems(5) by (auto simp: ns)
  then show ?case
  proof cases
    case 1
    then show ?thesis using digits_less [OF r(1) 1 r(2)] by (simp add: p ns append_less)
  next
    case 2
    then show ?thesis using Cons.IH [of ms ms'] Cons.prems by (simp add: p ns append_less)
  qed
qed simp

lemma lists_less: "length xs = length ys \<Longrightarrow> (xs @ us < ys @ vs) \<longleftrightarrow> xs < ys \<or> (xs = ys \<and> us < (vs :: int list))"
  by (induction xs ys rule: list_induct2) auto

lemma clock_less:
  fixes x x' :: int assumes "x < x'"
  shows "[x div 3600, x div 60 mod 60, x mod 60] < [x' div 3600, x' div 60 mod 60, x' mod 60]"
proof -
  have hours: "n div 3600 = n div 60 div 60" for n :: int by (simp add: div_mult2_eq [symmetric] zdiv_zmult2_eq [symmetric])
  show ?thesis
    using div_mod_less [OF assms, of 60] div_mod_less [of "x div 60" "x' div 60" 60] by (auto simp: hours)
qed

lemma time_parts_less:
  assumes "s < s'"
  shows "time_parts s < time_parts s'"
proof -
  obtain y m d y' m' d' where c: "civil_of_days (s div 86400) = (y, m, d)" "civil_of_days (s' div 86400) = (y', m', d')"
    by (metis prod_cases3)
  have len: "length (date_parts (s div 86400)) = length (date_parts (s' div 86400))"
    by (simp add: date_parts_def c)
  consider "s div 86400 < s' div 86400" | "s div 86400 = s' div 86400" "s mod 86400 < s' mod 86400"
    using div_mod_less [OF assms, of 86400] by auto
  then show ?thesis
  proof cases
    case 1
    then have "date_parts (s div 86400) < date_parts (s' div 86400)"
      using civil_of_days_less [OF _ c] by (auto simp: date_parts_def c)
    then show ?thesis unfolding time_parts_def lists_less [OF len] ..
  next
    case 2
    then show ?thesis unfolding time_parts_def lists_less [OF len] using clock_less [OF 2(2)] by (simp only: 2(1) simp_thms)
  qed
qed

text \<open>Years of four digits, from 0000 on.\<close>

definition printable :: "zoned \<Rightarrow> bool" where
  "printable z \<longleftrightarrow> (case civil_of_days (local_time z div seconds div 86400) of (y, _, _) \<Rightarrow> 0 \<le> y \<and> y < 10000)"

lemma civil_range: "civil_of_days z = (y, m, d) \<Longrightarrow> 1 \<le> m \<and> m \<le> 12 \<and> 1 \<le> d \<and> d \<le> 31"
proof -
  assume c: "civil_of_days z = (y, m, d)"
  obtain Y doy where n: "march_date (z + 719468) = (Y, doy)" by fastforce
  define mp where "mp = (5 * doy + 2) div 153"
  have doy: "0 \<le> doy" "doy \<le> 365" using march_date_range [OF n] by simp_all
  have "153 * mp \<le> 5 * doy + 2" "5 * doy + 2 < 153 * mp + 153" unfolding mp_def by linarith+
  moreover have "0 \<le> mp" "mp \<le> 11" using month_range [OF doy] by (simp_all add: mp_def)
  ultimately show ?thesis
    using c by (auto simp: civil_of_days_def n Let_def months_of simp flip: mp_def split: if_splits)
qed

lemma parts_fit:
  assumes "printable z"
  shows "list_all2 (\<lambda>(_, k) n. 0 \<le> n \<and> n < 10 ^ k) layout (time_parts (local_time z div seconds))"
proof -
  define s where "s = local_time z div seconds"
  obtain y m d where c: "civil_of_days (s div 86400) = (y, m, d)" by (metis prod_cases3)
  have "0 \<le> y \<and> y < 10000" using assms by (simp add: printable_def c flip: s_def)
  moreover have "0 \<le> s mod 86400" "s mod 86400 < 86400" by simp_all
  then have "0 \<le> s mod 86400 div 3600" "s mod 86400 div 3600 < 100" by (simp_all add: pos_imp_zdiv_nonneg_iff)
  moreover have "0 \<le> n mod 60" "n mod 60 < 100" for n :: int
    using pos_mod_bound [of 60 n] by simp_all
  ultimately show ?thesis
    using civil_range [OF c] by (simp add: time_parts_def date_parts_def c flip: s_def)
qed

lemma parts_length: "length (time_parts s) = 6"
  by (simp add: time_parts_def date_parts_def split: prod.split)

text \<open>The earlier local time has the smaller text, whatever the zones are called.\<close>

lemma time_string_less:
  assumes "printable a" "printable b" and less: "local_time a < local_time b"
  shows "time_string a < time_string b"
proof -
  let ?s = "local_time a div seconds" and ?s' = "local_time b div seconds"
  let ?n = "local_time a mod seconds" and ?n' = "local_time b mod seconds"
  have pos: "0 < seconds" by (simp add: seconds_def)
  consider "?s < ?s'" | "?s = ?s'" "?n < ?n'" using div_mod_less [OF less pos] by blast
  then show ?thesis
  proof cases
    case 1
    show ?thesis
      unfolding time_string_def Let_def
      by (rule show_parts_less) (simp_all only: parts_length parts_fit assms time_parts_less [OF 1], simp_all)
  next
    case 2
    have n: "0 \<le> ?n" "?n' < 10 ^ 9" using pos_mod_sign [OF pos] pos_mod_bound [OF pos, of "local_time b"]
      by (simp_all add: seconds_def)
    have "CHR '' '' < CHR ''.''" by code_simp
    then show ?thesis
      using fraction_less [OF n(1) 2(2) n(2)] 2(2) n(1)
      by (auto simp: time_string_def Let_def 2(1) append_less)
  qed
qed

subsection \<open>Windows\<close>

text \<open>What \<open>started_at >= ? AND started_at < ?\<close> compares; a start is stored as GitHub sends it, in UTC.\<close>

definition text_in_span :: "zoned \<Rightarrow> zoned \<Rightarrow> run_row \<Rightarrow> bool" where
  "text_in_span since until r =
     (case ru_started r of None \<Rightarrow> False
      | Some t \<Rightarrow> time_string since \<le> time_string (utc t) \<and> time_string (utc t) < time_string until)"

lemma local_utc [simp]: "local_time (utc t) = t"
  by (simp add: local_time_def utc_def)

lemma utc_order:
  assumes "printable (utc a)" "printable (utc b)"
  shows "time_string (utc a) < time_string (utc b) \<longleftrightarrow> a < b" "time_string (utc a) \<le> time_string (utc b) \<longleftrightarrow> a \<le> b"
proof -
  show less: "time_string (utc a) < time_string (utc b) \<longleftrightarrow> a < b"
    using time_string_less [OF assms] time_string_less [OF assms(2,1)] by (cases a b rule: linorder_cases) auto
  show "time_string (utc a) \<le> time_string (utc b) \<longleftrightarrow> a \<le> b"
    using less time_string_less [OF assms(2,1)] by (cases a b rule: linorder_cases) auto
qed

text \<open>
  C22: what the queries over a window compare. The database compares the texts of times. Between
  times in UTC that is the order of the instants, so the newest run comes first and the window of a server in
  UTC holds exactly the runs that started in it. The bounds of a window keep the zone of the server,
  though, which the code converts nowhere but for the quarantine marks: a run is taken when its UTC reading lies between the
  local readings of the bounds, so with a zone east of Greenwich the window begins too late, and west
  of it the runs of the last hours are not in any window.
\<close>

theorem window_times_compare:
  assumes "ru_started r = Some t" and "printable (utc t)" and "printable (utc s)" and "printable (utc u)"
    and "printable since" and "printable until"
  shows "(time_string (utc s) < time_string (utc t) \<longleftrightarrow> s < t) \<and>
    (text_in_span (utc s) (utc u) r \<longleftrightarrow> in_span s u r) \<and>
    (local_time since < t \<and> t < local_time until \<longrightarrow> text_in_span since until r) \<and>
    (t < local_time since \<or> local_time until < t \<longrightarrow> \<not> text_in_span since until r)"
proof (intro conjI impI)
  show "time_string (utc s) < time_string (utc t) \<longleftrightarrow> s < t" using utc_order assms by blast
  show "text_in_span (utc s) (utc u) r \<longleftrightarrow> in_span s u r"
    by (simp add: text_in_span_def in_span_def assms utc_order)
  show "text_in_span since until r" if "local_time since < t \<and> t < local_time until"
    using that time_string_less [of since "utc t"] time_string_less [of "utc t" until] assms
    by (simp add: text_in_span_def)
  show "\<not> text_in_span since until r" if "t < local_time since \<or> local_time until < t"
    using that time_string_less [of until "utc t"] time_string_less [of "utc t" since] assms
    by (auto simp: text_in_span_def)
qed

text \<open>A server in New York asked for the last day at midnight UTC, and a run that started an hour earlier.\<close>

definition new_york :: "gotime \<Rightarrow> zoned" where
  "new_york t = \<lparr> zt_at = t, zt_offset = -18000, zt_zone = ''EST'', zt_mono = '' m=+0.1'' \<rparr>"

definition midnight :: gotime where
  "midnight = 1709164800 * seconds"

definition hour_old :: run_row where
  "hour_old = \<lparr> ru_id = ''r'', ru_repo = ''id'', ru_forge_run = ''7'', ru_pipeline = ''ci'', ru_status = ''completed'',
     ru_conclusion = Some ''failure'', ru_started = Some (midnight - hours), ru_completed = Some midnight, ru_url = [],
     ru_branch = None, ru_sha = None, ru_message = None, ru_actor = None \<rparr>"

theorem window_times_compare_witness:
  "text_in_span (utc (midnight - 24 * hours)) (utc midnight) hour_old \<and>
   \<not> text_in_span (new_york (midnight - 24 * hours)) (new_york midnight) hour_old"
proof -
  let ?t = "midnight - hours" and ?s = "midnight - 24 * hours"
  have r: "ru_started hour_old = Some ?t" by (simp add: hour_old_def)
  have p: "printable (utc ?t)" "printable (utc ?s)" "printable (utc midnight)" "printable (new_york ?s)"
    "printable (new_york midnight)" by code_simp+
  have "in_span ?s midnight hour_old" "local_time (new_york midnight) < ?t" by code_simp+
  with window_times_compare [OF r p] show ?thesis by blast
qed

end
