(* ===== verification/Settings.thy ===== *)
theory Settings
  imports GoIO "HOL-Library.AList"
begin

text \<open>
  The account settings (\<open>internal/settings\<close>): the keys and their defaults, the service
  that validates an update and resolves stored overrides, its store interface, and the
  SQLite adapter. A Go map is an association list with distinct keys. The order in which
  a \<open>range\<close> statement visits it is a parameter \<open>ord\<close>, any permutation. Strings are valid
  UTF-8, as every caller takes them from the JSON decoder, so \<open>json.Marshal\<close> keeps them.
\<close>

subsection \<open>Keys and values\<close>

definition setting_keys :: "string list" where
  "setting_keys =
     [''theme'', ''forgeFilter'', ''pipelinesHealthFilter'', ''pipelinesRepoSelector'',
      ''pipelinesSortOrder'', ''telemetryWindow'']"

definition pipelines_filter_keys :: "string list" where
  "pipelines_filter_keys = [''pipelinesHealthFilter'', ''pipelinesRepoSelector'', ''pipelinesSortOrder'']"

definition enum_values :: "(string \<times> string list) list" where
  "enum_values =
     [(''theme'', [''light'', ''dark'', ''system'']),
      (''forgeFilter'', [''all'', ''github'', ''forgejo'']),
      (''pipelinesHealthFilter'', [''all'', ''healthy'', ''unhealthy'']),
      (''pipelinesSortOrder'', [''name'', ''lastRun'']),
      (''telemetryWindow'', [''24h'', ''7d'', ''30d''])]"

definition allowed_values :: "string \<Rightarrow> string list" where
  "allowed_values key = (case map_of enum_values key of None \<Rightarrow> [] | Some vs \<Rightarrow> vs)"

definition max_repo_selector_length :: nat where
  "max_repo_selector_length = 128"

record settings =
  sn_theme :: string
  sn_forge :: string
  sn_health :: string
  sn_repo :: string
  sn_sort :: string
  sn_window :: string

definition default_settings :: settings where
  "default_settings =
     \<lparr> sn_theme = ''system'', sn_forge = ''all'', sn_health = ''unhealthy'', sn_repo = ''all'',
       sn_sort = ''name'', sn_window = ''7d'' \<rparr>"

type_synonym overrides = "(string \<times> string) list"
type_synonym patch = "(string \<times> string option) list"

definition value_or :: "overrides \<Rightarrow> string \<Rightarrow> string \<Rightarrow> string" where
  "value_or raw key def = (case map_of raw key of Some v \<Rightarrow> v | None \<Rightarrow> def)"

definition resolve :: "overrides \<Rightarrow> settings" where
  "resolve raw =
     \<lparr> sn_theme = value_or raw ''theme'' (sn_theme default_settings),
       sn_forge = value_or raw ''forgeFilter'' (sn_forge default_settings),
       sn_health = value_or raw ''pipelinesHealthFilter'' (sn_health default_settings),
       sn_repo = value_or raw ''pipelinesRepoSelector'' (sn_repo default_settings),
       sn_sort = value_or raw ''pipelinesSortOrder'' (sn_sort default_settings),
       sn_window = value_or raw ''telemetryWindow'' (sn_window default_settings) \<rparr>"

subsection \<open>The service\<close>

record sstore =
  ss_get :: "string \<Rightarrow> overrides io"
  ss_patch :: "string \<Rightarrow> patch \<Rightarrow> overrides io"

definition settings_get :: "sstore \<Rightarrow> string \<Rightarrow> settings io" where
  "settings_get st user =
     bindE (wrapE ''get settings'' (ss_get st user)) (\<lambda>raw. retE (resolve raw))"

text \<open>The body of the validation loop of \<open>Update\<close>.\<close>

definition check_setting :: "string \<times> string option \<Rightarrow> unit res" where
  "check_setting e = (case e of (key, value) \<Rightarrow>
     if key \<notin> set setting_keys then Inl (Detail (Sentinel ErrInvalidKey) key)
     else (case value of
        None \<Rightarrow> Inr ()
      | Some v \<Rightarrow>
          if (case map_of enum_values key of None \<Rightarrow> False | Some allowed \<Rightarrow> v \<notin> set allowed)
          then Inl (Detail (Sentinel ErrInvalidValue) v)
          else if key = ''pipelinesRepoSelector'' \<and> max_repo_selector_length < length v
          then Inl (Detail (Sentinel ErrInvalidValue) key)
          else Inr ()))"

fun check_settings :: "patch \<Rightarrow> unit res" where
  "check_settings [] = Inr ()"
| "check_settings (e # es) = (case check_setting e of Inl x \<Rightarrow> Inl x | Inr _ \<Rightarrow> check_settings es)"

definition settings_update :: "sstore \<Rightarrow> (patch \<Rightarrow> patch) \<Rightarrow> string \<Rightarrow> patch \<Rightarrow> settings io" where
  "settings_update st ord user updates =
     bindE (liftE (check_settings (ord updates))) (\<lambda>_.
     bindE (wrapE ''patch settings'' (ss_patch st user updates)) (\<lambda>raw.
       retE (resolve raw)))"

definition reset_pipelines_filters :: "sstore \<Rightarrow> (patch \<Rightarrow> patch) \<Rightarrow> string \<Rightarrow> settings io" where
  "reset_pipelines_filters st ord user =
     settings_update st ord user (map (\<lambda>key. (key, None)) pipelines_filter_keys)"

subsection \<open>The contract of the store\<close>

text \<open>What a patch does to the overrides of one user.\<close>

definition patched :: "patch \<Rightarrow> (string \<Rightarrow> string option) \<Rightarrow> string \<Rightarrow> string option" where
  "patched ups m k = (case map_of ups k of None \<Rightarrow> m k | Some v \<Rightarrow> v)"

definition valid_setting :: "string \<Rightarrow> string \<Rightarrow> bool" where
  "valid_setting key v \<longleftrightarrow> check_setting (key, Some v) = Inr ()"

lemma check_settings_Inr: "check_settings es = Inr () \<longleftrightarrow> list_all (\<lambda>e. check_setting e = Inr ()) es"
  by (induction es) (auto split: sum.split)

lemma check_setting_Inl:
  "check_setting e = Inl x \<Longrightarrow> is_err x ErrInvalidKey \<or> is_err x ErrInvalidValue"
  by (auto simp: check_setting_def split: prod.splits if_splits option.splits)

lemma check_settings_Inl:
  "check_settings es = Inl x \<Longrightarrow> is_err x ErrInvalidKey \<or> is_err x ErrInvalidValue"
  by (induction es) (auto split: sum.splits dest: check_setting_Inl)

lemma check_settings_order:
  "permuting ord \<Longrightarrow> check_settings (ord es) = Inr () \<longleftrightarrow> check_settings es = Inr ()"
  by (simp add: check_settings_Inr list_all_iff permuting_set)

locale settings_store =
  fixes st :: "(patch \<Rightarrow> patch) \<Rightarrow> sstore"
    and inv :: "db \<Rightarrow> bool"
    and view :: "db \<Rightarrow> string \<Rightarrow> string \<Rightarrow> string option"
  assumes get_reads: "keeps P (ss_get (st o1) user)"
    and get_is:
      "inv (w_db w) \<Longrightarrow> ss_get (st o1) user w = (Inr raw, w') \<Longrightarrow> map_of raw = view (w_db w) user"
    and patch_is:
      "inv (w_db w) \<Longrightarrow> permuting o1 \<Longrightarrow> distinct (map fst ups) \<Longrightarrow>
       ss_patch (st o1) user ups w = (Inr raw, w') \<Longrightarrow>
       map_of raw = patched ups (view (w_db w) user) \<and>
       view (w_db w') = (view (w_db w))(user := patched ups (view (w_db w) user))"
    and patch_fails: "ss_patch (st o1) user ups w = (Inl e, w') \<Longrightarrow> w_db w' = w_db w"
    and patch_keeps: "keeps inv (ss_patch (st o1) user ups)"
begin

lemma get_resolves:
  "inv (w_db w) \<Longrightarrow> settings_get (st o1) user w = (Inr s, w') \<Longrightarrow>
   \<exists>raw. s = resolve raw \<and> map_of raw = view (w_db w) user"
  by (auto simp: settings_get_def bindE_eq_Inr dest: get_is)

lemma get_keeps: "keeps P (settings_get (st o1) user)"
  unfolding settings_get_def by (intro keeps_intros get_reads)

lemma update_keeps: "keeps inv (settings_update (st o1) ord user ups)"
  unfolding settings_update_def by (intro keeps_intros patch_keeps)

lemma update_done:
  assumes "inv (w_db w)" and "permuting o1" and "distinct (map fst ups)"
    and "settings_update (st o1) ord user ups w = (Inr s, w')"
  shows "check_settings (ord ups) = Inr ()"
    and "view (w_db w') = (view (w_db w))(user := patched ups (view (w_db w) user))"
    and "\<exists>raw. s = resolve raw \<and> map_of raw = view (w_db w') user"
  using assms by (fastforce simp: settings_update_def bindE_eq_Inr liftE_def dest: patch_is)+

lemma update_failed:
  "settings_update (st o1) ord user ups w = (Inl e, w') \<Longrightarrow> w_db w' = w_db w"
  by (auto simp: settings_update_def bindE_def liftE_def wrapE_def dest: patch_fails
      split: sum.splits prod.splits)

lemma update_rejected:
  "check_settings (ord ups) = Inl x \<Longrightarrow> settings_update (st o1) ord user ups w = (Inl x, w)"
  by (simp add: settings_update_def bindE_def liftE_def)

end

subsection \<open>The SQLite adapter\<close>

text \<open>A JSON object with a repeated key decodes to the last of them.\<close>

definition decode_settings :: "settings_blob \<Rightarrow> overrides res" where
  "decode_settings b = (case b of
      BlobEmpty \<Rightarrow> Inr []
    | BlobNull \<Rightarrow> Inr []
    | BlobBad e \<Rightarrow> Inl (Wrap ''decode account settings'' (Driver e))
    | BlobMap kvs \<Rightarrow> Inr (fold (\<lambda>(k, v). AList.update k v) kvs []))"

text \<open>\<open>json.Marshal\<close> writes the keys of a map in order.\<close>

definition encode_settings :: "overrides \<Rightarrow> settings_blob" where
  "encode_settings m = BlobMap (sort_func (\<lambda>a b. cmp_compare (fst a) (fst b)) m)"

definition settings_data :: "string \<Rightarrow> db \<Rightarrow> settings_blob option" where
  "settings_data user d = map_option sg_data (find (\<lambda>r. sg_user r = user) (t_settings d))"

definition sql_settings_get :: "string \<Rightarrow> overrides io" where
  "sql_settings_get user =
     bindE (wrapE ''query account settings'' (query_rowE (settings_data user))) (\<lambda>row.
       case row of None \<Rightarrow> retE [] | Some data \<Rightarrow> liftE (decode_settings data))"

definition apply_patch :: "string \<times> string option \<Rightarrow> overrides \<Rightarrow> overrides" where
  "apply_patch e m = (case e of (k, None) \<Rightarrow> AList.delete k m | (k, Some v) \<Rightarrow> AList.update k v m)"

definition upsert_settings :: "string \<Rightarrow> settings_blob \<Rightarrow> gotime \<Rightarrow> db \<Rightarrow> (db \<times> nat) option" where
  "upsert_settings user data t d =
     (if list_ex (\<lambda>r. sg_user r = user) (t_settings d)
      then Some (d\<lparr>t_settings := map (\<lambda>r. if sg_user r = user then r\<lparr>sg_data := data, sg_updated := t\<rparr> else r)
                     (t_settings d)\<rparr>, 1)
      else if \<not> list_ex (\<lambda>u. us_id u = user) (t_users d) then None
      else Some (d\<lparr>t_settings := t_settings d @ [\<lparr> sg_user = user, sg_data = data, sg_updated = t \<rparr>]\<rparr>, 1))"

definition sql_settings_patch :: "(patch \<Rightarrow> patch) \<Rightarrow> string \<Rightarrow> patch \<Rightarrow> overrides io" where
  "sql_settings_patch ord user updates =
     txE ''begin transaction'' ''commit account settings''
       (bindE (wrapE ''query account settings'' (query_rowE (settings_data user))) (\<lambda>existing.
        bindE (liftE (decode_settings (case existing of None \<Rightarrow> BlobEmpty | Some data \<Rightarrow> data))) (\<lambda>overrides.
        let overrides = fold apply_patch (ord updates) overrides in
        bindE nowE (\<lambda>t.
        bindE (wrapE ''upsert account settings'' (execE (upsert_settings user (encode_settings overrides) t))) (\<lambda>_.
          retE overrides)))))"

definition sql_sstore :: "(patch \<Rightarrow> patch) \<Rightarrow> sstore" where
  "sql_sstore ord = \<lparr> ss_get = sql_settings_get, ss_patch = sql_settings_patch ord \<rparr>"

subsection \<open>The adapter keeps the contract\<close>

definition settings_view :: "db \<Rightarrow> string \<Rightarrow> string \<Rightarrow> string option" where
  "settings_view d user =
     (case settings_data user d of
        None \<Rightarrow> Map.empty
      | Some data \<Rightarrow> (case decode_settings data of Inl _ \<Rightarrow> Map.empty | Inr m \<Rightarrow> map_of m))"

lemma map_of_fold_update:
  "map_of (fold (\<lambda>(k, v). AList.update k v) kvs m) = map_of m ++ map_of (rev kvs)"
  by (induction kvs arbitrary: m) (auto simp: update_conv' map_add_def split: option.splits)

lemma distinct_fold_update:
  "distinct (map fst m) \<Longrightarrow> distinct (map fst (fold (\<lambda>(k, v). AList.update k v) kvs m))"
  by (induction kvs arbitrary: m) (auto simp: distinct_update)

lemma decode_distinct: "decode_settings b = Inr m \<Longrightarrow> distinct (map fst m)"
  by (auto simp: decode_settings_def distinct_fold_update split: settings_blob.splits)

lemma decode_encode:
  assumes "distinct (map fst m)"
  shows "\<exists>m'. decode_settings (encode_settings m) = Inr m' \<and> map_of m' = map_of m"
proof -
  let ?s = "sort_func (\<lambda>a b. cmp_compare (fst a) (fst b)) m"
  have d: "distinct (map fst ?s)" using assms by (simp add: distinct_map_sort_func)
  then have "map_of (rev ?s) = map_of m"
    unfolding map_of_rev [OF d] by (intro map_of_same_entries assms) simp
  then show ?thesis
    by (simp add: decode_settings_def encode_settings_def map_of_fold_update)
qed

lemma fold_apply_patch:
  assumes "distinct (map fst es)" and "distinct (map fst m)"
  shows "distinct (map fst (fold apply_patch es m)) \<and>
     map_of (fold apply_patch es m) = patched es (map_of m)"
  using assms
proof (induction es arbitrary: m)
  case Nil
  then show ?case by (simp add: patched_def fun_eq_iff)
next
  case (Cons e es)
  obtain k v where e: "e = (k, v)" by (cases e)
  have d: "distinct (map fst (apply_patch e m))"
    using Cons.prems by (auto simp: apply_patch_def e distinct_update distinct_delete split: option.split)
  have "map_of (apply_patch e m) = (map_of m)(k := v)"
    by (cases v) (auto simp: apply_patch_def e update_conv' delete_conv')
  moreover have "map_of es k = None" using Cons.prems by (auto simp: e map_of_eq_None_iff)
  ultimately show ?case
    using Cons.IH [OF _ d] Cons.prems(1) by (simp add: e patched_def fun_eq_iff)
qed

lemma patched_order:
  "permuting ord \<Longrightarrow> distinct (map fst es) \<Longrightarrow> patched (ord es) m = patched es m"
  unfolding patched_def by (subst map_of_same_entries [of es "ord es"]) (simp_all add: permuting_mset)

lemma upsert_settings_data:
  assumes "upsert_settings user data t d = Some (d', n)"
  shows "settings_data u d' = (if u = user then Some data else settings_data u d)"
proof (cases "list_ex (\<lambda>r. sg_user r = user) (t_settings d)")
  case True
  let ?f = "\<lambda>r. if sg_user r = user then r\<lparr>sg_data := data, sg_updated := t\<rparr> else r"
  have d': "t_settings d' = map ?f (t_settings d)"
    using assms True by (auto simp: upsert_settings_def)
  have "find (\<lambda>r. sg_user r = user) (t_settings d) \<noteq> None"
    using True by (auto simp: find_None_iff list_ex_iff)
  moreover have f: "find (\<lambda>r. sg_user r = u) (map ?f (t_settings d)) = map_option ?f (find (\<lambda>r. sg_user r = u) (t_settings d))"
    by (rule find_map_key) simp
  show ?thesis
  proof (cases "find (\<lambda>r. sg_user r = u) (t_settings d)")
    case None
    with calculation show ?thesis unfolding settings_data_def d' f by auto
  next
    case (Some r)
    with find_mem [OF Some] show ?thesis unfolding settings_data_def d' f by simp
  qed
next
  case False
  then have "t_settings d' = t_settings d @ [\<lparr> sg_user = user, sg_data = data, sg_updated = t \<rparr>]"
    using assms by (auto simp: upsert_settings_def split: if_splits)
  moreover have "find (\<lambda>r. sg_user r = user) (t_settings d) = None"
    using False by (auto simp: find_None_iff list_ex_iff)
  ultimately show ?thesis by (auto simp: settings_data_def find_append split: option.splits)
qed

lemma upsert_settings_ok:
  assumes "account_tables_ok d" and "upsert_settings user data t d = Some (d', n)"
  shows "account_tables_ok d'"
proof (cases "list_ex (\<lambda>r. sg_user r = user) (t_settings d)")
  case True
  let ?f = "\<lambda>r. if sg_user r = user then r\<lparr>sg_data := data, sg_updated := t\<rparr> else r"
  have d': "d' = d\<lparr>t_settings := map ?f (t_settings d)\<rparr>"
    using assms(2) True by (simp add: upsert_settings_def)
  have "sg_user (?f r) = sg_user r" for r by simp
  then show ?thesis
    using assms(1) unfolding account_tables_ok_def d'
    by (simp add: refs_in_map_children distinct_map_update [of sg_user ?f] del: map_map)
next
  case False
  then have d': "d' = d\<lparr>t_settings := t_settings d @ [\<lparr> sg_user = user, sg_data = data, sg_updated = t \<rparr>]\<rparr>"
    and u: "list_ex (\<lambda>u. us_id u = user) (t_users d)"
    using assms(2) by (auto simp: upsert_settings_def split: if_splits)
  have "user \<in> us_id ` set (t_users d)" using u by (force simp: list_ex_iff)
  moreover have "user \<notin> sg_user ` set (t_settings d)" using False by (auto simp: list_ex_iff)
  ultimately show ?thesis using assms(1) unfolding account_tables_ok_def d' by simp
qed

lemma sql_patch_is:
  assumes ord: "permuting ord" and ups: "distinct (map fst ups)"
    and r: "sql_settings_patch ord user ups w = (Inr raw, w')"
  shows "map_of raw = patched ups (settings_view (w_db w) user) \<and>
     settings_view (w_db w') = (settings_view (w_db w))(user := patched ups (settings_view (w_db w) user))"
proof -
  obtain existing m w4 t w5 n where
    m: "decode_settings (case settings_data user (w_db w) of None \<Rightarrow> BlobEmpty | Some data \<Rightarrow> data) = Inr m" and
    raw: "raw = fold apply_patch (ord ups) m" and w4: "w_db w4 = w_db w" and
    x: "execE (upsert_settings user (encode_settings raw) t) w4 = (Inr n, w5)" and w': "w_db w' = w_db w5"
    using r unfolding sql_settings_patch_def
    by (auto simp: bindE_eq_Inr Let_def liftE_def dest!: txE_Inr query_rowE_Inr nowE_db)
  have view: "map_of m = settings_view (w_db w) user"
    using m by (auto simp: settings_view_def decode_settings_def split: option.splits)
  have "distinct (map fst (ord ups))" using ord ups by (simp add: permuting_distinct)
  with decode_distinct [OF m] have raw_is: "distinct (map fst raw)" "map_of raw = patched ups (settings_view (w_db w) user)"
    using fold_apply_patch patched_order [OF ord ups] by (auto simp: raw view)
  obtain d where "upsert_settings user (encode_settings raw) t (w_db w) = Some (d, n)" "w_db w' = d"
    using execE_Inr [OF x] w4 w' by auto
  then have "settings_data u (w_db w') = (if u = user then Some (encode_settings raw) else settings_data u (w_db w))" for u
    using upsert_settings_data by blast
  then have "settings_view (w_db w') u = (if u = user then map_of raw else settings_view (w_db w) u)" for u
    using decode_encode [OF raw_is(1)] by (auto simp: settings_view_def)
  with raw_is show ?thesis by (simp add: fun_eq_iff)
qed

interpretation sql_settings: settings_store sql_sstore account_tables_ok settings_view
proof
  fix P o1 user
  show "keeps P (ss_get (sql_sstore o1) user)"
    by (auto simp: sql_sstore_def sql_settings_get_def intro!: keeps_intros split: option.split)
next
  fix w o1 user raw w'
  assume "ss_get (sql_sstore o1) user w = (Inr raw, w')"
  then show "map_of raw = settings_view (w_db w) user"
    by (auto simp: sql_sstore_def sql_settings_get_def settings_view_def bindE_eq_Inr liftE_def
        dest!: query_rowE_Inr split: option.splits)
next
  fix w o1 ups user raw w'
  assume "permuting o1" "distinct (map fst (ups :: patch))" "ss_patch (sql_sstore o1) user ups w = (Inr raw, w')"
  then show "map_of raw = patched ups (settings_view (w_db w) user) \<and>
      settings_view (w_db w') = (settings_view (w_db w))(user := patched ups (settings_view (w_db w) user))"
    using sql_patch_is by (simp add: sql_sstore_def)
next
  fix o1 user ups w e w'
  assume "ss_patch (sql_sstore o1) user ups w = (Inl e, w')"
  then show "w_db w' = w_db w"
    by (auto simp: sql_sstore_def sql_settings_patch_def dest: txE_fail_db)
next
  fix o1 user ups
  show "keeps account_tables_ok (ss_patch (sql_sstore o1) user ups)"
    unfolding sql_sstore_def sql_settings_patch_def Let_def sstore.simps
    by (rule keeps_intros keeps_execE | erule (1) upsert_settings_ok)+
qed

subsection \<open>What the service promises\<close>

text \<open>
  An entry of an update that the service accepts: a known key, cleared or given one of
  its allowed values, or text of at most 128 bytes where the values are not closed.
\<close>

definition setting_ok :: "string \<times> string option \<Rightarrow> bool" where
  "setting_ok e = (case e of (k, v) \<Rightarrow> k \<in> set setting_keys \<and>
     (case v of None \<Rightarrow> True
      | Some x \<Rightarrow> if allowed_values k = [] then length x \<le> 128 else x \<in> set (allowed_values k)))"

definition setting_value :: "settings \<Rightarrow> string \<Rightarrow> string" where
  "setting_value s k =
     (if k = ''theme'' then sn_theme s else if k = ''forgeFilter'' then sn_forge s
      else if k = ''pipelinesHealthFilter'' then sn_health s
      else if k = ''pipelinesRepoSelector'' then sn_repo s
      else if k = ''pipelinesSortOrder'' then sn_sort s else sn_window s)"

definition shown_value :: "(string \<Rightarrow> string option) \<Rightarrow> string \<Rightarrow> string" where
  "shown_value m k = (case m k of Some v \<Rightarrow> v | None \<Rightarrow> setting_value default_settings k)"

lemma setting_value_simps:
  "setting_value s ''theme'' = sn_theme s" "setting_value s ''forgeFilter'' = sn_forge s"
  "setting_value s ''pipelinesHealthFilter'' = sn_health s"
  "setting_value s ''pipelinesRepoSelector'' = sn_repo s"
  "setting_value s ''pipelinesSortOrder'' = sn_sort s" "setting_value s ''telemetryWindow'' = sn_window s"
  by (simp_all add: setting_value_def)

lemma resolve_values:
  "map (setting_value (resolve raw)) setting_keys = map (shown_value (map_of raw)) setting_keys"
  unfolding setting_keys_def list.map resolve_def shown_value_def value_or_def setting_value_simps settings.simps
  by (rule refl)

lemma check_setting_ok: "check_setting e = Inr () \<longleftrightarrow> setting_ok e"
proof -
  obtain k v where e: "e = (k, v)" by (cases e)
  have "k \<in> set setting_keys \<Longrightarrow> allowed_values k = [] \<longleftrightarrow> k = ''pipelinesRepoSelector''"
    by (auto simp: setting_keys_def allowed_values_def enum_values_def)
  moreover have "map_of enum_values k = Some vs \<Longrightarrow> allowed_values k = vs \<and> vs \<noteq> []" for vs
    by (auto simp: allowed_values_def enum_values_def split: if_splits)
  moreover have "map_of enum_values k = None \<Longrightarrow> allowed_values k = []"
    by (simp add: allowed_values_def)
  ultimately show ?thesis
    by (cases "map_of enum_values k"; cases v)
      (auto simp: e check_setting_def setting_ok_def max_repo_selector_length_def)
qed

lemma check_settings_ok: "check_settings es = Inr () \<longleftrightarrow> list_all setting_ok es"
  unfolding check_settings_Inr by (simp add: check_setting_ok)

text \<open>
  C27: an update of the settings is all or nothing. It succeeds only when every entry is
  acceptable; then exactly the named keys of exactly this account change (set or
  cleared), and the answer shows each setting as stored or, where nothing is stored, its
  default. Otherwise nothing stored changes, and an unacceptable entry is reported as an
  invalid key or value before the database is touched. All this for any order in which
  the two loops visit the update.
\<close>

theorem settings_update_spec:
  assumes "account_tables_ok (w_db w)" and "permuting o1" and "permuting o2" and "distinct (map fst ups)"
  shows "case settings_update (sql_sstore o1) o2 user ups w of
      (Inl e, w') \<Rightarrow> w_db w' = w_db w \<and>
        (if list_all setting_ok ups then True else w' = w \<and> (is_err e ErrInvalidKey \<or> is_err e ErrInvalidValue))
    | (Inr s, w') \<Rightarrow> list_all setting_ok ups \<and> account_tables_ok (w_db w') \<and>
        settings_view (w_db w') = (settings_view (w_db w))(user := patched ups (settings_view (w_db w) user)) \<and>
        map (setting_value s) setting_keys = map (shown_value (settings_view (w_db w') user)) setting_keys"
proof -
  obtain r w' where u: "settings_update (sql_sstore o1) o2 user ups w = (r, w')" by fastforce
  note ok = check_settings_order [OF assms(3), of ups, unfolded check_settings_ok [of ups]]
  show ?thesis
  proof (cases r)
    case (Inl e)
    have "w_db w' = w_db w" using u sql_settings.update_failed by (simp add: Inl)
    moreover have "w' = w \<and> (is_err e ErrInvalidKey \<or> is_err e ErrInvalidValue)" if bad: "\<not> list_all setting_ok ups"
    proof -
      obtain x where x: "check_settings (o2 ups) = Inl x"
        using bad ok by (cases "check_settings (o2 ups)") auto
      then show ?thesis
        using u sql_settings.update_rejected [where ord = o2, OF x, of o1 user w] check_settings_Inl [OF x] by (simp add: Inl)
    qed
    ultimately show ?thesis by (simp add: u Inl)
  next
    case (Inr s)
    note upd = sql_settings.update_done [OF assms(1,2,4) u [unfolded Inr]]
    moreover have "account_tables_ok (w_db w')"
      using keepsD [OF sql_settings.update_keeps assms(1), of o1 o2 user ups] by (simp add: u)
    moreover have "map (setting_value s) setting_keys = map (shown_value (settings_view (w_db w') user)) setting_keys"
      using upd(3) resolve_values by auto
    ultimately show ?thesis using ok by (simp add: u Inr)
  qed
qed

definition settings_world :: world where
  "settings_world = \<lparr> w_db = empty_db\<lparr>
       t_users := [\<lparr> us_id = ''u'', us_handle = ''h'', us_display = ''admin'', us_created = 0 \<rparr>],
       t_settings := [\<lparr> sg_user = ''u'', sg_data = BlobMap [(''theme'', ''dark'')], sg_updated = 0 \<rparr>] \<rparr>,
     w_pos = 0, w_env = quiet_env, w_limits = [], w_ready = None \<rparr>"

definition example_patch :: patch where
  "example_patch = [(''theme'', None), (''pipelinesRepoSelector'', Some ''r1'')]"

theorem settings_update_spec_witness:
  "account_tables_ok (w_db settings_world) \<and>
   map_option (map (\<lambda>r. sg_data r)) (case settings_update (sql_sstore rev) (\<lambda>x. x) ''u'' example_patch settings_world of
      (Inl e, w') \<Rightarrow> None | (Inr s, w') \<Rightarrow> Some (t_settings (w_db w')))
    = Some [BlobMap [(''pipelinesRepoSelector'', ''r1'')]] \<and>
   (case settings_update (sql_sstore rev) (\<lambda>x. x) ''u'' example_patch settings_world of
      (Inl e, w') \<Rightarrow> False | (Inr s, w') \<Rightarrow> account_tables_ok (w_db w'))"
proof -
  let ?u = "settings_update (sql_sstore rev) (\<lambda>x. x) ''u'' example_patch settings_world"
  have 1: "account_tables_ok (w_db settings_world)" by code_simp
  have 2: "distinct (map fst example_patch)" by code_simp
  have 3: "map_option (map (\<lambda>r. sg_data r)) (case ?u of
      (Inl e, w') \<Rightarrow> None | (Inr s, w') \<Rightarrow> Some (t_settings (w_db w'))) = Some [BlobMap [(''pipelinesRepoSelector'', ''r1'')]]"
    by code_simp
  obtain s w' where u: "?u = (Inr s, w')"
    using 3 by (cases ?u; cases "fst ?u") auto
  show ?thesis
    using settings_update_spec [OF 1 permuting_rev permuting_id 2, of "''u''"] 1 3 unfolding u by simp
qed

definition stored_valid :: "db \<Rightarrow> bool" where
  "stored_valid d \<longleftrightarrow> (\<forall>user k v. settings_view d user k = Some v \<longrightarrow> setting_ok (k, Some v))"

lemma shown_allowed:
  assumes "\<And>v. m k = Some v \<Longrightarrow> setting_ok (k, Some v)" and "k \<in> set setting_keys"
  shows "setting_ok (k, Some (shown_value m k))"
proof (cases "m k")
  case None
  have "list_all (\<lambda>k. setting_ok (k, Some (setting_value default_settings k))) setting_keys"
    by code_simp
  with assms(2) show ?thesis by (simp add: shown_value_def None list_all_iff)
next
  case (Some v)
  with assms(1) show ?thesis by (simp add: shown_value_def)
qed

lemma update_stays_valid:
  assumes "account_tables_ok (w_db w)" and "stored_valid (w_db w)"
    and "permuting o1" and "permuting o2" and "distinct (map fst ups)"
  shows "stored_valid (w_db (snd (settings_update (sql_sstore o1) o2 user ups w)))"
proof -
  obtain r w' where u: "settings_update (sql_sstore o1) o2 user ups w = (r, w')" by fastforce
  show "stored_valid (w_db (snd (settings_update (sql_sstore o1) o2 user ups w)))"
  proof (cases r)
    case (Inl e)
    then show ?thesis using u assms(2) sql_settings.update_failed by simp
  next
    case (Inr s)
    note upd = sql_settings.update_done [OF assms(1,3,5) u [unfolded Inr]]
    have "list_all setting_ok ups"
      using upd(1) check_settings_order [OF assms(4), of ups] check_settings_ok [of ups] by simp
    then have "map_of ups k = Some (Some v) \<Longrightarrow> setting_ok (k, Some v)" for k v
      by (auto simp: list_all_iff dest: map_of_SomeD)
    with assms(2) show ?thesis
      unfolding stored_valid_def u snd_conv upd(2) by (auto simp: patched_def split: if_splits option.splits)
  qed
qed

text \<open>
  C28: valid settings stay valid. If every override stored for any account is an allowed
  value of a known key, an update, accepted or not, leaves it so, and what \<open>Get\<close> shows for
  a setting with a closed set of values is one of them.
\<close>

theorem settings_stay_valid:
  assumes "account_tables_ok (w_db w)" and "stored_valid (w_db w)"
    and "permuting o1" and "permuting o2" and "distinct (map fst ups)"
  shows "stored_valid (w_db (snd (settings_update (sql_sstore o1) o2 user ups w))) \<and>
    (case settings_get (sql_sstore o1) user w of
       (Inl e, w') \<Rightarrow> w_db w' = w_db w
     | (Inr s, w') \<Rightarrow> list_all (\<lambda>k. setting_ok (k, Some (setting_value s k))) setting_keys)"
proof
  show "stored_valid (w_db (snd (settings_update (sql_sstore o1) o2 user ups w)))"
    by (rule update_stays_valid [OF assms])
next
  obtain r w' where g: "settings_get (sql_sstore o1) user w = (r, w')" by fastforce
  show "case settings_get (sql_sstore o1) user w of
       (Inl e, w') \<Rightarrow> w_db w' = w_db w
     | (Inr s, w') \<Rightarrow> list_all (\<lambda>k. setting_ok (k, Some (setting_value s k))) setting_keys"
  proof (cases r)
    case (Inl e)
    then show ?thesis using keeps_all_db [OF sql_settings.get_keeps, of o1 user w] by (simp add: g)
  next
    case (Inr s)
    then obtain raw where s: "s = resolve raw" "map_of raw = settings_view (w_db w) user"
      using sql_settings.get_resolves [OF assms(1)] g by blast
    have "setting_value s k = shown_value (settings_view (w_db w) user) k" if "k \<in> set setting_keys" for k
      using resolve_values [of raw] that by (simp add: s map_eq_conv)
    moreover have "setting_ok (k, Some (shown_value (settings_view (w_db w) user) k))" if "k \<in> set setting_keys" for k
      using assms(2) that by (intro shown_allowed) (auto simp: stored_valid_def)
    ultimately show ?thesis by (simp add: g Inr list_all_iff)
  qed
qed

theorem settings_stay_valid_witness:
  "stored_valid (w_db (snd (settings_update (sql_sstore rev) rev ''u'' example_patch settings_world)))"
proof -
  have 1: "account_tables_ok (w_db settings_world)" by code_simp
  have 2: "distinct (map fst example_patch)" by code_simp
  have "setting_ok (''theme'', Some ''dark'')" by code_simp
  then have "stored_valid (w_db settings_world)"
    by (simp add: stored_valid_def settings_view_def settings_data_def settings_world_def empty_db_def
        decode_settings_def split: option.split)
  from settings_stay_valid [OF 1 this permuting_rev permuting_rev 2] show ?thesis by blast
qed

text \<open>
  Resetting the Pipelines filters: on success the three filters show their defaults
  and every other stored setting, of this account and of every other, is as before.
\<close>

theorem reset_filters_spec:
  assumes "account_tables_ok (w_db w)" and "permuting o1"
    and "reset_pipelines_filters (sql_sstore o1) o2 user w = (Inr s, w')"
  shows "sn_health s = ''unhealthy'' \<and> sn_repo s = ''all'' \<and> sn_sort s = ''name'' \<and>
    settings_view (w_db w') = (settings_view (w_db w))(user :=
      (settings_view (w_db w) user) |` (- set pipelines_filter_keys))"
proof -
  let ?ups = "map (\<lambda>key. (key, None)) pipelines_filter_keys :: patch"
  have d: "distinct (map fst ?ups)" by (simp add: pipelines_filter_keys_def)
  have p: "patched ?ups m = m |` (- set pipelines_filter_keys)" for m
    by (rule ext) (simp add: patched_def pipelines_filter_keys_def restrict_map_def)
  note upd = sql_settings.update_done [OF assms(1,2) d assms(3) [unfolded reset_pipelines_filters_def]]
  then have view: "settings_view (w_db w') =
      (settings_view (w_db w))(user := (settings_view (w_db w) user) |` (- set pipelines_filter_keys))"
    by (simp only: p)
  obtain raw where "s = resolve raw" "map_of raw = settings_view (w_db w) user |` (- set pipelines_filter_keys)"
    using upd(3) view by auto
  then show ?thesis
    using view by (auto simp: resolve_def value_or_def default_settings_def pipelines_filter_keys_def)
qed

theorem reset_filters_spec_witness:
  "sn_health (case reset_pipelines_filters (sql_sstore rev) rev ''u'' settings_world of (r, _) \<Rightarrow> projr r) = ''unhealthy''"
proof -
  let ?r = "reset_pipelines_filters (sql_sstore rev) rev ''u'' settings_world"
  have 1: "account_tables_ok (w_db settings_world)" by code_simp
  have "\<not> isl (fst ?r)" by code_simp
  then obtain s w' where r: "?r = (Inr s, w')" by (cases ?r; cases "fst ?r") auto
  from reset_filters_spec [OF 1 permuting_rev r] show ?thesis unfolding r by simp
qed

end
