(* ===== verification/Auth.thy ===== *)
theory Auth
  imports GoIO
begin

text \<open>
  Dashboard authentication (\<open>internal/auth\<close>): the account, its WebAuthn credentials, the
  ceremonies in flight, sessions and API tokens; the service over its store interface and
  what it relies on. The WebAuthn library and the JSON form of its values are parameters:
  a record of functions over any types of credentials and of session data.
\<close>

subsection \<open>Data\<close>

definition token_ttl_ceiling :: int where
  "token_ttl_ceiling = 365 * 24 * hours"

definition token_ttl_default :: int where
  "token_ttl_default = 90 * 24 * hours"

definition ceremony_ttl :: int where
  "ceremony_ttl = 5 * 60 * seconds"

definition registration_display_name :: string where
  "registration_display_name = ''admin''"

record auth_token =
  at_id :: string
  at_user :: string
  at_created :: gotime
  at_expires :: gotime

record credential_info =
  ci_id :: string
  ci_label :: string
  ci_created :: gotime
  ci_revocable :: bool

text \<open>\<open>webauthnUser\<close>: what the library asks of a user.\<close>

record 'c webauthn_user =
  wu_handle :: string
  wu_name :: string
  wu_credentials :: "'c list"

text \<open>
  The library: starting a ceremony uses randomness and gives the options for the browser
  and the session data to keep; finishing one checks the browser's answer.
\<close>

record ('c, 's) webauthn =
  wa_begin_registration :: "string \<Rightarrow> 'c webauthn_user \<Rightarrow> (string \<times> 's) res"
  wa_finish_registration :: "'c webauthn_user \<Rightarrow> 's \<Rightarrow> string \<Rightarrow> 'c res"
  wa_begin_login :: "string \<Rightarrow> 'c webauthn_user \<Rightarrow> (string \<times> 's) res"
  wa_finish_login :: "'c webauthn_user \<Rightarrow> 's \<Rightarrow> string \<Rightarrow> 'c res"
  wa_session_user :: "'s \<Rightarrow> string"
  wa_session_json :: "'s \<Rightarrow> string res"
  wa_session_of_json :: "string \<Rightarrow> 's res"
  wa_cred_id :: "'c \<Rightarrow> string"
  wa_cred_json :: "'c \<Rightarrow> string res"
  wa_cred_of_json :: "string \<Rightarrow> 'c res"

record 'c astore =
  as_create_user :: "string \<Rightarrow> string \<Rightarrow> user_row io"
  as_get_user :: "user_row io"
  as_put_credential :: "string \<Rightarrow> 'c \<Rightarrow> unit io"
  as_put_labeled :: "string \<Rightarrow> 'c \<Rightarrow> string \<Rightarrow> unit io"
  as_credentials :: "string \<Rightarrow> 'c list io"
  as_infos :: "string \<Rightarrow> credential_info list io"
  as_revoke_credential :: "string \<Rightarrow> string \<Rightarrow> unit io"
  as_save_ceremony :: "string \<Rightarrow> string \<Rightarrow> gotime \<Rightarrow> unit io"
  as_take_ceremony :: "string \<Rightarrow> string io"
  as_create_session :: "string \<Rightarrow> string io"
  as_session :: "string \<Rightarrow> string io"
  as_delete_session :: "string \<Rightarrow> unit io"
  as_create_token :: "string \<Rightarrow> int \<Rightarrow> (auth_token \<times> string) io"
  as_token_user :: "string \<Rightarrow> string io"
  as_revoke_token :: "string \<Rightarrow> string \<Rightarrow> unit io"

subsection \<open>Ceremonies\<close>

definition user_with_credentials :: "'c astore \<Rightarrow> (user_row \<times> 'c list) io" where
  "user_with_credentials st =
     bindE (wrapE ''load user'' (as_get_user st)) (\<lambda>user.
     bindE (wrapE ''load credentials'' (as_credentials st (us_id user))) (\<lambda>creds.
       retE (user, creds)))"

definition save_ceremony :: "('c, 's) webauthn \<Rightarrow> 'c astore \<Rightarrow> 's \<Rightarrow> string io" where
  "save_ceremony wa st session =
     bindE randE (\<lambda>i.
     bindE (wrapE ''marshal ceremony'' (liftE (wa_session_json wa session))) (\<lambda>data.
     bindE nowE (\<lambda>now.
     bindE (wrapE ''save ceremony'' (as_save_ceremony st i data (now + ceremony_ttl))) (\<lambda>_.
       retE i))))"

definition load_ceremony :: "('c, 's) webauthn \<Rightarrow> 'c astore \<Rightarrow> string \<Rightarrow> 's io" where
  "load_ceremony wa st i =
     bindE (wrapE ''load ceremony'' (as_take_ceremony st i)) (\<lambda>data.
       wrapE ''unmarshal ceremony'' (liftE (wa_session_of_json wa data)))"

definition temp_user :: "string \<Rightarrow> 'c webauthn_user" where
  "temp_user handle = \<lparr> wu_handle = handle, wu_name = registration_display_name, wu_credentials = [] \<rparr>"

definition real_user :: "user_row \<Rightarrow> 'c list \<Rightarrow> 'c webauthn_user" where
  "real_user user creds = \<lparr> wu_handle = us_handle user, wu_name = us_display user, wu_credentials = creds \<rparr>"

definition begin_registration :: "('c, 's) webauthn \<Rightarrow> 'c astore \<Rightarrow> (string \<times> string) io" where
  "begin_registration wa st =
     bindE (tryE (as_get_user st)) (\<lambda>got.
       case got of
         Inr _ \<Rightarrow> throwE (Sentinel ErrUserExists)
       | Inl e \<Rightarrow>
           if \<not> is_err e ErrNoUser then throwE (wrap_error ''check existing user'' e)
           else
             bindE randE (\<lambda>handle.
             bindE randE (\<lambda>nonce.
             bindE (wrapE ''begin registration'' (liftE (wa_begin_registration wa nonce (temp_user handle)))) (\<lambda>(creation, session).
             bindE (save_ceremony wa st session) (\<lambda>i.
               retE (creation, i))))))"

definition finish_registration ::
  "('c, 's) webauthn \<Rightarrow> 'c astore \<Rightarrow> string \<Rightarrow> string \<Rightarrow> (user_row \<times> string) io" where
  "finish_registration wa st i request =
     bindE (load_ceremony wa st i) (\<lambda>session.
     bindE (wrapE ''finish registration''
       (liftE (wa_finish_registration wa (temp_user (wa_session_user wa session)) session request))) (\<lambda>cred.
     bindE (wrapE ''create user'' (as_create_user st (wa_session_user wa session) registration_display_name)) (\<lambda>user.
     bindE (wrapE ''save credential'' (as_put_credential st (us_id user) cred)) (\<lambda>_.
     bindE (wrapE ''create session'' (as_create_session st (us_id user))) (\<lambda>sid.
       retE (user, sid))))))"

definition begin_login :: "('c, 's) webauthn \<Rightarrow> 'c astore \<Rightarrow> (string \<times> string) io" where
  "begin_login wa st =
     bindE (user_with_credentials st) (\<lambda>(user, creds).
     bindE randE (\<lambda>nonce.
     bindE (wrapE ''begin login'' (liftE (wa_begin_login wa nonce (real_user user creds)))) (\<lambda>(assertion, session).
     bindE (save_ceremony wa st session) (\<lambda>i.
       retE (assertion, i)))))"

definition finish_login :: "('c, 's) webauthn \<Rightarrow> 'c astore \<Rightarrow> string \<Rightarrow> string \<Rightarrow> string io" where
  "finish_login wa st i request =
     bindE (load_ceremony wa st i) (\<lambda>session.
     bindE (user_with_credentials st) (\<lambda>(user, creds).
     bindE (wrapE ''finish login'' (liftE (wa_finish_login wa (real_user user creds) session request))) (\<lambda>cred.
     bindE (wrapE ''save credential'' (as_put_credential st (us_id user) cred)) (\<lambda>_.
       wrapE ''create session'' (as_create_session st (us_id user))))))"

definition begin_add_credential :: "('c, 's) webauthn \<Rightarrow> 'c astore \<Rightarrow> (string \<times> string) io" where
  "begin_add_credential wa st =
     bindE (user_with_credentials st) (\<lambda>(user, creds).
     bindE randE (\<lambda>nonce.
     bindE (wrapE ''begin add credential'' (liftE (wa_begin_registration wa nonce (real_user user creds)))) (\<lambda>(creation, session).
     bindE (save_ceremony wa st session) (\<lambda>i.
       retE (creation, i)))))"

definition finish_add_credential ::
  "('c, 's) webauthn \<Rightarrow> 'c astore \<Rightarrow> string \<Rightarrow> string \<Rightarrow> string \<Rightarrow> unit io" where
  "finish_add_credential wa st i label request =
     bindE (load_ceremony wa st i) (\<lambda>session.
     bindE (user_with_credentials st) (\<lambda>(user, creds).
     bindE (wrapE ''finish add credential''
       (liftE (wa_finish_registration wa (real_user user creds) session request))) (\<lambda>cred.
       wrapE ''save credential'' (as_put_labeled st (us_id user) cred label))))"

subsection \<open>Credentials, sessions and tokens\<close>

definition list_credentials :: "'c astore \<Rightarrow> string \<Rightarrow> credential_info list io" where
  "list_credentials st user =
     bindE (wrapE ''list credentials'' (as_infos st user)) (\<lambda>infos.
       retE (map (\<lambda>i. i\<lparr>ci_revocable := 1 < length infos\<rparr>) infos))"

definition revoke_credential :: "'c astore \<Rightarrow> string \<Rightarrow> string \<Rightarrow> unit io" where
  "revoke_credential st user cred = wrapE ''revoke credential'' (as_revoke_credential st user cred)"

definition logout :: "'c astore \<Rightarrow> string \<Rightarrow> unit io" where
  "logout st sid = wrapE ''delete session'' (as_delete_session st sid)"

definition issue_token :: "'c astore \<Rightarrow> string \<Rightarrow> int \<Rightarrow> (auth_token \<times> string) io" where
  "issue_token st user ttl = wrapE ''create token'' (as_create_token st user ttl)"

definition authenticate_token :: "'c astore \<Rightarrow> string \<Rightarrow> string io" where
  "authenticate_token st raw = wrapE ''look up token'' (as_token_user st raw)"

definition revoke_token :: "'c astore \<Rightarrow> string \<Rightarrow> string \<Rightarrow> unit io" where
  "revoke_token st user i = wrapE ''revoke token'' (as_revoke_token st user i)"

subsection \<open>What the service relies on\<close>

text \<open>
  The contract of the store: its queries change nothing, and the ceremonies in flight
  (\<open>ceremonies\<close>, the abstraction of their table) behave like a map: \<open>SaveCeremony\<close> adds an
  entry, \<open>TakeCeremony\<close> hands it out once and removes it, nothing else touches it.
\<close>

locale auth_store =
  fixes st :: "'c astore"
    and ceremonies :: "db \<Rightarrow> string \<Rightarrow> (string \<times> gotime) option"
  assumes reads_user: "keeps P (as_get_user st)"
    and reads_credentials: "keeps P (as_credentials st user)"
    and reads_infos: "keeps P (as_infos st user)"
    and reads_session: "keeps P (as_session st sid)"
    and reads_token: "keeps P (as_token_user st raw)"
    and keeps_ceremonies:
      "keeps (\<lambda>d. ceremonies d = C) (as_create_user st handle name)"
      "keeps (\<lambda>d. ceremonies d = C) (as_put_credential st user cred)"
      "keeps (\<lambda>d. ceremonies d = C) (as_put_labeled st user cred label)"
      "keeps (\<lambda>d. ceremonies d = C) (as_create_session st user)"
    and take_is:
      "as_take_ceremony st i w = (Inr data, w') \<Longrightarrow>
       \<exists>t. ceremonies (w_db w) i = Some (data, t) \<and> ceremonies (w_db w') = (ceremonies (w_db w))(i := None)"
    and save_is:
      "as_save_ceremony st i data t w = (Inr u, w') \<Longrightarrow>
       ceremonies (w_db w') = (ceremonies (w_db w))(i \<mapsto> (data, t))"
begin

lemmas reads = reads_user reads_credentials reads_infos reads_session reads_token

lemma keeps_user_with_credentials: "keeps P (user_with_credentials st)"
  unfolding user_with_credentials_def by (intro keeps_intros reads)

lemma keeps_list_credentials: "keeps P (list_credentials st user)"
  unfolding list_credentials_def by (intro keeps_intros reads)

lemma keeps_authenticate: "keeps P (authenticate_token st raw)"
  unfolding authenticate_token_def by (intro keeps_intros reads)

text \<open>A ceremony that was handed out is gone, and nothing but \<open>SaveCeremony\<close> brings it back.\<close>

lemma load_takes:
  assumes "load_ceremony wa st i w = (Inr s, w')"
  shows "\<exists>data t. ceremonies (w_db w) i = Some (data, t) \<and> wa_session_of_json wa data = Inr s \<and>
     ceremonies (w_db w') = (ceremonies (w_db w))(i := None)"
  using assms by (auto simp: load_ceremony_def bindE_eq_Inr liftE_def dest!: take_is)

lemma user_with_credentials_db: "user_with_credentials st w = (r, w') \<Longrightarrow> w_db w' = w_db w"
  using keeps_all_db [OF keeps_user_with_credentials, of w] by simp

lemma keeps_ceremonies_eq:
  assumes "\<And>C. keeps (\<lambda>d. ceremonies d = C) m" and "m w = (r, w')"
  shows "ceremonies (w_db w') = ceremonies (w_db w)"
  using keepsD [OF assms(1), of w "ceremonies (w_db w)"] assms(2) by simp

lemma finish_login_takes:
  assumes "finish_login wa st i req w = (Inr sid, w')"
  shows "ceremonies (w_db w) i \<noteq> None" and "ceremonies (w_db w') = (ceremonies (w_db w))(i := None)"
proof -
  obtain s w1 user creds w2 cred w3 w4 where
    1: "load_ceremony wa st i w = (Inr s, w1)" and
    2: "user_with_credentials st w1 = (Inr (user, creds), w2)" and
    3: "liftE (wa_finish_login wa (real_user user creds) s req) w2 = (Inr cred, w3)" and
    4: "as_put_credential st (us_id user) cred w3 = (Inr (), w4)" and
    5: "as_create_session st (us_id user) w4 = (Inr sid, w')"
    using assms by (auto simp: finish_login_def bindE_eq_Inr)
  have "w3 = w2" using 3 by (simp add: liftE_def)
  then show "ceremonies (w_db w) i \<noteq> None" "ceremonies (w_db w') = (ceremonies (w_db w))(i := None)"
    using load_takes [OF 1] user_with_credentials_db [OF 2]
      keeps_ceremonies_eq [OF keeps_ceremonies(2) 4] keeps_ceremonies_eq [OF keeps_ceremonies(4) 5]
    by auto
qed

lemma finish_registration_takes:
  assumes "finish_registration wa st i req w = (Inr r, w')"
  shows "ceremonies (w_db w) i \<noteq> None" and "ceremonies (w_db w') = (ceremonies (w_db w))(i := None)"
proof -
  obtain s w1 cred w2 user w3 w4 sid where
    1: "load_ceremony wa st i w = (Inr s, w1)" and
    2: "liftE (wa_finish_registration wa (temp_user (wa_session_user wa s)) s req) w1 = (Inr cred, w2)" and
    3: "as_create_user st (wa_session_user wa s) registration_display_name w2 = (Inr user, w3)" and
    4: "as_put_credential st (us_id user) cred w3 = (Inr (), w4)" and
    5: "as_create_session st (us_id user) w4 = (Inr sid, w')"
    using assms by (auto simp: finish_registration_def bindE_eq_Inr)
  have "w2 = w1" using 2 by (simp add: liftE_def)
  then show "ceremonies (w_db w) i \<noteq> None" "ceremonies (w_db w') = (ceremonies (w_db w))(i := None)"
    using load_takes [OF 1] keeps_ceremonies_eq [OF keeps_ceremonies(1) 3]
      keeps_ceremonies_eq [OF keeps_ceremonies(2) 4] keeps_ceremonies_eq [OF keeps_ceremonies(4) 5]
    by auto
qed

lemma finish_add_takes:
  assumes "finish_add_credential wa st i label req w = (Inr u, w')"
  shows "ceremonies (w_db w) i \<noteq> None" and "ceremonies (w_db w') = (ceremonies (w_db w))(i := None)"
proof -
  obtain s w1 user creds w2 cred w3 where
    1: "load_ceremony wa st i w = (Inr s, w1)" and
    2: "user_with_credentials st w1 = (Inr (user, creds), w2)" and
    3: "liftE (wa_finish_registration wa (real_user user creds) s req) w2 = (Inr cred, w3)" and
    4: "as_put_labeled st (us_id user) cred label w3 = (Inr u, w')"
    using assms by (auto simp: finish_add_credential_def bindE_eq_Inr)
  have "w3 = w2" using 3 by (simp add: liftE_def)
  then show "ceremonies (w_db w) i \<noteq> None" "ceremonies (w_db w') = (ceremonies (w_db w))(i := None)"
    using load_takes [OF 1] user_with_credentials_db [OF 2] keeps_ceremonies_eq [OF keeps_ceremonies(3) 4]
    by auto
qed

end

text \<open>A store that, besides, keeps an integrity condition of the database.\<close>

locale auth_guard = auth_store st ceremonies
  for st :: "'c astore" and ceremonies :: "db \<Rightarrow> string \<Rightarrow> (string \<times> gotime) option" +
  fixes inv :: "db \<Rightarrow> bool"
  assumes keeps_inv:
      "keeps inv (as_create_user st handle name)" "keeps inv (as_put_credential st user cred)"
      "keeps inv (as_put_labeled st user cred label)" "keeps inv (as_revoke_credential st user cid)"
      "keeps inv (as_save_ceremony st i data t)" "keeps inv (as_take_ceremony st i)"
      "keeps inv (as_create_session st user)" "keeps inv (as_delete_session st sid)"
      "keeps inv (as_create_token st user ttl)" "keeps inv (as_revoke_token st user tid)"
begin

lemma keeps_save_ceremony: "keeps inv (save_ceremony wa st s)"
  unfolding save_ceremony_def by (intro keeps_intros keeps_inv)

lemma keeps_load_ceremony: "keeps inv (load_ceremony wa st i)"
  unfolding load_ceremony_def by (intro keeps_intros keeps_inv)

lemmas ceremony_parts = keeps_user_with_credentials keeps_save_ceremony keeps_load_ceremony

lemma keeps_begin_registration: "keeps inv (begin_registration wa st)"
  unfolding begin_registration_def
  by (auto intro!: keeps_intros reads keeps_save_ceremony split: sum.split prod.split)

lemma keeps_finish_registration: "keeps inv (finish_registration wa st i r)"
  unfolding finish_registration_def by (intro keeps_intros keeps_inv keeps_load_ceremony)

lemma keeps_begin_login: "keeps inv (begin_login wa st)"
  unfolding begin_login_def by (auto intro!: keeps_intros ceremony_parts split: prod.split)

lemma keeps_finish_login: "keeps inv (finish_login wa st i r)"
  unfolding finish_login_def by (auto intro!: keeps_intros ceremony_parts keeps_inv split: prod.split)

lemma keeps_begin_add: "keeps inv (begin_add_credential wa st)"
  unfolding begin_add_credential_def by (auto intro!: keeps_intros ceremony_parts split: prod.split)

lemma keeps_finish_add: "keeps inv (finish_add_credential wa st i l r)"
  unfolding finish_add_credential_def by (auto intro!: keeps_intros ceremony_parts keeps_inv split: prod.split)

lemma keeps_account_ops:
  "keeps inv (revoke_credential st user cid)" "keeps inv (logout st sid)"
  "keeps inv (issue_token st user ttl)" "keeps inv (revoke_token st user tid)"
  unfolding revoke_credential_def logout_def issue_token_def revoke_token_def
  by (intro keeps_intros keeps_inv)+

lemmas service_keeps = keeps_begin_registration keeps_finish_registration keeps_begin_login
  keeps_finish_login keeps_begin_add keeps_finish_add keeps_account_ops

end

end
