(* ===== verification/AuthStore.thy ===== *)
theory AuthStore
  imports Auth
begin

text \<open>
  The SQLite adapter of the authentication store (\<open>internal/auth/sqlite\<close>): each statement
  as an update of the tables, each method as the code runs them, and the proof that the
  adapter keeps the contract of \<open>auth_store\<close>. The hash of a raw API token (SHA-256) is a
  parameter \<open>sha\<close>; \<open>RandomHex\<close> and \<open>uuid.NewString\<close> read the random source.
\<close>

definition session_ttl :: int where
  "session_ttl = 30 * 24 * hours"

subsection \<open>The account\<close>

definition insert_user :: "user_row \<Rightarrow> db \<Rightarrow> constraint + db" where
  "insert_user u d =
     (if has_key us_id (us_id u) (t_users d) then Inl PrimaryKey
      else if has_key us_handle (us_handle u) (t_users d) then Inl UniqueKey
      else Inr (d\<lparr>t_users := t_users d @ [u]\<rparr>))"

definition count_users :: "nat option io" where
  "count_users = query_rowE (\<lambda>d. Some (length (t_users d)))"

text \<open>The two database calls of \<open>CreateUser\<close> are separate: no transaction spans them.\<close>

definition create_user_check :: "unit io" where
  "create_user_check =
     bindE (wrapE ''count users'' count_users) (\<lambda>n.
       if n \<noteq> None \<and> the n > 0 then throwE (Sentinel ErrUserExists) else retE ())"

definition create_user_insert :: "string \<Rightarrow> string \<Rightarrow> user_row io" where
  "create_user_insert handle name =
     bindE randE (\<lambda>i.
     bindE nowE (\<lambda>now.
     let user = \<lparr> us_id = i, us_handle = handle, us_display = name, us_created = now \<rparr> in
     bindE (wrapE ''insert user'' (insertE (insert_user user))) (\<lambda>_.
       retE user)))"

definition sql_create_user :: "string \<Rightarrow> string \<Rightarrow> user_row io" where
  "sql_create_user handle name = thenE create_user_check (create_user_insert handle name)"

definition sql_get_user :: "user_row io" where
  "sql_get_user =
     bindE (wrapE ''query user'' (query_rowE (\<lambda>d. first_row (t_users d)))) (\<lambda>row.
       case row of None \<Rightarrow> throwE (Sentinel ErrNoUser) | Some u \<Rightarrow> retE u)"

subsection \<open>Credentials\<close>

definition upsert_credential :: "credential_row \<Rightarrow> db \<Rightarrow> (db \<times> nat) option" where
  "upsert_credential c d =
     (if has_key cr_id (cr_id c) (t_credentials d)
      then Some (d\<lparr>t_credentials := map (\<lambda>x. if cr_id x = cr_id c then x\<lparr>cr_data := cr_data c\<rparr> else x)
                     (t_credentials d)\<rparr>, 1)
      else if \<not> has_key us_id (cr_user c) (t_users d) then None
      else Some (d\<lparr>t_credentials := t_credentials d @ [c]\<rparr>, 1))"

definition sql_put_credential :: "('c, 's) webauthn \<Rightarrow> string \<Rightarrow> 'c \<Rightarrow> unit io" where
  "sql_put_credential wa user cred =
     bindE (wrapE ''marshal credential'' (liftE (wa_cred_json wa cred))) (\<lambda>data.
     bindE nowE (\<lambda>now.
     bindE (wrapE ''upsert credential'' (execE (upsert_credential
       \<lparr> cr_id = wa_cred_id wa cred, cr_user = user, cr_data = data, cr_label = [], cr_created_at = now \<rparr>))) (\<lambda>_.
       retE ())))"

definition sql_put_labeled :: "('c, 's) webauthn \<Rightarrow> string \<Rightarrow> 'c \<Rightarrow> string \<Rightarrow> unit io" where
  "sql_put_labeled wa user cred label =
     bindE (wrapE ''marshal credential'' (liftE (wa_cred_json wa cred))) (\<lambda>data.
     bindE nowE (\<lambda>now.
     bindE (wrapE ''insert labeled credential'' (execE (upsert_credential
       \<lparr> cr_id = wa_cred_id wa cred, cr_user = user, cr_data = data, cr_label = label, cr_created_at = now \<rparr>))) (\<lambda>_.
       retE ())))"

definition user_credentials :: "string \<Rightarrow> db \<Rightarrow> credential_row list" where
  "user_credentials user d = filter (\<lambda>c. cr_user c = user) (t_credentials d)"

definition sql_credentials :: "('c, 's) webauthn \<Rightarrow> string \<Rightarrow> 'c list io" where
  "sql_credentials wa user =
     bindE (queryE ''query credentials'' ''scan credential'' ''iterate credentials''
              (\<lambda>d. map cr_data (user_credentials user d)))
       (mapE (\<lambda>data. wrapE ''unmarshal credential'' (liftE (wa_cred_of_json wa data))))"

definition sql_infos :: "string \<Rightarrow> credential_info list io" where
  "sql_infos user =
     queryE ''query credential infos'' ''scan credential info'' ''iterate credential infos''
       (\<lambda>d. map (\<lambda>c. \<lparr> ci_id = cr_id c, ci_label = cr_label c, ci_created = cr_created_at c, ci_revocable = False \<rparr>)
          (sort_func (\<lambda>a b. cmp_compare (cr_created_at a) (cr_created_at b)) (user_credentials user d)))"

definition delete_credential :: "string \<Rightarrow> string \<Rightarrow> db \<Rightarrow> (db \<times> nat) option" where
  "delete_credential user cid d =
     (let hit = (\<lambda>c. cr_id c = cid \<and> cr_user c = user)
      in Some (d\<lparr>t_credentials := filter (\<lambda>c. \<not> hit c) (t_credentials d)\<rparr>, length (filter hit (t_credentials d))))"

definition sql_revoke_credential :: "string \<Rightarrow> string \<Rightarrow> unit io" where
  "sql_revoke_credential user cid =
     txE ''begin transaction'' ''commit transaction''
       (bindE (wrapE ''count credentials'' (query_rowE (\<lambda>d. Some (length (user_credentials user d))))) (\<lambda>n.
        if n = None \<or> the n \<le> 1 then throwE (Sentinel ErrLastCredential)
        else bindE (wrapE ''delete credential'' (execE (delete_credential user cid))) (\<lambda>rows.
             if rows = 0 then throwE (Sentinel ErrCredentialNotFound) else retE ())))"

subsection \<open>Ceremonies\<close>

definition insert_ceremony :: "ceremony_row \<Rightarrow> db \<Rightarrow> constraint + db" where
  "insert_ceremony c d =
     (if has_key ce_id (ce_id c) (t_ceremonies d) then Inl PrimaryKey
      else Inr (d\<lparr>t_ceremonies := t_ceremonies d @ [c]\<rparr>))"

definition sql_save_ceremony :: "string \<Rightarrow> string \<Rightarrow> gotime \<Rightarrow> unit io" where
  "sql_save_ceremony i data t =
     wrapE ''insert ceremony'' (insertE (insert_ceremony \<lparr> ce_id = i, ce_data = data, ce_expires = t \<rparr>))"

definition find_ceremony :: "string \<Rightarrow> db \<Rightarrow> (string \<times> gotime) option" where
  "find_ceremony i d = map_option (\<lambda>c. (ce_data c, ce_expires c)) (find (\<lambda>c. ce_id c = i) (t_ceremonies d))"

definition delete_ceremony :: "string \<Rightarrow> db \<Rightarrow> (db \<times> nat) option" where
  "delete_ceremony i d =
     Some (d\<lparr>t_ceremonies := filter (\<lambda>c. ce_id c \<noteq> i) (t_ceremonies d)\<rparr>,
           length (filter (\<lambda>c. ce_id c = i) (t_ceremonies d)))"

definition sql_take_ceremony :: "string \<Rightarrow> string io" where
  "sql_take_ceremony i =
     bindE (wrapE ''query ceremony'' (query_rowE (find_ceremony i))) (\<lambda>row.
       case row of
         None \<Rightarrow> throwE (Sentinel ErrCeremonyNotFound)
       | Some (data, expires) \<Rightarrow>
           bindE (wrapE ''delete ceremony'' (execE (delete_ceremony i))) (\<lambda>_.
           bindE nowE (\<lambda>now.
             if expires < now then throwE (Sentinel ErrCeremonyNotFound) else retE data)))"

subsection \<open>Sessions\<close>

definition insert_session :: "session_row \<Rightarrow> db \<Rightarrow> constraint + db" where
  "insert_session s d =
     (if has_key se_id (se_id s) (t_sessions d) then Inl PrimaryKey
      else if \<not> has_key us_id (se_user s) (t_users d) then Inl ForeignKey
      else Inr (d\<lparr>t_sessions := t_sessions d @ [s]\<rparr>))"

definition sql_create_session :: "string \<Rightarrow> string io" where
  "sql_create_session user =
     bindE randE (\<lambda>i.
     bindE nowE (\<lambda>now.
     bindE (wrapE ''insert session'' (insertE (insert_session
       \<lparr> se_id = i, se_user = user, se_expires = now + session_ttl, se_created = now \<rparr>))) (\<lambda>_.
       retE i)))"

definition find_session :: "string \<Rightarrow> db \<Rightarrow> (string \<times> gotime) option" where
  "find_session i d = map_option (\<lambda>s. (se_user s, se_expires s)) (find (\<lambda>s. se_id s = i) (t_sessions d))"

definition sql_session :: "string \<Rightarrow> string io" where
  "sql_session i =
     bindE (wrapE ''query session'' (query_rowE (find_session i))) (\<lambda>row.
       case row of
         None \<Rightarrow> throwE (Sentinel ErrSessionNotFound)
       | Some (user, expires) \<Rightarrow>
           bindE nowE (\<lambda>now. if expires < now then throwE (Sentinel ErrSessionNotFound) else retE user))"

definition delete_session_row :: "string \<Rightarrow> db \<Rightarrow> (db \<times> nat) option" where
  "delete_session_row i d =
     Some (d\<lparr>t_sessions := filter (\<lambda>s. se_id s \<noteq> i) (t_sessions d)\<rparr>,
           length (filter (\<lambda>s. se_id s = i) (t_sessions d)))"

definition sql_delete_session :: "string \<Rightarrow> unit io" where
  "sql_delete_session i = bindE (wrapE ''delete session'' (execE (delete_session_row i))) (\<lambda>_. retE ())"

subsection \<open>API tokens\<close>

definition token_ttl :: "int \<Rightarrow> int" where
  "token_ttl requested = min (if requested \<le> 0 then token_ttl_default else requested) token_ttl_ceiling"

definition insert_token :: "api_token_row \<Rightarrow> db \<Rightarrow> constraint + db" where
  "insert_token t d =
     (if has_key tk_id (tk_id t) (t_api_tokens d) then Inl PrimaryKey
      else if has_key tk_hash (tk_hash t) (t_api_tokens d) then Inl UniqueKey
      else if \<not> has_key us_id (tk_user t) (t_users d) then Inl ForeignKey
      else Inr (d\<lparr>t_api_tokens := t_api_tokens d @ [t]\<rparr>))"

definition sql_create_token :: "(string \<Rightarrow> string) \<Rightarrow> string \<Rightarrow> int \<Rightarrow> (auth_token \<times> string) io" where
  "sql_create_token sha user requested =
     bindE randE (\<lambda>raw.
     bindE nowE (\<lambda>now.
     bindE randE (\<lambda>i.
     let tok = \<lparr> at_id = i, at_user = user, at_created = now, at_expires = now + token_ttl requested \<rparr> in
     bindE (wrapE ''insert token'' (insertE (insert_token
       \<lparr> tk_id = i, tk_user = user, tk_hash = sha raw, tk_expires = at_expires tok, tk_revoked = None,
         tk_created_at = now \<rparr>))) (\<lambda>_.
       retE (tok, raw)))))"

definition find_token :: "string \<Rightarrow> db \<Rightarrow> (string \<times> gotime \<times> gotime option) option" where
  "find_token hash d =
     map_option (\<lambda>t. (tk_user t, tk_expires t, tk_revoked t)) (find (\<lambda>t. tk_hash t = hash) (t_api_tokens d))"

definition sql_token_user :: "(string \<Rightarrow> string) \<Rightarrow> string \<Rightarrow> string io" where
  "sql_token_user sha raw =
     bindE (wrapE ''query token'' (query_rowE (find_token (sha raw)))) (\<lambda>row.
       case row of
         None \<Rightarrow> throwE (Sentinel ErrTokenNotFound)
       | Some (user, expires, revoked) \<Rightarrow>
           if revoked \<noteq> None then throwE (Sentinel ErrTokenNotFound)
           else bindE nowE (\<lambda>now. if expires < now then throwE (Sentinel ErrTokenNotFound) else retE user))"

definition mark_revoked :: "string \<Rightarrow> string \<Rightarrow> gotime \<Rightarrow> db \<Rightarrow> (db \<times> nat) option" where
  "mark_revoked user i now d =
     (let hit = (\<lambda>t. tk_id t = i \<and> tk_user t = user \<and> tk_revoked t = None)
      in Some (d\<lparr>t_api_tokens := map (\<lambda>t. if hit t then t\<lparr>tk_revoked := Some now\<rparr> else t) (t_api_tokens d)\<rparr>,
               length (filter hit (t_api_tokens d))))"

definition sql_revoke_token :: "string \<Rightarrow> string \<Rightarrow> unit io" where
  "sql_revoke_token user i =
     bindE nowE (\<lambda>now.
     bindE (wrapE ''revoke token'' (execE (mark_revoked user i now))) (\<lambda>n.
       if n = 0 then throwE (Sentinel ErrTokenNotFound) else retE ()))"

definition sql_astore :: "('c, 's) webauthn \<Rightarrow> (string \<Rightarrow> string) \<Rightarrow> 'c astore" where
  "sql_astore wa sha =
     \<lparr> as_create_user = sql_create_user, as_get_user = sql_get_user,
       as_put_credential = sql_put_credential wa, as_put_labeled = sql_put_labeled wa,
       as_credentials = sql_credentials wa, as_infos = sql_infos,
       as_revoke_credential = sql_revoke_credential, as_save_ceremony = sql_save_ceremony,
       as_take_ceremony = sql_take_ceremony, as_create_session = sql_create_session,
       as_session = sql_session, as_delete_session = sql_delete_session,
       as_create_token = sql_create_token sha, as_token_user = sql_token_user sha,
       as_revoke_token = sql_revoke_token \<rparr>"

subsection \<open>Integrity\<close>

text \<open>
  The invariant of the authentication tables: keys and references are sound, there is at
  most one account, an API token lasts longer than nothing and at most a year, a session
  lasts exactly thirty days.
\<close>

definition auth_inv :: "db \<Rightarrow> bool" where
  "auth_inv d \<longleftrightarrow> account_tables_ok d \<and> length (t_users d) \<le> 1 \<and>
     list_all (\<lambda>t. 0 < tk_expires t - tk_created_at t \<and> tk_expires t - tk_created_at t \<le> token_ttl_ceiling)
       (t_api_tokens d) \<and>
     list_all (\<lambda>s. se_expires s - se_created s = session_ttl) (t_sessions d)"

lemma token_ttl_range: "0 < token_ttl r \<and> token_ttl r \<le> token_ttl_ceiling"
  by (simp add: token_ttl_def token_ttl_default_def token_ttl_ceiling_def hours_def seconds_def)

lemma insert_user_ok: "account_tables_ok d \<Longrightarrow> insert_user u d = Inr d' \<Longrightarrow> account_tables_ok d'"
  by (auto simp: insert_user_def account_tables_ok_def has_key_iff refs_in_more_parents split: if_splits)

lemma upsert_credential_ok:
  assumes "account_tables_ok d" and "upsert_credential c d = Some (d', n)" shows "account_tables_ok d'"
proof (cases "has_key cr_id (cr_id c) (t_credentials d)")
  case True
  let ?f = "\<lambda>x. if cr_id x = cr_id c then x\<lparr>cr_data := cr_data c\<rparr> else x"
  have d': "d' = d\<lparr>t_credentials := map ?f (t_credentials d)\<rparr>"
    using assms(2) True by (simp add: upsert_credential_def)
  have "cr_id (?f x) = cr_id x" "cr_user (?f x) = cr_user x" for x by simp_all
  then show ?thesis
    using assms(1) unfolding account_tables_ok_def d'
    by (simp add: refs_in_map_children distinct_map_update [of cr_id ?f] del: map_map)
next
  case False
  then have d': "d' = d\<lparr>t_credentials := t_credentials d @ [c]\<rparr>" and u: "has_key us_id (cr_user c) (t_users d)"
    using assms(2) by (auto simp: upsert_credential_def split: if_splits)
  show ?thesis using assms(1) False u unfolding account_tables_ok_def d' by (simp add: has_key_iff)
qed

lemma delete_credential_ok:
  "account_tables_ok d \<Longrightarrow> delete_credential u c d = Some (d', n) \<Longrightarrow> account_tables_ok d'"
  by (auto simp: account_tables_ok_def delete_credential_def Let_def distinct_map_filter_key refs_in_filter)

lemma insert_ceremony_ok:
  "account_tables_ok d \<Longrightarrow> insert_ceremony c d = Inr d' \<Longrightarrow> account_tables_ok d'"
  by (auto simp: insert_ceremony_def account_tables_ok_def has_key_iff split: if_splits)

lemma delete_ceremony_ok:
  "account_tables_ok d \<Longrightarrow> delete_ceremony i d = Some (d', n) \<Longrightarrow> account_tables_ok d'"
  by (auto simp: account_tables_ok_def delete_ceremony_def distinct_map_filter_key)

lemma insert_session_ok:
  "account_tables_ok d \<Longrightarrow> insert_session s d = Inr d' \<Longrightarrow> account_tables_ok d'"
  by (auto simp: insert_session_def account_tables_ok_def has_key_iff split: if_splits)

lemma delete_session_ok:
  "account_tables_ok d \<Longrightarrow> delete_session_row i d = Some (d', n) \<Longrightarrow> account_tables_ok d'"
  by (auto simp: account_tables_ok_def delete_session_row_def distinct_map_filter_key refs_in_filter)

lemma insert_token_ok:
  "account_tables_ok d \<Longrightarrow> insert_token t d = Inr d' \<Longrightarrow> account_tables_ok d'"
  by (auto simp: insert_token_def account_tables_ok_def has_key_iff split: if_splits)

lemma mark_revoked_ok:
  assumes "account_tables_ok d" and "mark_revoked u i now d = Some (d', n)" shows "account_tables_ok d'"
proof -
  let ?f = "\<lambda>t. if tk_id t = i \<and> tk_user t = u \<and> tk_revoked t = None then t\<lparr>tk_revoked := Some now\<rparr> else t"
  have d': "d' = d\<lparr>t_api_tokens := map ?f (t_api_tokens d)\<rparr>"
    using assms(2) by (simp add: mark_revoked_def Let_def)
  have "tk_id (?f t) = tk_id t" "tk_hash (?f t) = tk_hash t" "tk_user (?f t) = tk_user t" for t by simp_all
  then show ?thesis
    using assms(1) unfolding account_tables_ok_def d'
    by (simp add: refs_in_map_children distinct_map_update [of tk_id ?f] distinct_map_update [of tk_hash ?f]
        del: map_map)
qed

lemma auth_inv_frame:
  assumes "auth_inv d" and "account_tables_ok d'" and "t_users d' = t_users d"
    and "set (t_sessions d') \<subseteq> set (t_sessions d)"
    and "(\<lambda>t. (tk_created_at t, tk_expires t)) ` set (t_api_tokens d') \<subseteq>
         (\<lambda>t. (tk_created_at t, tk_expires t)) ` set (t_api_tokens d)"
  shows "auth_inv d'"
proof -
  have "0 < tk_expires t - tk_created_at t \<and> tk_expires t - tk_created_at t \<le> token_ttl_ceiling"
    if "t \<in> set (t_api_tokens d')" for t
  proof -
    have "(tk_created_at t, tk_expires t) \<in> (\<lambda>t. (tk_created_at t, tk_expires t)) ` set (t_api_tokens d)"
      using assms(5) that by blast
    then obtain t0 where "t0 \<in> set (t_api_tokens d)" "tk_created_at t0 = tk_created_at t" "tk_expires t0 = tk_expires t"
      by auto
    moreover have "0 < tk_expires t0 - tk_created_at t0 \<and> tk_expires t0 - tk_created_at t0 \<le> token_ttl_ceiling"
      using assms(1) calculation(1) unfolding auth_inv_def list_all_iff by blast
    ultimately show ?thesis by simp
  qed
  moreover have "se_expires s - se_created s = session_ttl" if "s \<in> set (t_sessions d')" for s
    using assms(1,4) that unfolding auth_inv_def list_all_iff by blast
  ultimately show ?thesis using assms(1-3) unfolding auth_inv_def list_all_iff by simp
qed

lemma auth_inv_tables: "auth_inv d \<Longrightarrow> account_tables_ok d"
  by (simp add: auth_inv_def)

lemma statements_keep_inv:
  assumes inv: "auth_inv d"
  shows "upsert_credential c d = Some (d', n) \<Longrightarrow> auth_inv d'"
    and "delete_credential u cid d = Some (d', n) \<Longrightarrow> auth_inv d'"
    and "insert_ceremony c' d = Inr d' \<Longrightarrow> auth_inv d'"
    and "delete_ceremony i d = Some (d', n) \<Longrightarrow> auth_inv d'"
    and "delete_session_row i d = Some (d', n) \<Longrightarrow> auth_inv d'"
    and "mark_revoked u i now d = Some (d', n) \<Longrightarrow> auth_inv d'"
proof -
  note frame = auth_inv_frame [OF inv] and ok = auth_inv_tables [OF inv]
  show "auth_inv d'" if "upsert_credential c d = Some (d', n)"
    using that by (intro frame upsert_credential_ok [OF ok that]) (auto simp: upsert_credential_def split: if_splits)
  show "auth_inv d'" if "delete_credential u cid d = Some (d', n)"
    using that by (intro frame delete_credential_ok [OF ok that]) (auto simp: delete_credential_def Let_def)
  show "auth_inv d'" if "insert_ceremony c' d = Inr d'"
    using that by (intro frame insert_ceremony_ok [OF ok that]) (auto simp: insert_ceremony_def split: if_splits)
  show "auth_inv d'" if "delete_ceremony i d = Some (d', n)"
    using that by (intro frame delete_ceremony_ok [OF ok that]) (auto simp: delete_ceremony_def)
  show "auth_inv d'" if "delete_session_row i d = Some (d', n)"
    using that by (intro frame delete_session_ok [OF ok that]) (auto simp: delete_session_row_def)
  show "auth_inv d'" if "mark_revoked u i now d = Some (d', n)"
    using that by (intro frame mark_revoked_ok [OF ok that]) (auto simp: mark_revoked_def Let_def)
qed

lemma insert_session_inv:
  "auth_inv d \<Longrightarrow> se_expires s - se_created s = session_ttl \<Longrightarrow> insert_session s d = Inr d' \<Longrightarrow> auth_inv d'"
  unfolding auth_inv_def using insert_session_ok
  by (fastforce simp: insert_session_def split: if_splits)

lemma insert_token_inv:
  "auth_inv d \<Longrightarrow> 0 < tk_expires t - tk_created_at t \<Longrightarrow> tk_expires t - tk_created_at t \<le> token_ttl_ceiling \<Longrightarrow>
   insert_token t d = Inr d' \<Longrightarrow> auth_inv d'"
  unfolding auth_inv_def using insert_token_ok
  by (fastforce simp: insert_token_def split: if_splits)

lemma create_user_insert_inv:
  assumes "auth_inv (w_db w)" and "t_users (w_db w) = []"
  shows "auth_inv (w_db (snd (create_user_insert handle name w)))"
proof -
  have "auth_inv d'" if "insert_user u (w_db w) = Inr d'" for u d'
    using assms insert_user_ok [OF _ that] that by (auto simp: auth_inv_def insert_user_def split: if_splits)
  then show ?thesis
    using assms(1) by (auto simp: create_user_insert_def bindE_def randE_def nowE_def wrapE_def insertE_def retE_def Let_def
        split: fault.split sum.split)
qed

lemma keeps_create_user: "keeps auth_inv (sql_create_user handle name)"
  unfolding keeps_def
proof (intro allI impI)
  fix w :: world
  assume inv: "auth_inv (w_db w)"
  obtain r w1 where c: "create_user_check w = (r, w1)" by fastforce
  have "keeps P create_user_check" for P
    unfolding create_user_check_def count_users_def by (auto intro!: keeps_intros)
  from keeps_all_db [OF this, of w] have db: "w_db w1 = w_db w" by (simp add: c)
  show "auth_inv (w_db (snd (sql_create_user handle name w)))"
  proof (cases r)
    case (Inl e)
    then show ?thesis using inv db by (simp add: sql_create_user_def thenE_def bindE_def c)
  next
    case (Inr u)
    then have "t_users (w_db w) = []"
      using c by (auto simp: create_user_check_def count_users_def bindE_eq_Inr dest: query_rowE_Inr split: if_splits)
    with create_user_insert_inv [of w1] inv db show ?thesis
      by (simp add: sql_create_user_def thenE_def bindE_def c Inr)
  qed
qed

lemma auth_writes_keep:
  "keeps auth_inv (sql_put_credential wa user cred)"
  "keeps auth_inv (sql_put_labeled wa user cred label)"
  "keeps auth_inv (sql_revoke_credential user cid)"
  "keeps auth_inv (sql_save_ceremony i data t)"
  "keeps auth_inv (sql_take_ceremony i)"
  "keeps auth_inv (sql_delete_session i)"
  "keeps auth_inv (sql_revoke_token user i)"
  unfolding sql_put_credential_def sql_put_labeled_def sql_revoke_credential_def sql_save_ceremony_def
    sql_take_ceremony_def sql_delete_session_def sql_revoke_token_def
  by (auto intro!: keeps_intros keeps_execE keeps_insertE split: option.split elim: statements_keep_inv)

lemma keeps_create_session: "keeps auth_inv (sql_create_session user)"
  unfolding sql_create_session_def
  by (auto intro!: keeps_intros keeps_insertE elim: insert_session_inv [rotated 2])

lemma keeps_create_token: "keeps auth_inv (sql_create_token sha user r)"
  unfolding sql_create_token_def Let_def using token_ttl_range [of r]
  by (auto intro!: keeps_intros keeps_insertE elim: insert_token_inv [rotated 3])

subsection \<open>The account keeps a credential\<close>

definition cred_inv :: "string \<Rightarrow> db \<Rightarrow> bool" where
  "cred_inv u d \<longleftrightarrow> auth_inv d \<and> user_credentials u d \<noteq> []"

lemma user_credentials_nonempty:
  "user_credentials u d \<noteq> [] \<longleftrightarrow> u \<in> cr_user ` set (t_credentials d)"
  by (auto simp: user_credentials_def filter_empty_conv)

lemma upsert_credential_users:
  assumes "upsert_credential c d = Some (d', n)"
  shows "cr_user ` set (t_credentials d) \<subseteq> cr_user ` set (t_credentials d')"
proof (cases "has_key cr_id (cr_id c) (t_credentials d)")
  case True
  let ?f = "\<lambda>x. if cr_id x = cr_id c then x\<lparr>cr_data := cr_data c\<rparr> else x"
  have "cr_user (?f x) = cr_user x" for x by simp
  then have "cr_user ` ?f ` set (t_credentials d) = cr_user ` set (t_credentials d)"
    unfolding image_image by (intro image_cong refl)
  moreover have "d' = d\<lparr>t_credentials := map ?f (t_credentials d)\<rparr>"
    using assms True by (simp add: upsert_credential_def)
  ultimately show ?thesis by (simp only: db.simps set_map) simp
next
  case False
  then show ?thesis using assms by (auto simp: upsert_credential_def split: if_splits)
qed

lemma same_credentials:
  "insert_user u' d = Inr d' \<Longrightarrow> t_credentials d' = t_credentials d"
  "insert_ceremony c d = Inr d' \<Longrightarrow> t_credentials d' = t_credentials d"
  "delete_ceremony i d = Some (d', n) \<Longrightarrow> t_credentials d' = t_credentials d"
  "insert_session s d = Inr d' \<Longrightarrow> t_credentials d' = t_credentials d"
  "delete_session_row i d = Some (d', n) \<Longrightarrow> t_credentials d' = t_credentials d"
  "insert_token t d = Inr d' \<Longrightarrow> t_credentials d' = t_credentials d"
  "mark_revoked u i now d = Some (d', n) \<Longrightarrow> t_credentials d' = t_credentials d"
  by (auto simp: insert_user_def insert_ceremony_def delete_ceremony_def insert_session_def
      delete_session_row_def insert_token_def mark_revoked_def Let_def split: if_splits)

lemma user_stays:
  assumes "u \<in> cr_user ` set (t_credentials d)"
  shows "insert_user u' d = Inr d' \<Longrightarrow> u \<in> cr_user ` set (t_credentials d')"
    "upsert_credential c d = Some (d', n) \<Longrightarrow> u \<in> cr_user ` set (t_credentials d')"
    "insert_ceremony ce d = Inr d' \<Longrightarrow> u \<in> cr_user ` set (t_credentials d')"
    "delete_ceremony i d = Some (d', n) \<Longrightarrow> u \<in> cr_user ` set (t_credentials d')"
    "insert_session s d = Inr d' \<Longrightarrow> u \<in> cr_user ` set (t_credentials d')"
    "delete_session_row i d = Some (d', n) \<Longrightarrow> u \<in> cr_user ` set (t_credentials d')"
    "insert_token t d = Inr d' \<Longrightarrow> u \<in> cr_user ` set (t_credentials d')"
    "mark_revoked v i now d = Some (d', n) \<Longrightarrow> u \<in> cr_user ` set (t_credentials d')"
  using assms upsert_credential_users [of c d d' n] same_credentials
  by (auto simp only: subset_iff)

lemma keeps_conj: "keeps P m \<Longrightarrow> keeps Q m \<Longrightarrow> keeps (\<lambda>d. P d \<and> Q d) m"
  by (simp add: keeps_def)

text \<open>Deleting by key removes at most one row.\<close>

lemma length_filter_key: "distinct (map key xs) \<Longrightarrow> length (filter (\<lambda>x. key x = k \<and> P x) xs) \<le> 1"
proof (induction xs)
  case (Cons x xs)
  have "key y \<noteq> key x" if "y \<in> set xs" for y
    using Cons.prems imageI [OF that, of key] by auto
  then have "filter (\<lambda>y. key y = key x \<and> P y) xs = []"
    by (simp add: filter_empty_conv)
  then show ?case using Cons by auto
qed simp

lemma delete_credential_rest:
  assumes "account_tables_ok d" and "delete_credential u cid d = Some (d', n)"
  shows "length (user_credentials v d) \<le> Suc (length (user_credentials v d'))"
proof -
  let ?hit = "\<lambda>c. cr_id c = cid \<and> cr_user c = u"
  let ?cs = "user_credentials v d"
  have rest: "user_credentials v d' = filter (\<lambda>c. \<not> ?hit c) ?cs"
    using assms(2) by (auto simp: delete_credential_def Let_def user_credentials_def conj_commute)
  have "length (filter ?hit ?cs) \<le> 1"
    using assms(1)
    by (intro length_filter_key) (simp add: user_credentials_def account_tables_ok_def distinct_map_filter_key)
  moreover have "length (filter ?hit ?cs) + length (filter (\<lambda>c. \<not> ?hit c) ?cs) = length ?cs"
    by (rule sum_length_filter_compl)
  ultimately show ?thesis unfolding rest by linarith
qed

text \<open>What a successful revocation did.\<close>

lemma revoke_credential_done:
  assumes "sql_revoke_credential u cid w = (Inr x, w')"
  shows "1 < length (user_credentials u (w_db w))"
    and "\<exists>n. delete_credential u cid (w_db w) = Some (w_db w', n) \<and> 0 < n"
proof -
  obtain n1 w3 w2 rows where 1: "n1 = Some (length (user_credentials u (w_db w)))"
    "\<not> (n1 = None \<or> the n1 \<le> 1)" and 3: "w_db w3 = w_db w"
    and 2: "execE (delete_credential u cid) w3 = (Inr rows, w2)" "rows \<noteq> 0" "w_db w' = w_db w2"
    using assms unfolding sql_revoke_credential_def
    by (auto simp: bindE_eq_Inr dest!: txE_Inr query_rowE_Inr split: if_splits)
  then show "1 < length (user_credentials u (w_db w))" by simp
  from execE_Inr [OF 2(1)] show "\<exists>n. delete_credential u cid (w_db w) = Some (w_db w', n) \<and> 0 < n"
    using 2(2,3) 3 by auto
qed

lemma keeps_cred_revoke: "keeps (cred_inv u) (sql_revoke_credential v cid)"
  unfolding keeps_def
proof (intro allI impI)
  fix w :: world
  assume inv: "cred_inv u (w_db w)"
  obtain r w' where r: "sql_revoke_credential v cid w = (r, w')" by fastforce
  show "cred_inv u (w_db (snd (sql_revoke_credential v cid w)))"
  proof (cases r)
    case (Inl e)
    then show ?thesis using inv txE_fail_db r unfolding sql_revoke_credential_def by fastforce
  next
    case (Inr x)
    note rev = revoke_credential_done [OF r [unfolded Inr]]
    then obtain n where n: "delete_credential v cid (w_db w) = Some (w_db w', n)" by blast
    have ok: "auth_inv (w_db w')"
      using inv keepsD [OF auth_writes_keep(3), of w v cid] by (simp add: cred_inv_def r)
    have "user_credentials u (w_db w') \<noteq> []"
    proof (cases "u = v")
      case True
      then show ?thesis
        using rev(1) delete_credential_rest [OF _ n, of v] inv by (auto simp: cred_inv_def auth_inv_def)
    next
      case False
      have "t_credentials (w_db w') = filter (\<lambda>c. \<not> (cr_id c = cid \<and> cr_user c = v)) (t_credentials (w_db w))"
        using n by (auto simp: delete_credential_def Let_def dest: arg_cong [of _ _ t_credentials])
      then have "user_credentials u (w_db w') = user_credentials u (w_db w)"
        using False by (auto simp: user_credentials_def intro!: filter_cong)
      then show ?thesis using inv by (simp add: cred_inv_def)
    qed
    with ok show ?thesis by (simp add: r cred_inv_def)
  qed
qed

lemma cred_writes_keep:
  "keeps (\<lambda>d. user_credentials u d \<noteq> []) (sql_create_user handle name)"
  "keeps (\<lambda>d. user_credentials u d \<noteq> []) (sql_put_credential wa user cred)"
  "keeps (\<lambda>d. user_credentials u d \<noteq> []) (sql_put_labeled wa user cred label)"
  "keeps (\<lambda>d. user_credentials u d \<noteq> []) (sql_save_ceremony i data t)"
  "keeps (\<lambda>d. user_credentials u d \<noteq> []) (sql_take_ceremony i)"
  "keeps (\<lambda>d. user_credentials u d \<noteq> []) (sql_create_session user)"
  "keeps (\<lambda>d. user_credentials u d \<noteq> []) (sql_delete_session i)"
  "keeps (\<lambda>d. user_credentials u d \<noteq> []) (sql_create_token sha user ttl)"
  "keeps (\<lambda>d. user_credentials u d \<noteq> []) (sql_revoke_token user i)"
  unfolding sql_create_user_def create_user_check_def create_user_insert_def count_users_def
    sql_put_credential_def sql_put_labeled_def sql_save_ceremony_def sql_take_ceremony_def
    sql_create_session_def sql_delete_session_def sql_create_token_def sql_revoke_token_def
    user_credentials_nonempty Let_def
  by ((rule keeps_intros keeps_execE keeps_insertE | erule (1) user_stays | (split option.split prod.split if_split, intro allI impI conjI))+)

subsection \<open>The contract\<close>

abbreviation ceremony_map :: "db \<Rightarrow> string \<Rightarrow> (string \<times> gotime) option" where
  "ceremony_map d \<equiv> (\<lambda>i. find_ceremony i d)"

lemma ceremony_map_eq: "t_ceremonies d' = t_ceremonies d \<Longrightarrow> ceremony_map d' = ceremony_map d"
  by (simp add: find_ceremony_def)

lemma same_ceremonies:
  "insert_user u' d = Inr d' \<Longrightarrow> ceremony_map d' = ceremony_map d"
  "upsert_credential c d = Some (d', n) \<Longrightarrow> ceremony_map d' = ceremony_map d"
  "insert_session s d = Inr d' \<Longrightarrow> ceremony_map d' = ceremony_map d"
  by (auto simp: insert_user_def upsert_credential_def insert_session_def find_ceremony_def split: if_splits)

lemma delete_ceremony_map:
  "delete_ceremony i d = Some (d', n) \<Longrightarrow> ceremony_map d' = (ceremony_map d)(i := None)"
proof (rule ext)
  fix j
  have "find (\<lambda>c. ce_id c = k) (filter (\<lambda>c. ce_id c \<noteq> i) cs) =
      (if k = i then None else find (\<lambda>c. ce_id c = k) cs)" for cs k
    by (induction cs) auto
  note f = this
  show "delete_ceremony i d = Some (d', n) \<Longrightarrow> ceremony_map d' j = ((ceremony_map d)(i := None)) j"
    by (cases "j = i") (auto simp: delete_ceremony_def find_ceremony_def f f [of i, simplified])
qed

lemma insert_ceremony_map:
  assumes "insert_ceremony c d = Inr d'"
  shows "ceremony_map d' = (ceremony_map d)(ce_id c \<mapsto> (ce_data c, ce_expires c))"
proof
  fix j
  have "find (\<lambda>x. ce_id x = ce_id c) (t_ceremonies d) = None"
    using assms by (auto simp: insert_ceremony_def has_key_def list_ex_iff find_None_iff split: if_splits)
  then show "ceremony_map d' j = ((ceremony_map d)(ce_id c \<mapsto> (ce_data c, ce_expires c))) j"
    using assms
    by (auto simp: insert_ceremony_def find_ceremony_def find_append split: if_splits option.split)
qed

interpretation sql_auth: auth_guard "sql_astore wa sha" ceremony_map auth_inv for wa sha
proof (unfold_locales, unfold sql_astore_def astore.simps)
  fix P user sid raw
  show "keeps P sql_get_user"
    by (auto simp: sql_get_user_def intro!: keeps_intros split: option.split)
  show "keeps P (sql_credentials wa user)"
    unfolding sql_credentials_def by (intro keeps_intros)
  show "keeps P (sql_infos user)"
    unfolding sql_infos_def by (rule keeps_queryE)
  show "keeps P (sql_session sid)"
    by (auto simp: sql_session_def intro!: keeps_intros split: option.split)
  show "keeps P (sql_token_user sha raw)"
    by (auto simp: sql_token_user_def intro!: keeps_intros split: option.split)
next
  fix C handle name user cred label
  show "keeps (\<lambda>d. ceremony_map d = C) (sql_create_user handle name)"
    unfolding sql_create_user_def create_user_check_def create_user_insert_def count_users_def Let_def
    by (auto intro!: keeps_intros keeps_insertE dest: same_ceremonies)
  show "keeps (\<lambda>d. ceremony_map d = C) (sql_put_credential wa user cred)"
    "keeps (\<lambda>d. ceremony_map d = C) (sql_put_labeled wa user cred label)"
    "keeps (\<lambda>d. ceremony_map d = C) (sql_create_session user)"
    unfolding sql_put_credential_def sql_put_labeled_def sql_create_session_def
    by (auto intro!: keeps_intros keeps_insertE keeps_execE dest: same_ceremonies)
next
  fix i w data w'
  assume "sql_take_ceremony i w = (Inr data, w')"
  then show "\<exists>t. ceremony_map (w_db w) i = Some (data, t) \<and>
      ceremony_map (w_db w') = (ceremony_map (w_db w))(i := None)"
    by (auto simp: sql_take_ceremony_def bindE_eq_Inr dest!: query_rowE_Inr nowE_db execE_Inr
        dest: delete_ceremony_map sym split: option.splits if_splits)
next
  fix i data t w u w'
  assume "sql_save_ceremony i data t w = (Inr u, w')"
  then show "ceremony_map (w_db w') = (ceremony_map (w_db w))(i \<mapsto> (data, t))"
    by (auto simp: sql_save_ceremony_def dest!: insertE_Inr dest: insert_ceremony_map)
qed (simp_all add: auth_writes_keep keeps_create_user keeps_create_session keeps_create_token)

interpretation sql_kept: auth_guard "sql_astore wa sha" ceremony_map "cred_inv u" for wa sha u
  by unfold_locales
    (simp_all add: sql_astore_def keeps_cred_revoke, simp_all add: cred_inv_def [abs_def]
      keeps_conj cred_writes_keep auth_writes_keep keeps_create_user keeps_create_session keeps_create_token)

end
