(* ===== verification/AuthOps.thy ===== *)
theory AuthOps
  imports AuthStore
begin

text \<open>
  Authentication end to end: the service over the SQLite adapter as a transition system on
  the database, and the life of sessions, API tokens, credentials and ceremonies.
\<close>

subsection \<open>The transition system\<close>

text \<open>
  One step is one operation of the service, run in any world with this database: any
  placement of faults, any clock, any random source, any answer of the library.
\<close>

inductive auth_step :: "('c, 's) webauthn \<Rightarrow> (string \<Rightarrow> string) \<Rightarrow> db \<Rightarrow> db \<Rightarrow> bool"
  for wa :: "('c, 's) webauthn" and sha :: "string \<Rightarrow> string" where
  step_begin_registration: "auth_step wa sha (w_db w) (w_db (snd (begin_registration wa (sql_astore wa sha) w)))"
| step_finish_registration: "auth_step wa sha (w_db w) (w_db (snd (finish_registration wa (sql_astore wa sha) i r w)))"
| step_begin_login: "auth_step wa sha (w_db w) (w_db (snd (begin_login wa (sql_astore wa sha) w)))"
| step_finish_login: "auth_step wa sha (w_db w) (w_db (snd (finish_login wa (sql_astore wa sha) i r w)))"
| step_begin_add: "auth_step wa sha (w_db w) (w_db (snd (begin_add_credential wa (sql_astore wa sha) w)))"
| step_finish_add: "auth_step wa sha (w_db w) (w_db (snd (finish_add_credential wa (sql_astore wa sha) i l r w)))"
| step_revoke_credential: "auth_step wa sha (w_db w) (w_db (snd (revoke_credential (sql_astore wa sha) u c w)))"
| step_logout: "auth_step wa sha (w_db w) (w_db (snd (logout (sql_astore wa sha) s w)))"
| step_issue_token: "auth_step wa sha (w_db w) (w_db (snd (issue_token (sql_astore wa sha) u ttl w)))"
| step_revoke_token: "auth_step wa sha (w_db w) (w_db (snd (revoke_token (sql_astore wa sha) u t w)))"

inductive auth_reach :: "('c, 's) webauthn \<Rightarrow> (string \<Rightarrow> string) \<Rightarrow> db \<Rightarrow> bool"
  for wa :: "('c, 's) webauthn" and sha :: "string \<Rightarrow> string" where
  reach_start: "auth_reach wa sha empty_db"
| reach_step: "auth_reach wa sha d \<Longrightarrow> auth_step wa sha d d' \<Longrightarrow> auth_reach wa sha d'"

lemma auth_step_inv: "auth_step wa sha d d' \<Longrightarrow> auth_inv d \<Longrightarrow> auth_inv d'"
  by (induction rule: auth_step.induct) (simp_all add: keepsD sql_auth.service_keeps)

lemma auth_step_cred: "auth_step wa sha d d' \<Longrightarrow> cred_inv u d \<Longrightarrow> cred_inv u d'"
  by (induction rule: auth_step.induct) (simp_all add: keepsD sql_kept.service_keeps)

lemma auth_inv_empty: "auth_inv empty_db"
  by (simp add: auth_inv_def account_tables_ok_def empty_db_def)

lemma auth_reach_inv: "auth_reach wa sha d \<Longrightarrow> auth_inv d"
  by (induction rule: auth_reach.induct) (auto simp: auth_inv_empty auth_step_inv)

lemma auth_steps_cred: "(auth_step wa sha)\<^sup>*\<^sup>* d d' \<Longrightarrow> cred_inv u d \<Longrightarrow> cred_inv u d'"
  by (induction rule: rtranclp_induct) (auto intro: auth_step_cred)

lemma auth_steps_inv: "(auth_step wa sha)\<^sup>*\<^sup>* d d' \<Longrightarrow> auth_inv d \<Longrightarrow> auth_inv d'"
  by (induction rule: rtranclp_induct) (auto intro: auth_step_inv)

text \<open>
  C29: the invariants of authentication. Whatever sequence of operations ran, one after
  the other, from the empty database: keys and references are sound, there is at most one
  account, every API token lasts more than nothing and at most a year and every session
  thirty days; and an account that has a credential has one ever after, so it cannot be
  locked out by revoking passkeys.
\<close>

theorem auth_invariants:
  assumes "auth_reach wa sha d" and "(auth_step wa sha)\<^sup>*\<^sup>* d d'"
  shows "auth_inv d' \<and> (user_credentials u d = [] \<or> user_credentials u d' \<noteq> [])"
  using auth_steps_inv [OF assms(2) auth_reach_inv [OF assms(1)]]
    auth_steps_cred [OF assms(2), of u] auth_reach_inv [OF assms(1)]
  by (auto simp: cred_inv_def)

text \<open>A library for examples: credentials and session data are text.\<close>

definition demo_wa :: "(string, string) webauthn" where
  "demo_wa =
     \<lparr> wa_begin_registration = \<lambda>nonce u. Inr (nonce, wu_handle u),
       wa_finish_registration = \<lambda>u s r. Inr r,
       wa_begin_login = \<lambda>nonce u. Inr (nonce, wu_handle u),
       wa_finish_login = \<lambda>u s r. if r \<in> set (wu_credentials u) then Inr r else Inl (Driver ''no match''),
       wa_session_user = \<lambda>s. s, wa_session_json = Inr, wa_session_of_json = Inr,
       wa_cred_id = \<lambda>c. c, wa_cred_json = Inr, wa_cred_of_json = Inr \<rparr>"

abbreviation demo_st :: "string astore" where
  "demo_st \<equiv> sql_astore demo_wa (\<lambda>x. x)"

definition empty_world :: world where
  "empty_world = \<lparr> w_db = empty_db, w_pos = 0, w_env = quiet_env, w_limits = [], w_ready = None \<rparr>"

definition registering :: world where
  "registering = snd (begin_registration demo_wa demo_st empty_world)"

definition registered :: world where
  "registered = snd (finish_registration demo_wa demo_st ''id'' ''key'' registering)"

theorem auth_invariants_witness:
  "auth_inv (w_db registered) \<and> user_credentials ''id'' (w_db registered) \<noteq> [] \<and>
   user_credentials ''id'' (w_db (snd (revoke_credential demo_st ''id'' ''key'' registered))) \<noteq> []"
proof -
  have r0: "auth_reach demo_wa (\<lambda>x. x) (w_db empty_world)"
    using reach_start by (simp add: empty_world_def)
  have r1: "auth_reach demo_wa (\<lambda>x. x) (w_db registering)"
    unfolding registering_def by (rule reach_step [OF r0 step_begin_registration])
  have r2: "auth_reach demo_wa (\<lambda>x. x) (w_db registered)"
    unfolding registered_def by (rule reach_step [OF r1 step_finish_registration])
  have s: "(auth_step demo_wa (\<lambda>x. x))\<^sup>*\<^sup>* (w_db registered) (w_db (snd (revoke_credential demo_st ''id'' ''key'' registered)))"
    by (rule r_into_rtranclp) (rule step_revoke_credential)
  have c: "user_credentials ''id'' (w_db registered) \<noteq> []" by code_simp
  show ?thesis
    using auth_invariants [OF r2 rtranclp.rtrancl_refl] auth_invariants [OF r2 s, of "''id''"] c by blast
qed

subsection \<open>API tokens\<close>

lemma token_user_quiet:
  assumes "fault_free w"
  shows "fst (authenticate_token (sql_astore wa sha) raw w) =
    (case find_token (sha raw) (w_db w) of
       None \<Rightarrow> Inl (Wrap ''look up token'' (Sentinel ErrTokenNotFound))
     | Some (user, expires, revoked) \<Rightarrow>
         if revoked = None \<and> lookup_time w \<le> expires then Inr user
         else Inl (Wrap ''look up token'' (Sentinel ErrTokenNotFound)))"
  using assms
  by (auto simp: authenticate_token_def sql_astore_def sql_token_user_def bindE_def wrapE_def query_row_quiet
      now_quiet throwE_def retE_def wrap_error_def split: option.split)

lemma find_token_insert:
  assumes "insert_token t d = Inr d'"
  shows "find_token h d' =
    (if h = tk_hash t then Some (tk_user t, tk_expires t, tk_revoked t) else find_token h d)"
proof -
  have "find (\<lambda>x. tk_hash x = tk_hash t) (t_api_tokens d) = None"
    using assms by (auto simp: insert_token_def has_key_def list_ex_iff find_None_iff split: if_splits)
  then show ?thesis
    using assms by (auto simp: insert_token_def find_token_def find_append split: if_splits option.split)
qed

text \<open>The row an issued token leaves.\<close>

definition token_row :: "auth_token \<Rightarrow> string \<Rightarrow> api_token_row" where
  "token_row tok hash = \<lparr> tk_id = at_id tok, tk_user = at_user tok, tk_hash = hash, tk_expires = at_expires tok,
     tk_revoked = None, tk_created_at = at_created tok \<rparr>"

lemma issue_token_row:
  assumes "issue_token (sql_astore wa sha) user ttl w = (Inr (tok, raw), w1)"
  shows "at_user tok = user" and "at_expires tok - at_created tok = token_ttl ttl"
    and "insert_token (token_row tok (sha raw)) (w_db w) = Inr (w_db w1)"
  using assms
  by (auto simp: issue_token_def sql_astore_def sql_create_token_def token_row_def Let_def bindE_eq_Inr
      dest!: insertE_Inr nowE_db randE_db)

lemma insert_token_rows:
  assumes "insert_token t d = Inr d'"
  shows "t_api_tokens d' = t_api_tokens d @ [t]"
    and "\<forall>x \<in> set (t_api_tokens d). tk_id x \<noteq> tk_id t \<and> tk_hash x \<noteq> tk_hash t"
  using assms by (auto simp: insert_token_def has_key_def list_ex_iff split: if_splits)

text \<open>Revoking the newest token: its row alone is marked, when its owner asks.\<close>

lemma mark_revoked_last:
  assumes "t_api_tokens d = ts @ [t]" and "\<forall>x \<in> set ts. tk_id x \<noteq> tk_id t" and "tk_revoked t = None"
  shows "mark_revoked other (tk_id t) now d =
    Some (d\<lparr>t_api_tokens := ts @ [if other = tk_user t then t\<lparr>tk_revoked := Some now\<rparr> else t]\<rparr>, if other = tk_user t then 1 else 0)"
proof -
  let ?hit = "\<lambda>x. tk_id x = tk_id t \<and> tk_user x = other \<and> tk_revoked x = None"
  have "filter ?hit ts = []" using assms(2) by (auto simp: filter_empty_conv)
  moreover have "map (\<lambda>x. if ?hit x then x\<lparr>tk_revoked := Some now\<rparr> else x) ts = ts"
    using assms(2) by (auto intro!: map_idI)
  ultimately show ?thesis
    using assms(1,3) by (auto simp: mark_revoked_def Let_def simp del: map_map)
qed

lemma revoke_token_quiet:
  assumes "fault_free w" and "mark_revoked other i (e_clock (w_env w) (w_pos w)) (w_db w) = Some (d, n)"
  shows "revoke_token (sql_astore wa sha) other i w =
    (if n = 0 then Inl (Wrap ''revoke token'' (Sentinel ErrTokenNotFound)) else Inr (),
     (step_world (step_world w))\<lparr>w_db := d\<rparr>)"
  using exec_quiet [of "step_world w" "mark_revoked other i (e_clock (w_env w) (w_pos w))"] assms
  by (simp add: revoke_token_def sql_astore_def sql_revoke_token_def bindE_def wrapE_def now_quiet
      throwE_def retE_def wrap_error_def)

text \<open>
  C30: the life of an API token. A token is issued for the account that asked, for the
  requested time, ninety days when none was named, and never more than a year. It
  authenticates that account up to its expiry and not after; revoking it succeeds for its
  owner and ends it at once; anyone else who tries is told it does not exist, and nothing
  changes. No other token is affected by issuing it.
\<close>

theorem token_lifecycle:
  assumes "auth_inv (w_db w)" and "issue_token (sql_astore wa sha) user ttl w = (Inr (tok, raw), w1)"
    and "w_db w2 = w_db w1" and "fault_free w2"
  shows "at_user tok = user \<and>
    at_expires tok - at_created tok = (if ttl \<le> 0 then 90 * 24 * hours else min ttl (365 * 24 * hours)) \<and>
    fst (authenticate_token (sql_astore wa sha) raw w2) =
      (if lookup_time w2 \<le> at_expires tok then Inr user
       else Inl (Wrap ''look up token'' (Sentinel ErrTokenNotFound))) \<and>
    (h = sha raw \<or> find_token h (w_db w2) = find_token h (w_db w)) \<and>
    (case revoke_token (sql_astore wa sha) other (at_id tok) w2 of
       (Inr _, w3) \<Rightarrow> other = user \<and>
         fst (authenticate_token (sql_astore wa sha) raw w3) = Inl (Wrap ''look up token'' (Sentinel ErrTokenNotFound))
     | (Inl e, w3) \<Rightarrow> other \<noteq> user \<and> is_err e ErrTokenNotFound \<and> w_db w3 = w_db w2)"
proof -
  let ?ts = "t_api_tokens (w_db w)" and ?t = "token_row tok (sha raw)" and ?now = "e_clock (w_env w2) (w_pos w2)"
  note ins = issue_token_row [OF assms(2)]
  note rows = insert_token_rows [OF ins(3)] and found = find_token_insert [OF ins(3)]
  have row: "tk_id ?t = at_id tok" "tk_user ?t = user" "tk_hash ?t = sha raw" "tk_expires ?t = at_expires tok" "tk_revoked ?t = None"
    using ins(1) by (simp_all add: token_row_def)
  let ?t' = "if other = user then ?t\<lparr>tk_revoked := Some ?now\<rparr> else ?t"
  let ?w3 = "(step_world (step_world w2))\<lparr>w_db := (w_db w2)\<lparr>t_api_tokens := ?ts @ [?t']\<rparr>\<rparr>"
  have "mark_revoked other (at_id tok) ?now (w_db w2) =
      Some ((w_db w2)\<lparr>t_api_tokens := ?ts @ [?t']\<rparr>, if other = user then 1 else 0)"
    using mark_revoked_last [of "w_db w2" ?ts ?t other ?now] rows row assms(3) by simp
  note rev = revoke_token_quiet [OF assms(4) this, of wa sha]
  have "find (\<lambda>t. tk_hash t = sha raw) ?ts = None" using rows(2) row(3) by (auto simp: find_None_iff)
  then have gone: "find_token (sha raw) (w_db ?w3) = Some (user, at_expires tok, if other = user then Some ?now else None)"
    using row by (simp add: find_token_def find_append)
  have 1: "fst (authenticate_token (sql_astore wa sha) raw w2) =
      (if lookup_time w2 \<le> at_expires tok then Inr user
       else Inl (Wrap ''look up token'' (Sentinel ErrTokenNotFound)))"
    using token_user_quiet [OF assms(4), of wa sha raw] by (simp add: assms(3) found row)
  have 2: "fst (authenticate_token (sql_astore wa sha) raw ?w3) = Inl (Wrap ''look up token'' (Sentinel ErrTokenNotFound))"
    if "other = user"
    using token_user_quiet [of ?w3 wa sha raw] assms(4) gone that by simp
  have 3: "w_db ?w3 = w_db w2" if "other \<noteq> user" using that rows(1) by (simp add: assms(3))
  have 4: "h = sha raw \<or> find_token h (w_db w2) = find_token h (w_db w)" by (simp add: assms(3) found row)
  have 5: "at_expires tok - at_created tok = (if ttl \<le> 0 then 90 * 24 * hours else min ttl (365 * 24 * hours))"
    by (simp add: ins(2) token_ttl_def token_ttl_default_def token_ttl_ceiling_def hours_def seconds_def)
  show ?thesis
  proof (cases "other = user")
    case True
    show ?thesis unfolding rev if_P [OF True] if_not_P [OF one_neq_zero] prod.case sum.case
      using 2 True by (intro conjI ins(1) 1 4 5) simp_all
  next
    case False
    show ?thesis unfolding rev if_not_P [OF False] if_P [OF refl] prod.case sum.case
      using 3 False by (intro conjI ins(1) 1 4 5) simp_all
  qed
qed

theorem token_lifecycle_witness:
  "fst (authenticate_token demo_st ''id'' (snd (issue_token demo_st ''id'' 1 registered))) =
     Inl (Wrap ''look up token'' (Sentinel ErrTokenNotFound))"
proof -
  let ?r = "issue_token demo_st ''id'' 1 registered"
  have i: "auth_inv (w_db registered)" by code_simp
  have "map_prod id (\<lambda>_. ()) (case fst ?r of Inr x \<Rightarrow> (snd x, ()) | Inl _ \<Rightarrow> ([], ())) = (''id'', ())" by code_simp
  moreover have "\<not> isl (fst ?r)" by code_simp
  ultimately obtain tok w1 where r: "?r = (Inr (tok, ''id''), w1)"
    by (cases ?r; cases "fst ?r") auto
  have q: "fault_free w1"
  proof -
    have "e_fault (w_env (snd ?r)) n = NoFault" for n by code_simp
    then show ?thesis by (simp add: r fault_free_def)
  qed
  have "at_expires (fst (projr (fst ?r))) < lookup_time (snd ?r)" by code_simp
  with token_lifecycle [OF i r refl q] show ?thesis by (simp add: r)
qed

subsection \<open>Credentials\<close>

text \<open>The credential a request names, and the whole operation without faults.\<close>

abbreviation owns :: "string \<Rightarrow> string \<Rightarrow> credential_row \<Rightarrow> bool" where
  "owns user cid c \<equiv> cr_id c = cid \<and> cr_user c = user"

lemma revoke_credential_quiet:
  assumes "fault_free w"
  defines "cs \<equiv> t_credentials (w_db w)"
  shows "revoke_credential (sql_astore wa sha) user cid w =
    (if length (user_credentials user (w_db w)) \<le> 1
     then (Inl (Wrap ''revoke credential'' (Sentinel ErrLastCredential)), step_world (step_world w))
     else if filter (owns user cid) cs = []
     then (Inl (Wrap ''revoke credential'' (Sentinel ErrCredentialNotFound)), step_world (step_world (step_world w)))
     else (Inr (), step_world ((step_world (step_world (step_world w)))
       \<lparr>w_db := (w_db w)\<lparr>t_credentials := filter (\<lambda>c. \<not> owns user cid c) cs\<rparr>\<rparr>)))"
proof -
  let ?d = "(w_db w)\<lparr>t_credentials := filter (\<lambda>c. \<not> owns user cid c) cs\<rparr>"
  have "execE (delete_credential user cid) (step_world (step_world w)) =
      (Inr (length (filter (owns user cid) cs)), (step_world (step_world (step_world w)))\<lparr>w_db := ?d\<rparr>)"
    using assms(1) by (intro exec_quiet) (simp_all add: delete_credential_def cs_def)
  then show ?thesis
    using assms(1)
    by (simp add: revoke_credential_def sql_astore_def sql_revoke_credential_def txE_def bindE_def wrapE_def
        query_row_quiet throwE_def retE_def wrap_error_def w_db_same cs_def)
qed

lemma owns_only:
  assumes "distinct (map cr_id cs)" and "filter (owns user cid) cs \<noteq> []"
  shows "filter (\<lambda>c. \<not> owns user cid c) cs = filter (\<lambda>c. cr_id c \<noteq> cid) cs"
proof -
  obtain c where c: "c \<in> set cs" "cr_id c = cid" "cr_user c = user" using assms(2) by (auto simp: filter_empty_conv)
  show ?thesis
  proof (rule filter_cong [OF refl])
    fix x assume "x \<in> set cs"
    then show "(\<not> owns user cid x) = (cr_id x \<noteq> cid)"
      using c assms(1) by (auto dest: distinct_key_inj)
  qed
qed

text \<open>
  C31: revoking a passkey. Without faults, it succeeds exactly when the account has
  another one and the id is one of its own; then that passkey is gone, every other stays,
  and at least one is left. When the account has a single passkey the answer is
  \<open>ErrLastCredential\<close> whatever id was named; otherwise an unknown id is
  \<open>ErrCredentialNotFound\<close>. A refusal changes nothing.
\<close>

theorem revoke_credential_spec:
  assumes "auth_inv (w_db w)" and "fault_free w"
  shows "case revoke_credential (sql_astore wa sha) user cid w of
      (Inr _, w') \<Rightarrow> 1 < length (user_credentials user (w_db w)) \<and>
         cid \<in> cr_id ` set (user_credentials user (w_db w)) \<and>
         t_credentials (w_db w') = filter (\<lambda>c. cr_id c \<noteq> cid) (t_credentials (w_db w)) \<and>
         user_credentials user (w_db w') \<noteq> []
    | (Inl e, w') \<Rightarrow> w_db w' = w_db w \<and>
         (if length (user_credentials user (w_db w)) \<le> 1 then is_err e ErrLastCredential
          else cid \<notin> cr_id ` set (user_credentials user (w_db w)) \<and> is_err e ErrCredentialNotFound)"
proof -
  let ?cs = "t_credentials (w_db w)" and ?us = "user_credentials user (w_db w)"
  let ?d = "(w_db w)\<lparr>t_credentials := filter (\<lambda>c. \<not> owns user cid c) ?cs\<rparr>"
  have ids: "distinct (map cr_id ?cs)" using assms(1) by (simp add: auth_inv_def account_tables_ok_def)
  have mem: "cid \<in> cr_id ` set ?us \<longleftrightarrow> filter (owns user cid) ?cs \<noteq> []"
    by (auto simp: user_credentials_def filter_empty_conv)
  have "delete_credential user cid (w_db w) = Some (?d, length (filter (owns user cid) ?cs))"
    by (simp add: delete_credential_def)
  then have "user_credentials user ?d \<noteq> []" if "\<not> length ?us \<le> 1"
    using delete_credential_rest [of _ user cid ?d _ user] assms(1) that by (auto simp: auth_inv_def)
  then show ?thesis
    using mem owns_only [OF ids, where user = user and cid = cid] by (auto simp: revoke_credential_quiet [OF assms(2)])
qed

theorem revoke_credential_spec_witness:
  "fst (revoke_credential demo_st ''id'' ''nope'' registered) =
     Inl (Wrap ''revoke credential'' (Sentinel ErrLastCredential)) \<and>
   w_db (snd (revoke_credential demo_st ''id'' ''nope'' registered)) = w_db registered"
proof -
  let ?r = "revoke_credential demo_st ''id'' ''nope'' registered"
  have i: "auth_inv (w_db registered)" by code_simp
  have "e_fault (w_env registered) n = NoFault" for n by code_simp
  then have q: "fault_free registered" by (simp add: fault_free_def)
  have 1: "fst ?r = Inl (Wrap ''revoke credential'' (Sentinel ErrLastCredential))" by code_simp
  then obtain w' where r: "?r = (Inl (Wrap ''revoke credential'' (Sentinel ErrLastCredential)), w')"
    by (cases ?r) auto
  show ?thesis
    using revoke_credential_spec [OF i q, where wa = demo_wa and sha = "\<lambda>x. x" and user = "''id''" and cid = "''nope''"] 1 by (simp add: r)
qed

subsection \<open>Sessions\<close>

lemma session_quiet:
  assumes "fault_free w"
  shows "fst (as_session (sql_astore wa sha) sid w) =
    (case find_session sid (w_db w) of
       None \<Rightarrow> Inl (Sentinel ErrSessionNotFound)
     | Some (user, expires) \<Rightarrow>
         if lookup_time w \<le> expires then Inr user else Inl (Sentinel ErrSessionNotFound))"
  using assms
  by (auto simp: sql_astore_def sql_session_def bindE_def wrapE_def query_row_quiet
      now_quiet throwE_def retE_def split: option.split)

lemma find_session_delete:
  "find_session s (d\<lparr>t_sessions := filter (\<lambda>x. se_id x \<noteq> sid) (t_sessions d)\<rparr>) =
     (if s = sid then None else find_session s d)"
proof -
  have "find (\<lambda>x. se_id x = k) (filter (\<lambda>x. se_id x \<noteq> sid) xs) =
      (if k = sid then None else find (\<lambda>x. se_id x = k) xs)" for xs k
    by (induction xs) auto
  note f = this
  show ?thesis by (cases "s = sid") (simp_all add: find_session_def f f [of sid, simplified])
qed

lemma find_session_insert:
  assumes "insert_session s d = Inr d'"
  shows "find_session (se_id s) d' = Some (se_user s, se_expires s) \<and> se_user s \<in> us_id ` set (t_users d')"
proof -
  have "find (\<lambda>x. se_id x = se_id s) (t_sessions d) = None"
    using assms by (auto simp: insert_session_def has_key_def list_ex_iff find_None_iff split: if_splits)
  then show ?thesis
    using assms
    by (auto simp: insert_session_def find_session_def find_append has_key_iff split: if_splits)
qed

lemma onwards_login_parts:
  "onwards (load_ceremony wa (sql_astore wa sha) i)" "onwards (user_with_credentials (sql_astore wa sha))"
  "onwards (sql_put_credential wa user cred)" "onwards (sql_create_session user)"
  unfolding load_ceremony_def user_with_credentials_def sql_astore_def astore.simps sql_take_ceremony_def
    sql_get_user_def sql_credentials_def sql_put_credential_def sql_create_session_def
  by (auto intro!: onwards_intros split: option.split prod.split)

text \<open>
  C32: the life of a session. A completed login starts a session of a registered account
  that lasts thirty days from a reading of the clock during the login: looked up until
  then it names that account, later it does not exist. Logging out ends it at once and
  leaves every other session alone.
\<close>

theorem session_lifecycle:
  assumes "finish_login wa (sql_astore wa sha) i req w = (Inr sid, w1)"
    and "w_db w2 = w_db w1" and "fault_free w2"
  shows "\<exists>user start. user \<in> us_id ` set (t_users (w_db w1)) \<and>
     start \<in> e_clock (w_env w) ` {w_pos w ..< w_pos w1} \<and>
     fst (as_session (sql_astore wa sha) sid w2) =
       (if lookup_time w2 \<le> start + 30 * 24 * hours then Inr user else Inl (Sentinel ErrSessionNotFound)) \<and>
     (case logout (sql_astore wa sha) sid w2 of
        (Inl _, _) \<Rightarrow> False
      | (Inr _, w3) \<Rightarrow> fst (as_session (sql_astore wa sha) sid w3) = Inl (Sentinel ErrSessionNotFound) \<and>
          (s = sid \<or> find_session s (w_db w3) = find_session s (w_db w2)))"
proof -
  obtain ses wa1 user creds wa2 cred wa3 wa4 where
    1: "load_ceremony wa (sql_astore wa sha) i w = (Inr ses, wa1)" and
    2: "user_with_credentials (sql_astore wa sha) wa1 = (Inr (user, creds), wa2)" and
    3: "liftE (wa_finish_login wa (real_user user creds) ses req) wa2 = (Inr cred, wa3)" and
    4: "sql_put_credential wa (us_id user) cred wa3 = (Inr (), wa4)" and
    5: "sql_create_session (us_id user) wa4 = (Inr sid, w1)"
    using assms(1) by (auto simp: finish_login_def bindE_eq_Inr sql_astore_def)
  have env: "w_env wa4 = w_env w \<and> w_pos w \<le> w_pos wa4"
    using onwardsD [OF onwards_login_parts(1) 1] onwardsD [OF onwards_login_parts(2) 2]
      onwardsD [OF onwards_basic(3) 3] onwardsD [OF onwards_login_parts(3) 4] by auto
  let ?start = "e_clock (w_env w) (Suc (w_pos wa4))"
  have c: "insertE (insert_session \<lparr> se_id = sid, se_user = us_id user, se_expires = ?start + session_ttl,
      se_created = ?start \<rparr>) (step_world (step_world wa4)) = (Inr (), w1)"
    using 5 env by (auto simp: sql_create_session_def bindE_eq_Inr randE_def nowE_def)
  have pos: "w_pos w1 = Suc (Suc (Suc (w_pos wa4)))"
    using c by (auto simp: insertE_def split: fault.splits sum.splits)
  have start: "?start \<in> e_clock (w_env w) ` {w_pos w ..< w_pos w1}"
    using env pos by auto
  note ins = find_session_insert [OF insertE_Inr [OF c], simplified]
  have look: "fst (as_session (sql_astore wa sha) sid w2) =
      (if lookup_time w2 \<le> ?start + 30 * 24 * hours then Inr (us_id user) else Inl (Sentinel ErrSessionNotFound))"
    using session_quiet [OF assms(3), of wa sha sid] ins by (simp add: assms(2) session_ttl_def)
  let ?d = "(w_db w2)\<lparr>t_sessions := filter (\<lambda>x. se_id x \<noteq> sid) (t_sessions (w_db w2))\<rparr>"
  let ?w3 = "(step_world w2)\<lparr>w_db := ?d\<rparr>"
  have out: "logout (sql_astore wa sha) sid w2 = (Inr (), ?w3)"
    using exec_quiet [OF assms(3), of "delete_session_row sid"]
    by (simp add: logout_def sql_astore_def sql_delete_session_def delete_session_row_def wrapE_def bindE_def retE_def)
  have "fst (as_session (sql_astore wa sha) sid ?w3) = Inl (Sentinel ErrSessionNotFound)"
    using session_quiet [of ?w3 wa sha sid] assms(3) by (simp add: find_session_delete)
  then show ?thesis
    using ins look start
    by (intro exI [of _ "us_id user"] exI [of _ ?start]) (simp add: out find_session_delete)
qed

definition logging_in :: world where
  "logging_in = snd (begin_login demo_wa demo_st
     (registered\<lparr>w_env := (w_env registered)\<lparr>e_rand := \<lambda>_. ''id2''\<rparr>\<rparr>))"

theorem session_lifecycle_witness:
  "\<exists>sid. fst (finish_login demo_wa demo_st ''id2'' ''key'' logging_in) = Inr sid \<and>
     fst (as_session demo_st sid (snd (finish_login demo_wa demo_st ''id2'' ''key'' logging_in))) = Inr ''id''"
proof -
  let ?r = "finish_login demo_wa demo_st ''id2'' ''key'' logging_in"
  have "\<not> isl (fst ?r)" by code_simp
  then obtain sid w1 where r: "?r = (Inr sid, w1)" by (cases ?r; cases "fst ?r") auto
  have "e_fault (w_env (snd ?r)) n = NoFault" for n by code_simp
  then have q: "fault_free w1" by (simp add: r fault_free_def)
  have u: "map us_id (t_users (w_db (snd ?r))) = [''id'']" by code_simp
  obtain user start where u': "user \<in> us_id ` set (t_users (w_db w1))"
    and l: "fst (as_session demo_st sid w1) =
      (if lookup_time w1 \<le> start + 30 * 24 * hours then Inr user else Inl (Sentinel ErrSessionNotFound))"
    using session_lifecycle [OF r refl q] by blast
  have "user \<in> set (map us_id (t_users (w_db w1)))" using u' by simp
  then have "user = ''id''" using u by (simp add: r del: set_map)
  moreover have "\<not> isl (fst (as_session demo_st (projr (fst ?r)) (snd ?r)))" by code_simp
  ultimately show ?thesis using l by (auto simp: r split: if_splits)
qed

subsection \<open>Ceremonies\<close>

text \<open>The ceremony \<open>i\<close> was completed: a registration, a login or an added passkey.\<close>

definition completed_with :: "('c, 's) webauthn \<Rightarrow> (string \<Rightarrow> string) \<Rightarrow> string \<Rightarrow> world \<Rightarrow> world \<Rightarrow> bool" where
  "completed_with wa sha i w w1 \<longleftrightarrow>
     (\<exists>r x. finish_registration wa (sql_astore wa sha) i r w = (Inr x, w1)) \<or>
     (\<exists>r x. finish_login wa (sql_astore wa sha) i r w = (Inr x, w1)) \<or>
     (\<exists>l r x. finish_add_credential wa (sql_astore wa sha) i l r w = (Inr x, w1))"

lemma completed_takes:
  "completed_with wa sha i w w1 \<Longrightarrow>
   find_ceremony i (w_db w) \<noteq> None \<and> ceremony_map (w_db w1) = (ceremony_map (w_db w))(i := None)"
  using sql_auth.finish_registration_takes sql_auth.finish_login_takes sql_auth.finish_add_takes
  unfolding completed_with_def by metis

lemma load_missing:
  assumes "fault_free w" and "find_ceremony i (w_db w) = None"
  shows "load_ceremony wa (sql_astore wa sha) i w =
    (Inl (Wrap ''load ceremony'' (Sentinel ErrCeremonyNotFound)), step_world w)"
  using assms
  by (simp add: load_ceremony_def sql_astore_def sql_take_ceremony_def bindE_def wrapE_def query_row_quiet
      throwE_def wrap_error_def)

text \<open>
  C33: a ceremony is good for one use. Once it has completed, neither a registration nor a
  login nor an added passkey can be finished with it: each is refused as not found and
  changes nothing. No other ceremony in flight is affected.
\<close>

theorem ceremony_single_use:
  assumes "completed_with wa sha i w w1" and "w_db w2 = w_db w1" and "fault_free w2"
  shows "finish_registration wa (sql_astore wa sha) i r w2 =
      (Inl (Wrap ''load ceremony'' (Sentinel ErrCeremonyNotFound)), step_world w2) \<and>
    finish_login wa (sql_astore wa sha) i r w2 =
      (Inl (Wrap ''load ceremony'' (Sentinel ErrCeremonyNotFound)), step_world w2) \<and>
    finish_add_credential wa (sql_astore wa sha) i l r w2 =
      (Inl (Wrap ''load ceremony'' (Sentinel ErrCeremonyNotFound)), step_world w2) \<and>
    (j = i \<or> find_ceremony j (w_db w1) = find_ceremony j (w_db w))"
proof -
  have c: "find_ceremony k (w_db w1) = (if k = i then None else find_ceremony k (w_db w))" for k
    using fun_cong [OF conjunct2 [OF completed_takes [OF assms(1)]], of k] by simp
  note load = load_missing [OF assms(3), of i wa sha]
  show ?thesis
    using c assms(2)
    by (simp add: finish_registration_def finish_login_def finish_add_credential_def load bindE_Inl)
qed

theorem ceremony_single_use_witness:
  "finish_login demo_wa demo_st ''id'' ''key'' registered =
     (Inl (Wrap ''load ceremony'' (Sentinel ErrCeremonyNotFound)), step_world registered)"
proof -
  let ?r = "finish_registration demo_wa demo_st ''id'' ''key'' registering"
  have "\<not> isl (fst ?r)" by code_simp
  then obtain x where "?r = (Inr x, registered)"
    unfolding registered_def by (cases ?r; cases "fst ?r") auto
  then have c: "completed_with demo_wa (\<lambda>x. x) ''id'' registering registered"
    unfolding completed_with_def by blast
  have "e_fault (w_env registered) n = NoFault" for n by code_simp
  then have q: "fault_free registered" by (simp add: fault_free_def)
  show ?thesis using ceremony_single_use [OF c refl q] by blast
qed

subsection \<open>What can go wrong\<close>

text \<open>A registration whose credential fails to be stored.\<close>

definition failing_registration :: world where
  "failing_registration = snd (finish_registration demo_wa demo_st ''id'' ''key''
     (registering\<lparr>w_env := quiet_env\<lparr>e_fault := \<lambda>n. if n = w_pos registering + 8 then FailStmt ''disk full'' else NoFault\<rparr>\<rparr>))"

lemma begin_registration_refused:
  "fault_free w \<Longrightarrow> t_users (w_db w) \<noteq> [] \<Longrightarrow>
   begin_registration wa (sql_astore wa sha) w = (Inl (Sentinel ErrUserExists), step_world w)"
  by (cases "t_users (w_db w)")
    (auto simp: begin_registration_def sql_astore_def sql_get_user_def bindE_def wrapE_def tryE_def
      query_row_quiet first_row_def retE_def throwE_def)

text \<open>
  Registering is not atomic: a registration whose second write fails leaves an
  account without a credential behind, and from then on every new registration is
  refused with \<open>ErrUserExists\<close>, whatever the library does: nobody can ever log in.
\<close>

lemma registration_can_lock_out:
  "length (t_users (w_db failing_registration)) = 1 \<and> t_credentials (w_db failing_registration) = [] \<and>
   begin_registration wa (sql_astore wa sha) (failing_registration\<lparr>w_env := quiet_env\<rparr>) =
     (Inl (Sentinel ErrUserExists), step_world (failing_registration\<lparr>w_env := quiet_env\<rparr>))"
proof (intro conjI)
  show u: "length (t_users (w_db failing_registration)) = 1" by code_simp
  show "t_credentials (w_db failing_registration) = []" by code_simp
  show "begin_registration wa (sql_astore wa sha) (failing_registration\<lparr>w_env := quiet_env\<rparr>) =
     (Inl (Sentinel ErrUserExists), step_world (failing_registration\<lparr>w_env := quiet_env\<rparr>))"
    using u by (intro begin_registration_refused) (auto simp: fault_free_def quiet_env_def)
qed

text \<open>
  Two requests that finish a registration at the same time, interleaved at their database
  calls: both count the accounts, then both insert one.
\<close>

definition racing :: world where
  "racing = \<lparr> w_db = empty_db, w_pos = 0,
     w_env = quiet_env\<lparr>e_rand := \<lambda>n. if n < 5 then ''a'' else ''b''\<rparr>, w_limits = [], w_ready = None \<rparr>"

text \<open>
  The one-account rule holds for requests that run one after the other (the
  invariant above), but \<open>CreateUser\<close> checks and inserts in two separate database calls:
  there is an interleaving of two registrations, each of them allowed by its check, after
  which two accounts exist.
\<close>

lemma registration_race:
  "\<exists>w1 w2 w3 u1 u2. create_user_check racing = (Inr (), w1) \<and> create_user_check w1 = (Inr (), w2) \<and>
     create_user_insert ''handle1'' registration_display_name w2 = (Inr u1, w3) \<and>
     (\<exists>w4. create_user_insert ''handle2'' registration_display_name w3 = (Inr u2, w4) \<and>
       t_users (w_db w4) = [u1, u2] \<and> u1 \<noteq> u2)"
proof -
  let ?w1 = "snd (create_user_check racing)"
  let ?w2 = "snd (create_user_check ?w1)"
  let ?r3 = "create_user_insert ''handle1'' registration_display_name ?w2"
  let ?r4 = "create_user_insert ''handle2'' registration_display_name (snd ?r3)"
  have 1: "fst (create_user_check racing) = Inr ()" "fst (create_user_check ?w1) = Inr ()" by code_simp+
  have 3: "fst ?r3 = Inr \<lparr> us_id = ''a'', us_handle = ''handle1'', us_display = ''admin'', us_created = 3 \<rparr>"
    by code_simp
  have 4: "fst ?r4 = Inr \<lparr> us_id = ''b'', us_handle = ''handle2'', us_display = ''admin'', us_created = 6 \<rparr>"
    by code_simp
  have 5: "t_users (w_db (snd ?r4)) =
      [\<lparr> us_id = ''a'', us_handle = ''handle1'', us_display = ''admin'', us_created = 3 \<rparr>,
       \<lparr> us_id = ''b'', us_handle = ''handle2'', us_display = ''admin'', us_created = 6 \<rparr>]" by code_simp
  show ?thesis
    apply (rule exI [of _ ?w1], rule exI [of _ ?w2], rule exI [of _ "snd ?r3"])
    apply (rule exI [of _ "projr (fst ?r3)"], rule exI [of _ "projr (fst ?r4)"])
    apply (intro conjI exI [of _ "snd ?r4"])
    using 1 3 4 5 by (simp_all add: prod_eq_iff)
qed

text \<open>
  \<open>TakeCeremony\<close> reads the ceremony and deletes it in two database calls as well, and does not
  look whether the deletion found it.
\<close>

definition take_find :: "string \<Rightarrow> (string \<times> gotime) option io" where
  "take_find i = wrapE ''query ceremony'' (query_rowE (find_ceremony i))"

definition take_delete :: "string \<Rightarrow> (string \<times> gotime) option \<Rightarrow> string io" where
  "take_delete i row =
     (case row of
        None \<Rightarrow> throwE (Sentinel ErrCeremonyNotFound)
      | Some (data, expires) \<Rightarrow>
          bindE (wrapE ''delete ceremony'' (execE (delete_ceremony i))) (\<lambda>_.
          bindE nowE (\<lambda>now.
            if expires < now then throwE (Sentinel ErrCeremonyNotFound) else retE data)))"

lemma take_halves: "sql_take_ceremony i = bindE (take_find i) (take_delete i)"
  unfolding sql_take_ceremony_def take_find_def
  by (rule arg_cong [where f = "bindE _"], rule ext) (simp add: take_delete_def)

lemma take_quiet:
  assumes "fault_free w" and "\<And>n. e_clock (w_env w) n \<le> expires"
  shows "take_delete i (Some (data, expires)) w =
    (Inr data, (step_world (step_world w))\<lparr>w_db := (w_db w)\<lparr>t_ceremonies := filter (\<lambda>c. ce_id c \<noteq> i) (t_ceremonies (w_db w))\<rparr>\<rparr>)"
proof -
  have "\<not> expires < e_clock (w_env w) n" for n using assms(2) by (simp add: not_less)
  moreover obtain n where "delete_ceremony i (w_db w) =
      Some ((w_db w)\<lparr>t_ceremonies := filter (\<lambda>c. ce_id c \<noteq> i) (t_ceremonies (w_db w))\<rparr>, n)"
    by (simp add: delete_ceremony_def)
  ultimately show ?thesis
    using assms(1) by (simp add: take_delete_def bindE_def wrapE_Inr [OF exec_quiet] nowE_def step_world_def)
qed

lemma ceremony_taken_twice:
  assumes w: "fault_free w" and c: "find_ceremony i (w_db w) = Some (data, expires)"
    and clock: "\<And>n. e_clock (w_env w) n \<le> expires"
  shows "\<exists>w1 w2 w3 w4. take_find i w = (Inr (Some (data, expires)), w1) \<and> take_find i w1 = (Inr (Some (data, expires)), w2) \<and>
    take_delete i (Some (data, expires)) w2 = (Inr data, w3) \<and> take_delete i (Some (data, expires)) w3 = (Inr data, w4)"
proof -
  let ?w2 = "step_world (step_world w)"
  have find: "take_find i w = (Inr (Some (data, expires)), step_world w)"
    "take_find i (step_world w) = (Inr (Some (data, expires)), ?w2)"
    using w c by (simp_all add: take_find_def wrapE_Inr [OF query_row_quiet] fault_free_def step_world_def)
  have "fault_free ?w2" "\<And>n. e_clock (w_env ?w2) n \<le> expires" using w clock by (simp_all add: fault_free_def)
  note first = take_quiet [OF this, of i data]
  obtain w3 where w3: "take_delete i (Some (data, expires)) ?w2 = (Inr data, w3)" and "w_env w3 = w_env w"
    using first by (simp add: step_world_def)
  then have "fault_free w3" "\<And>n. e_clock (w_env w3) n \<le> expires" using w clock by (simp_all add: fault_free_def)
  from take_quiet [OF this, of i data] find w3 show ?thesis by blast
qed

definition in_flight :: world where
  "in_flight = racing\<lparr>w_db := empty_db\<lparr>t_ceremonies := [\<lparr> ce_id = ''c'', ce_data = ''d'', ce_expires = 100 \<rparr>]\<rparr>,
     w_env := quiet_env\<lparr>e_clock := \<lambda>_. 1\<rparr>\<rparr>"


end
