(* ===== verification/Ingestion.thy ===== *)
theory Ingestion
  imports GoIO GoTime
begin

text \<open>
  Forge ingestion (\<open>internal/ingestion\<close>): tracked repositories, the runs, jobs and steps of
  their pipelines, registration, webhook deliveries, reconciliation polling, actions on
  runs and job logs, over the store interfaces and the forge clients. A forge client is a
  record of operations: what the forge answers comes from outside the program. The JSON
  decoders of the webhook payloads and the HMAC are parameters.
\<close>

subsection \<open>Data\<close>

record repo =
  tr_id :: string
  tr_forge :: string
  tr_identifier :: string
  tr_instance :: string
  tr_masked :: string
  tr_secret :: string
  tr_status :: string
  tr_reason :: string
  tr_etag :: string
  tr_created :: gotime

record new_repo =
  nr_forge :: string
  nr_identifier :: string
  nr_instance :: string
  nr_token :: string

record repo_filter =
  rl_forge :: string
  rl_limit :: int
  rl_offset :: int

record run_data =
  rnd_id :: string
  rnd_repo :: string
  rnd_forge_run :: string
  rnd_pipeline :: string
  rnd_status :: string
  rnd_conclusion :: string
  rnd_started :: "gotime option"
  rnd_completed :: "gotime option"
  rnd_url :: string
  rnd_branch :: string
  rnd_sha :: string
  rnd_message :: string
  rnd_actor :: string

record job_data =
  jd_id :: string
  jd_run :: string
  jd_forge_job :: string
  jd_name :: string
  jd_status :: string
  jd_conclusion :: string
  jd_queued :: "gotime option"
  jd_started :: "gotime option"
  jd_completed :: "gotime option"
  jd_url :: string

record step_data =
  sd_number :: int
  sd_name :: string
  sd_status :: string
  sd_conclusion :: string
  sd_started :: "gotime option"
  sd_completed :: "gotime option"

record run_state =
  sta_status :: string
  sta_conclusion :: string

record step_snapshot =
  ssn_number :: int
  ssn_name :: string
  ssn_status :: string
  ssn_conclusion :: string
  ssn_started :: "gotime option"
  ssn_completed :: "gotime option"

record job_snapshot =
  jsn_forge_job :: string
  jsn_name :: string
  jsn_status :: string
  jsn_conclusion :: string
  jsn_queued :: "gotime option"
  jsn_started :: "gotime option"
  jsn_completed :: "gotime option"
  jsn_url :: string
  jsn_steps :: "step_snapshot list"

record run_snapshot =
  rsn_forge_run :: string
  rsn_pipeline :: string
  rsn_status :: string
  rsn_conclusion :: string
  rsn_started :: "gotime option"
  rsn_completed :: "gotime option"
  rsn_url :: string
  rsn_branch :: string
  rsn_sha :: string
  rsn_message :: string
  rsn_actor :: string
  rsn_jobs :: "job_snapshot list"

text \<open>\<open>MaskToken\<close>: at most the last four characters show.\<close>

definition mask_token :: "string \<Rightarrow> string" where
  "mask_token token =
     (if length token \<le> 4 then ''****'' else ''****'' @ drop (length token - 4) token)"

subsection \<open>The ports\<close>

record rstore =
  is_create :: "new_repo \<Rightarrow> repo io"
  is_list :: "repo_filter \<Rightarrow> (repo list \<times> bool) io"
  is_identifiers :: "string \<Rightarrow> string \<Rightarrow> string list io"
  is_get :: "string \<Rightarrow> repo io"
  is_delete :: "string \<Rightarrow> unit io"
  is_token :: "string \<Rightarrow> string io"
  is_set_status :: "string \<Rightarrow> string \<Rightarrow> string \<Rightarrow> unit io"
  is_set_etag :: "string \<Rightarrow> string \<Rightarrow> unit io"

record runstore =
  rn_by_identifier :: "string \<Rightarrow> string \<Rightarrow> repo io"
  rn_states :: "string \<Rightarrow> (string \<times> run_state) list io"
  rn_upsert_run :: "run_data \<Rightarrow> run_data io"
  rn_upsert_job :: "job_data \<Rightarrow> job_data io"
  rn_replace_steps :: "string \<Rightarrow> step_data list \<Rightarrow> unit io"

record webhook_request =
  wq_instance :: string
  wq_identifier :: string
  wq_token :: string
  wq_callback :: string
  wq_secret :: string

record get_repo_request =
  gq_instance :: string
  gq_identifier :: string
  gq_token :: string

record repo_metadata =
  rm_archived :: bool
  rm_fork :: bool
  rm_mirror :: bool

record list_runs_request =
  lq_instance :: string
  lq_identifier :: string
  lq_token :: string
  lq_etag :: string
  lq_known :: "(string \<times> run_state) list"

record list_runs_result =
  lr_not_modified :: bool
  lr_etag :: string
  lr_runs :: "run_snapshot list"

record forge_client =
  fc_create_webhook :: "webhook_request \<Rightarrow> unit io"
  fc_list_runs :: "list_runs_request \<Rightarrow> list_runs_result io"
  fc_list_repos :: "string \<Rightarrow> string \<Rightarrow> string list io"
  fc_get_repo :: "get_repo_request \<Rightarrow> repo_metadata io"

type_synonym clients = "string \<Rightarrow> forge_client option"

subsection \<open>Messages of errors\<close>

fun sentinel_text :: "sentinel \<Rightarrow> string" where
  "sentinel_text ErrInvalidPipelineID = ''invalid pipeline id''"
| "sentinel_text ErrPipelineNotFound = ''pipeline not found''"
| "sentinel_text ErrMetricsRunNotFound = ''run not found''"
| "sentinel_text ErrInvalidHealthFilter = ''invalid health filter''"
| "sentinel_text ErrInvalidPipelineSort = ''invalid pipeline sort''"
| "sentinel_text ErrInvalidRunStatus = ''invalid run status''"
| "sentinel_text ErrQuarantineNoteTooLong = ''quarantine note too long''"
| "sentinel_text ErrInvalidKey = ''unrecognized setting key''"
| "sentinel_text ErrInvalidValue = ''invalid setting value''"
| "sentinel_text ErrUserExists = ''a user account already exists''"
| "sentinel_text ErrNoUser = ''no user account has been registered yet''"
| "sentinel_text ErrCeremonyNotFound = ''ceremony not found or expired''"
| "sentinel_text ErrSessionNotFound = ''session not found or expired''"
| "sentinel_text ErrTokenNotFound = ''token not found, expired, or revoked''"
| "sentinel_text ErrCredentialNotFound = ''credential not found''"
| "sentinel_text ErrLastCredential = ''cannot revoke the account's last remaining credential''"
| "sentinel_text ErrRepoAlreadyTracked = ''repo already tracked''"
| "sentinel_text ErrRepoNotFound = ''repo not found''"
| "sentinel_text ErrRepoArchived = ''repo is archived''"
| "sentinel_text ErrRepoFork = ''repo is a fork''"
| "sentinel_text ErrRepoMirror = ''repo is a mirror''"
| "sentinel_text ErrNoForgeClient = ''no client configured for forge''"
| "sentinel_text ErrSavedTokenNotFound = ''saved token not found''"
| "sentinel_text ErrRunNotFound = ''run not found''"
| "sentinel_text ErrNotActionable = ''run state doesn't allow this action''"
| "sentinel_text ErrActionUnsupported = ''forge has no API for this action''"
| "sentinel_text ErrActionForbidden = ''token can't do this action''"
| "sentinel_text ErrActionUnreachable = ''forge unreachable''"
| "sentinel_text ErrJobNotFound = ''job not found''"
| "sentinel_text ErrLogUnsupported = ''forge has no job log API''"
| "sentinel_text ErrLogExpired = ''job log expired''"
| "sentinel_text ErrLogForbidden = ''token can't read the job log''"
| "sentinel_text ErrLogUnreachable = ''forge unreachable''"
| "sentinel_text ErrInvalidIdentifier = ''identifier must be in owner/name form''"
| "sentinel_text ErrUnexpectedStatus = ''unexpected status''"
| "sentinel_text ErrInvalidKeySize = ''encryption key must be 32 bytes''"
| "sentinel_text ErrCiphertextTooShort = ''ciphertext shorter than nonce''"

fun error_text :: "goerr \<Rightarrow> string" where
  "error_text (Sentinel s) = sentinel_text s"
| "error_text (Driver s) = s"
| "error_text (Constraint c) = ''constraint failed''"
| "error_text (Wrap m e) = m @ '': '' @ error_text e"
| "error_text (Detail e m) = error_text e @ '': '' @ m"
| "error_text (Both e f) = error_text e @ '': '' @ error_text f"
| "error_text GoPanic = []"

subsection \<open>Registration\<close>

definition refuse_repo :: "forge_client \<Rightarrow> new_repo \<Rightarrow> unit io" where
  "refuse_repo c n =
     bindE (tryE (fc_get_repo c \<lparr> gq_instance = nr_instance n, gq_identifier = nr_identifier n, gq_token = nr_token n \<rparr>))
       (\<lambda>r. case r of
          Inl _ \<Rightarrow> retE ()
        | Inr m \<Rightarrow>
            if rm_archived m then throwE (Sentinel ErrRepoArchived)
            else if rm_fork m then throwE (Sentinel ErrRepoFork)
            else if rm_mirror m then throwE (Sentinel ErrRepoMirror)
            else retE ())"

definition degrade :: "rstore \<Rightarrow> repo \<Rightarrow> string \<Rightarrow> repo io" where
  "degrade st r reason =
     bindE (wrapE ''mark repo degraded'' (is_set_status st (tr_id r) ''degraded'' reason)) (\<lambda>_.
       retE (r\<lparr>tr_status := ''degraded'', tr_reason := reason\<rparr>))"

text \<open>\<open>%q\<close> for text whose runes beyond ASCII are printable, which stand for themselves.\<close>

definition quote_char :: "char \<Rightarrow> string" where
  "quote_char c =
     (let b = byte c in
      if b = 34 \<or> b = 92 then [CHR 0x5C, c]
      else if 7 \<le> b \<and> b \<le> 13 then [CHR 0x5C, ''abtnvfr'' ! (b - 7)]
      else if b < 32 \<or> b = 127 then CHR 0x5C # CHR ''x'' # hex_encode [c]
      else [c])"

definition quoted :: "string \<Rightarrow> string" where
  "quoted s = [CHR 0x22] @ concat (map quote_char s) @ [CHR 0x22]"

definition register :: "rstore \<Rightarrow> clients \<Rightarrow> string \<Rightarrow> new_repo \<Rightarrow> repo io" where
  "register st cs url n =
     thenE (case cs (nr_forge n) of None \<Rightarrow> retE () | Some c \<Rightarrow> refuse_repo c n)
     (bindE (wrapE ''create repo'' (is_create st n)) (\<lambda>r.
        case cs (nr_forge n) of
          None \<Rightarrow> degrade st r (''no client configured for forge '' @ quoted (tr_forge r))
        | Some c \<Rightarrow>
            bindE (tryE (fc_create_webhook c
              \<lparr> wq_instance = tr_instance r, wq_identifier = tr_identifier r, wq_token = nr_token n,
                wq_callback = url @ ''/webhooks/'' @ tr_forge r, wq_secret = tr_secret r \<rparr>)) (\<lambda>res.
            case res of
              Inl e \<Rightarrow> degrade st r (error_text e)
            | Inr _ \<Rightarrow>
                bindE (wrapE ''mark repo active'' (is_set_status st (tr_id r) ''active'' [])) (\<lambda>_.
                  retE (r\<lparr>tr_status := ''active'', tr_reason := []\<rparr>)))))"

definition discover :: "clients \<Rightarrow> string \<Rightarrow> string \<Rightarrow> string \<Rightarrow> string list io" where
  "discover cs forge inst token =
     (case cs forge of
        None \<Rightarrow> throwE (Detail (Sentinel ErrNoForgeClient) (quoted forge))
      | Some c \<Rightarrow> wrapE ''discover repos'' (fc_list_repos c inst token))"

subsection \<open>Webhook deliveries\<close>

text \<open>\<open>VerifySignature\<close>; \<open>hmac\<close> is HMAC-SHA256 of the body under the secret.\<close>

definition verify_signature :: "(string \<Rightarrow> string \<Rightarrow> string) \<Rightarrow> string \<Rightarrow> string \<Rightarrow> string \<Rightarrow> bool" where
  "verify_signature hmac secret body signature =
     (case hex_decode (trim_prefix signature ''sha256='') of
        None \<Rightarrow> False
      | Some given \<Rightarrow> given = hmac secret body)"

record workflow_run_event =
  we_id :: int
  we_name :: string
  we_status :: string
  we_conclusion :: string
  we_started :: string
  we_updated :: string
  we_url :: string
  we_branch :: string
  we_sha :: string
  we_message :: string
  we_actor :: string

record job_step_event =
  je_name :: string
  je_status :: string
  je_conclusion :: string
  je_number :: int
  je_started :: string
  je_completed :: string

record workflow_job_event =
  wj_id :: int
  wj_run :: int
  wj_workflow :: string
  wj_name :: string
  wj_status :: string
  wj_conclusion :: string
  wj_created :: string
  wj_started :: string
  wj_completed :: string
  wj_url :: string
  wj_steps :: "job_step_event list"

definition parse_time :: "string \<Rightarrow> gotime option" where
  "parse_time s = (if s = [] then None else parse_rfc3339 s)"

definition first_line :: "string \<Rightarrow> string" where
  "first_line message = trim_space (fst (cut (CHR 0x0A) message))"

definition process_workflow_run :: "(string \<Rightarrow> workflow_run_event res) \<Rightarrow> runstore \<Rightarrow> repo \<Rightarrow> string \<Rightarrow> unit io" where
  "process_workflow_run dec rn r payload =
     bindE (wrapE ''unmarshal workflow_run event'' (liftE (dec payload))) (\<lambda>e.
     let run = \<lparr> rnd_id = [], rnd_repo = tr_id r, rnd_forge_run = itoa (we_id e), rnd_pipeline = we_name e,
                 rnd_status = we_status e, rnd_conclusion = we_conclusion e,
                 rnd_started = parse_time (we_started e),
                 rnd_completed = (if we_status e = ''completed'' then parse_time (we_updated e) else None),
                 rnd_url = we_url e, rnd_branch = we_branch e, rnd_sha = we_sha e,
                 rnd_message = first_line (we_message e), rnd_actor = we_actor e \<rparr>
     in bindE (wrapE ''upsert run'' (rn_upsert_run rn run)) (\<lambda>_. retE ()))"

text \<open>The parent run as a \<open>workflow_job\<close> delivery knows it.\<close>

definition stub_run :: "repo \<Rightarrow> workflow_job_event \<Rightarrow> run_data" where
  "stub_run r e =
     \<lparr> rnd_id = [], rnd_repo = tr_id r, rnd_forge_run = itoa (wj_run e), rnd_pipeline = wj_workflow e,
       rnd_status = ''in_progress'', rnd_conclusion = [], rnd_started = None, rnd_completed = None,
       rnd_url = [], rnd_branch = [], rnd_sha = [], rnd_message = [], rnd_actor = [] \<rparr>"

definition event_job :: "string \<Rightarrow> workflow_job_event \<Rightarrow> job_data" where
  "event_job run e =
     \<lparr> jd_id = [], jd_run = run, jd_forge_job = itoa (wj_id e), jd_name = wj_name e, jd_status = wj_status e,
       jd_conclusion = wj_conclusion e, jd_queued = parse_time (wj_created e),
       jd_started = parse_time (wj_started e), jd_completed = parse_time (wj_completed e), jd_url = wj_url e \<rparr>"

definition event_step :: "job_step_event \<Rightarrow> step_data" where
  "event_step s =
     \<lparr> sd_number = je_number s, sd_name = je_name s, sd_status = je_status s, sd_conclusion = je_conclusion s,
       sd_started = parse_time (je_started s), sd_completed = parse_time (je_completed s) \<rparr>"

definition process_workflow_job :: "(string \<Rightarrow> workflow_job_event res) \<Rightarrow> runstore \<Rightarrow> repo \<Rightarrow> string \<Rightarrow> unit io" where
  "process_workflow_job dec rn r payload =
     bindE (wrapE ''unmarshal workflow_job event'' (liftE (dec payload))) (\<lambda>e.
     bindE (wrapE ''upsert parent run'' (rn_upsert_run rn (stub_run r e))) (\<lambda>run.
     bindE (wrapE ''upsert job'' (rn_upsert_job rn (event_job (rnd_id run) e))) (\<lambda>job.
       wrapE ''replace steps'' (rn_replace_steps rn (jd_id job) (map event_step (wj_steps e))))))"

definition process_github_event ::
  "(string \<Rightarrow> workflow_run_event res) \<Rightarrow> (string \<Rightarrow> workflow_job_event res) \<Rightarrow> runstore \<Rightarrow> repo \<Rightarrow> string \<Rightarrow> string \<Rightarrow> unit io" where
  "process_github_event dec_run dec_job rn r event payload =
     (if event = ''workflow_run'' then process_workflow_run dec_run rn r payload
      else if event = ''workflow_job'' then process_workflow_job dec_job rn r payload
      else retE ())"

subsection \<open>Reconciliation\<close>

definition run_of_snapshot :: "string \<Rightarrow> run_snapshot \<Rightarrow> run_data" where
  "run_of_snapshot repo_id s =
     \<lparr> rnd_id = [], rnd_repo = repo_id, rnd_forge_run = rsn_forge_run s, rnd_pipeline = rsn_pipeline s,
       rnd_status = rsn_status s, rnd_conclusion = rsn_conclusion s, rnd_started = rsn_started s,
       rnd_completed = rsn_completed s, rnd_url = rsn_url s, rnd_branch = rsn_branch s, rnd_sha = rsn_sha s,
       rnd_message = rsn_message s, rnd_actor = rsn_actor s \<rparr>"

definition job_of_snapshot :: "string \<Rightarrow> job_snapshot \<Rightarrow> job_data" where
  "job_of_snapshot run s =
     \<lparr> jd_id = [], jd_run = run, jd_forge_job = jsn_forge_job s, jd_name = jsn_name s, jd_status = jsn_status s,
       jd_conclusion = jsn_conclusion s, jd_queued = jsn_queued s, jd_started = jsn_started s,
       jd_completed = jsn_completed s, jd_url = jsn_url s \<rparr>"

definition step_of_snapshot :: "step_snapshot \<Rightarrow> step_data" where
  "step_of_snapshot s =
     \<lparr> sd_number = ssn_number s, sd_name = ssn_name s, sd_status = ssn_status s,
       sd_conclusion = ssn_conclusion s, sd_started = ssn_started s, sd_completed = ssn_completed s \<rparr>"

definition store_job_snapshot :: "runstore \<Rightarrow> string \<Rightarrow> job_snapshot \<Rightarrow> unit io" where
  "store_job_snapshot rn run s =
     bindE (wrapE ''upsert job'' (rn_upsert_job rn (job_of_snapshot run s))) (\<lambda>job.
       wrapE ''replace steps'' (rn_replace_steps rn (jd_id job) (map step_of_snapshot (jsn_steps s))))"

definition store_run_snapshot :: "runstore \<Rightarrow> repo \<Rightarrow> run_snapshot \<Rightarrow> unit io" where
  "store_run_snapshot rn r s =
     bindE (wrapE ''upsert run'' (rn_upsert_run rn (run_of_snapshot (tr_id r) s))) (\<lambda>run.
       forE (rsn_jobs s) (store_job_snapshot rn (rnd_id run)))"

definition reconcile_repo :: "rstore \<Rightarrow> runstore \<Rightarrow> clients \<Rightarrow> repo \<Rightarrow> unit io" where
  "reconcile_repo st rn cs r =
     (case cs (tr_forge r) of
        None \<Rightarrow> retE ()
      | Some c \<Rightarrow>
          bindE (wrapE ''load repo token'' (is_token st (tr_id r))) (\<lambda>token.
          bindE (wrapE ''load known run states'' (rn_states rn (tr_id r))) (\<lambda>known.
          bindE (wrapE ''list recent runs'' (fc_list_runs c
            \<lparr> lq_instance = tr_instance r, lq_identifier = tr_identifier r, lq_token = token,
              lq_etag = tr_etag r, lq_known = known \<rparr>)) (\<lambda>res.
          if lr_not_modified res then retE ()
          else thenE (forE (lr_runs res) (store_run_snapshot rn r))
            (if lr_etag res = [] then retE ()
             else wrapE ''persist reconciliation etag'' (is_set_etag st (tr_id r) (lr_etag res)))))))"

text \<open>A failure is logged and the next repository is polled.\<close>

definition reconcile_all :: "rstore \<Rightarrow> runstore \<Rightarrow> clients \<Rightarrow> unit io" where
  "reconcile_all st rn cs =
     bindE (tryE (is_list st \<lparr> rl_forge = [], rl_limit = 0, rl_offset = 0 \<rparr>)) (\<lambda>res.
       case res of
         Inl _ \<Rightarrow> retE ()
       | Inr (repos, _) \<Rightarrow>
           forE repos (\<lambda>r. bindE (tryE (reconcile_repo st rn cs r)) (\<lambda>_. retE ())))"

text \<open>\<open>Run\<close> with \<open>n\<close> ticks before its context is done.\<close>

definition reconcile_run :: "rstore \<Rightarrow> runstore \<Rightarrow> clients \<Rightarrow> nat \<Rightarrow> unit io" where
  "reconcile_run st rn cs n = thenE (reconcile_all st rn cs) (forE [0..<n] (\<lambda>_. reconcile_all st rn cs))"

definition process_forgejo_event :: "(repo \<Rightarrow> unit io) \<Rightarrow> repo \<Rightarrow> string \<Rightarrow> unit io" where
  "process_forgejo_event reconcile r event =
     (if event \<noteq> ''push'' then retE () else wrapE ''reconcile repo'' (reconcile r))"

end
