(* ===== verification/RunServices.thy ===== *)
theory RunServices
  imports Ingestion
begin

text \<open>
  The services that act on one recorded run (\<open>run_actions.go\<close>) and read one job's log
  (\<open>joblog_service.go\<close>) on its forge, with the repository's stored token. What the forge
  answers is a parameter, one operation per forge that supports it.
\<close>

subsection \<open>Actions on runs\<close>

datatype run_action = ActionRerun | ActionCancel

definition actions_for :: "string \<Rightarrow> string \<Rightarrow> run_action list" where
  "actions_for forge status =
     (if forge \<noteq> ''github'' then []
      else if status = ''completed'' then [ActionRerun] else [ActionCancel])"

record action_request =
  aq_instance :: string
  aq_identifier :: string
  aq_token :: string
  aq_forge_run :: string
  aq_failed_only :: bool

record run_actor =
  ra_rerun :: "action_request \<Rightarrow> unit io"
  ra_cancel :: "action_request \<Rightarrow> unit io"

record action_ports =
  ap_run :: "string \<Rightarrow> run_data io"
  ap_repo :: "string \<Rightarrow> repo io"
  ap_token :: "string \<Rightarrow> string io"

definition action_name :: "run_action \<Rightarrow> string" where
  "action_name a = (case a of ActionRerun \<Rightarrow> ''rerun'' | ActionCancel \<Rightarrow> ''cancel'')"

definition run_act :: "action_ports \<Rightarrow> (string \<Rightarrow> run_actor option) \<Rightarrow> string \<Rightarrow> run_action \<Rightarrow> unit io" where
  "run_act ps actors run_id action =
     bindE (wrapE ''find run'' (ap_run ps run_id)) (\<lambda>run.
     if (rnd_status run = ''completed'') \<noteq> (action = ActionRerun) then throwE (Sentinel ErrNotActionable)
     else bindE (tryE (ap_repo ps (rnd_repo run))) (\<lambda>got.
       case got of
         Inl e \<Rightarrow> if is_err e ErrRepoNotFound then throwE (Sentinel ErrRunNotFound)
                  else throwE (wrap_error ''get repo'' e)
       | Inr r \<Rightarrow>
           (case actors (tr_forge r) of
              None \<Rightarrow> throwE (Sentinel ErrActionUnsupported)
            | Some actor \<Rightarrow>
                bindE (wrapE ''get repo token'' (ap_token ps (tr_id r))) (\<lambda>token.
                let req = \<lparr> aq_instance = tr_instance r, aq_identifier = tr_identifier r, aq_token = token,
                            aq_forge_run = rnd_forge_run run,
                            aq_failed_only = (rnd_conclusion run = ''failure'' \<or> rnd_conclusion run = ''timed_out'') \<rparr>
                in wrapE (action_name action @ '' run'')
                     (if action = ActionCancel then ra_cancel actor req else ra_rerun actor req)))))"

definition rerun :: "action_ports \<Rightarrow> (string \<Rightarrow> run_actor option) \<Rightarrow> string \<Rightarrow> unit io" where
  "rerun ps actors run_id = run_act ps actors run_id ActionRerun"

definition cancel :: "action_ports \<Rightarrow> (string \<Rightarrow> run_actor option) \<Rightarrow> string \<Rightarrow> unit io" where
  "cancel ps actors run_id = run_act ps actors run_id ActionCancel"

text \<open>The outcome that is logged.\<close>

definition outcome_text :: "unit res \<Rightarrow> string" where
  "outcome_text r = (case r of
      Inr _ \<Rightarrow> ''accepted''
    | Inl e \<Rightarrow>
        if is_err e ErrNotActionable then ''not_actionable''
        else if is_err e ErrActionForbidden then ''forbidden''
        else if is_err e ErrActionUnsupported then ''unsupported''
        else if is_err e ErrActionUnreachable then ''unreachable''
        else ''error'')"

subsection \<open>Job logs\<close>

definition default_log_lines :: int where "default_log_lines = 200"
definition max_log_lines :: int where "max_log_lines = 1000"

datatype log_reason = LogAvailable | LogUnsupported | LogExpired | LogForbidden | LogUnreachable

record job_location =
  jl_repo :: string
  jl_forge_job :: string
  jl_url :: string

record log_request =
  gl_instance :: string
  gl_identifier :: string
  gl_token :: string
  gl_forge_job :: string
  gl_lines :: int

record log_tail =
  lt_lines :: "string list"
  lt_truncated :: bool

text \<open>\<open>lo_reason\<close> is \<open>LogAvailable\<close> where the code leaves the reason empty.\<close>

record log_result =
  lo_available :: bool
  lo_reason :: log_reason
  lo_lines :: "string list"
  lo_truncated :: bool
  lo_url :: string

record log_ports =
  lp_locate :: "string \<Rightarrow> string \<Rightarrow> job_location io"
  lp_repo :: "string \<Rightarrow> repo io"
  lp_token :: "string \<Rightarrow> string io"

definition clamp_lines :: "int \<Rightarrow> int" where
  "clamp_lines n = min (if n \<le> 0 then default_log_lines else n) max_log_lines"

definition unavailable :: "job_location \<Rightarrow> log_reason \<Rightarrow> log_result" where
  "unavailable loc reason =
     \<lparr> lo_available = False, lo_reason = reason, lo_lines = [], lo_truncated = False, lo_url = jl_url loc \<rparr>"

definition log_tail_of ::
  "log_ports \<Rightarrow> (string \<Rightarrow> (log_request \<Rightarrow> log_tail io) option) \<Rightarrow> string \<Rightarrow> string \<Rightarrow> int \<Rightarrow> log_result io" where
  "log_tail_of ps readers run_id job_id n =
     bindE (wrapE ''locate job'' (lp_locate ps run_id job_id)) (\<lambda>loc.
     bindE (tryE (lp_repo ps (jl_repo loc))) (\<lambda>got.
     case got of
       Inl e \<Rightarrow> if is_err e ErrRepoNotFound then throwE (Sentinel ErrJobNotFound)
                else throwE (wrap_error ''get repo'' e)
     | Inr r \<Rightarrow>
         (case readers (tr_forge r) of
            None \<Rightarrow> retE (unavailable loc LogUnsupported)
          | Some reader \<Rightarrow>
              bindE (wrapE ''get repo token'' (lp_token ps (tr_id r))) (\<lambda>token.
              bindE (tryE (reader \<lparr> gl_instance = tr_instance r, gl_identifier = tr_identifier r,
                 gl_token = token, gl_forge_job = jl_forge_job loc, gl_lines = clamp_lines n \<rparr>)) (\<lambda>res.
              case res of
                Inr t \<Rightarrow> retE \<lparr> lo_available = True, lo_reason = LogAvailable, lo_lines = lt_lines t,
                               lo_truncated = lt_truncated t, lo_url = jl_url loc \<rparr>
              | Inl e \<Rightarrow>
                  if is_err e ErrLogUnsupported then retE (unavailable loc LogUnsupported)
                  else if is_err e ErrLogExpired then retE (unavailable loc LogExpired)
                  else if is_err e ErrLogForbidden then retE (unavailable loc LogForbidden)
                  else if is_err e ErrLogUnreachable then retE (unavailable loc LogUnreachable)
                  else throwE (wrap_error ''read job log'' e))))))"

end
