(* ===== verification/JobLog.thy ===== *)
theory JobLog
  imports RunServices
begin

text \<open>
  The tail of a job's log (\<open>internal/ingestion/github/joblog.go\<close>, \<open>tailLines\<close>,
  \<open>readLine\<close> and \<open>finishLine\<close>) with the buffered reader they use: \<open>bufio.Reader.ReadLine\<close>
  over \<open>io.LimitReader\<close>. A body is its bytes, the error that ends it if it breaks off, and
  whether its reader reports the end together with the last bytes or one call later, which
  \<open>io.Reader\<close> leaves open.
\<close>

record http_body =
  hb_data :: string
  hb_failure :: "string option"
  hb_eager :: bool

text \<open>\<open>utf8.Valid\<close>: every byte below 128 stands alone, every other starts a wider encoding.\<close>

function utf8_valid :: "string \<Rightarrow> bool" where
  "utf8_valid s =
     (if s = [] then True
      else (byte (hd s) < 128 \<or> 1 < rune_width s) \<and> utf8_valid (drop (rune_width s) s))"
  by pat_completeness auto
termination
  by (relation "measure length") (auto simp: rune_width_pos)

declare utf8_valid.simps [simp del]

definition max_log_bytes :: nat where "max_log_bytes = 67108864"
definition max_log_line_length :: nat where "max_log_line_length = 4096"
definition log_buffer :: nat where "log_buffer = 65536"

abbreviation LF :: char where "LF \<equiv> CHR 0x0A"
abbreviation CR :: char where "CR \<equiv> CHR 0x0D"

definition strip_cr :: "string \<Rightarrow> string" where
  "strip_cr line = trim_suffix line [CR]"

text \<open>
  \<open>ReadLine\<close>: a part of the stream, whether its line goes on, and the rest; \<open>None\<close> at the
  end. A carriage return at the end of a full buffer is left for the next call.
\<close>

definition read_part :: "bool \<Rightarrow> string \<Rightarrow> (string \<times> bool \<times> string) option" where
  "read_part eager s =
     (if s = [] then None
      else case cut LF s of (a, b, found) \<Rightarrow>
        if found \<and> length a < log_buffer then Some (strip_cr a, False, b)
        else if length s < log_buffer \<or> length s = log_buffer \<and> eager then Some (s, False, [])
        else let part = take log_buffer s in
          if last part = CR then Some (butlast part, True, CR # drop log_buffer s)
          else Some (part, True, drop log_buffer s))"

function finish_trim :: "string \<Rightarrow> string" where
  "finish_trim line =
     (if line \<noteq> [] \<and> \<not> utf8_valid line \<and> length line = max_log_line_length
      then finish_trim (butlast line) else line)"
  by pat_completeness auto
termination
  by (relation "measure length") (auto simp: max_log_line_length_def)

declare finish_trim.simps [simp del]

definition finish_line :: "string \<Rightarrow> string" where
  "finish_line line = finish_trim (strip_cr line)"

lemma cut_length: "cut c s = (a, b, f) \<Longrightarrow> length a + length b \<le> length s \<and> (f \<longrightarrow> length b < length s)"
  using cut_sound [of c s a b f] by (auto split: if_splits)

lemma read_part_shorter: "read_part eager s = Some (part, more', rest) \<Longrightarrow> length rest < length s"
  by (auto simp: read_part_def Let_def log_buffer_def dest: cut_length split: if_splits prod.splits)

function read_line :: "bool \<Rightarrow> string \<Rightarrow> string \<Rightarrow> (string \<times> string) option" where
  "read_line eager line s =
     (case read_part eager s of
        None \<Rightarrow> None
      | Some (part, is_prefix, rest) \<Rightarrow>
          let line' = line @ take (max_log_line_length - length line) part
          in if is_prefix then read_line eager line' rest else Some (finish_line line', rest))"
  by pat_completeness auto
termination
  by (relation "measure (\<lambda>(_, _, s). length s)") (auto dest: read_part_shorter)

declare read_line.simps [simp del]

lemma read_line_shorter: "read_line eager line s = Some (l, rest) \<Longrightarrow> length rest < length s"
proof (induction eager line s rule: read_line.induct)
  case (1 eager line s)
  obtain part is_prefix r where p: "read_part eager s = Some (part, is_prefix, r)"
    using 1(2) by (subst (asm) read_line.simps) (auto split: option.splits)
  note r = read_part_shorter [OF p]
  show ?case
  proof (cases is_prefix)
    case True
    then have "read_line eager (line @ take (max_log_line_length - length line) part) r = Some (l, rest)"
      using 1(2) p by (subst (asm) read_line.simps) simp
    then have "length rest < length r"
      using 1(1) [OF p refl refl refl True] by simp
    with r show ?thesis by simp
  next
    case False
    then show ?thesis using 1(2) p r by (subst (asm) read_line.simps) simp
  qed
qed

definition ring_push :: "nat \<Rightarrow> 'a list \<Rightarrow> 'a \<Rightarrow> 'a list" where
  "ring_push n ring x = (if length ring = n then drop 1 ring else ring) @ [x]"

text \<open>The loop of \<open>tailLines\<close>: the ring of the last lines and how many were seen.\<close>

function tail_loop :: "bool \<Rightarrow> nat \<Rightarrow> string \<Rightarrow> string list \<Rightarrow> nat \<Rightarrow> string list \<times> nat" where
  "tail_loop eager n s ring seen =
     (case read_line eager [] s of
        None \<Rightarrow> (ring, seen)
      | Some (line, rest) \<Rightarrow>
          tail_loop eager n rest (ring_push n ring line) (seen + 1))"
  by pat_completeness auto
termination
  by (relation "measure (\<lambda>(_, _, s, _, _). length s)") (auto dest: read_line_shorter)

declare tail_loop.simps [simp del]

definition tail_lines :: "http_body \<Rightarrow> int \<Rightarrow> log_tail res" where
  "tail_lines b lines =
     (let n = nat (if lines < 1 then 1 else lines);
          at_end = (length (hb_data b) < max_log_bytes \<or> length (hb_data b) = max_log_bytes \<and> hb_eager b);
          eager = (hb_eager b \<and> length (hb_data b) \<le> max_log_bytes)
      in case tail_loop eager n (take max_log_bytes (hb_data b)) [] 0 of
           (ring, seen) \<Rightarrow>
             (case if at_end then hb_failure b else None of
                Some e \<Rightarrow> Inl (Both (Sentinel ErrLogUnreachable) (Wrap ''read log'' (Driver e)))
              | None \<Rightarrow> Inr \<lparr> lt_lines = ring, lt_truncated = n < seen \<rparr>))"

subsection \<open>What one line becomes\<close>

text \<open>The reference: the line without its line ending, cut to the limit.\<close>

definition shown_line :: "string \<Rightarrow> string" where
  "shown_line line = finish_line (take max_log_line_length (strip_cr line))"

lemma strip_cr_append: "a \<noteq> [] \<Longrightarrow> strip_cr (p @ a) = p @ strip_cr a"
  by (cases a rule: rev_cases) (auto simp: strip_cr_def trim_suffix_def has_suffix_def)

lemma strip_cr_last: "line = [] \<or> last line \<noteq> CR \<Longrightarrow> strip_cr line = line"
  by (cases line rule: rev_cases) (auto simp: strip_cr_def trim_suffix_def has_suffix_def)

lemma cut_append: "c \<notin> set p \<Longrightarrow> cut c (p @ s) = (case cut c s of (a, b, f) \<Rightarrow> (p @ a, b, f))"
  by (induction p) (auto split: prod.splits)

lemma take_limit_append: "line @ take (m - length line) (p @ q) =
  (let l' = line @ take (m - length line) p in l' @ take (m - length l') q)"
  by (simp add: Let_def min_def)

lemma cut_none: "c \<notin> set s \<Longrightarrow> cut c s = (s, [], False)"
  by (induction s) auto

text \<open>Whatever its length, a line that ends in a line feed is read whole.\<close>

lemma read_part_long:
  assumes "cut LF s = (a, b, True)" and "log_buffer \<le> length a"
  shows "\<exists>p r a'. read_part eager s = Some (p, True, r) \<and> cut LF r = (a', b, True) \<and> a = p @ a'
    \<and> (a' = [] \<longrightarrow> last p \<noteq> CR) \<and> p \<noteq> [] \<and> length r < length s"
proof -
  from cut_sound [OF assms(1)] have s: "s = a @ LF # b" and n: "LF \<notin> set a" by auto
  let ?t = "take log_buffer a" and ?d = "drop log_buffer a"
  have ts: "take log_buffer s = ?t" "drop log_buffer s = ?d @ LF # b" and ls: "log_buffer < length s"
    using assms(2) s by simp_all
  have tn: "?t \<noteq> []" "1 < length ?t" "LF \<notin> set ?t" "LF \<notin> set ?d"
    using assms(2) n by (auto simp: log_buffer_def dest: in_set_takeD in_set_dropD)
  have cd: "cut LF (?d @ LF # b) = (?d, b, True)" using cut_found [OF tn(4)] .
  show ?thesis
  proof (cases "last ?t = CR")
    case True
    have t: "?t = butlast ?t @ [CR]" using True tn(1) by (metis append_butlast_last_id)
    have b1: "butlast ?t \<noteq> []" using tn(2) by (cases "?t" rule: rev_cases) auto
    have "read_part eager s = Some (butlast ?t, True, CR # ?d @ LF # b)"
      using assms ls True by (auto simp: read_part_def ts)
    moreover have "cut LF (CR # ?d @ LF # b) = (CR # ?d, b, True)" using cd by simp
    moreover have "a = butlast ?t @ CR # ?d"
      using t by (metis append.assoc append_Cons append_Nil append_take_drop_id)
    moreover have "length (CR # ?d @ LF # b) < length s"
      using assms(2) s by (simp add: log_buffer_def)
    ultimately show ?thesis using b1 by blast
  next
    case False
    have "read_part eager s = Some (?t, True, ?d @ LF # b)"
      using assms ls False by (auto simp: read_part_def ts)
    moreover have "length (?d @ LF # b) < length s"
      using assms(2) s by (simp add: log_buffer_def)
    ultimately show ?thesis using cd False tn(1) by (metis append_take_drop_id)
  qed
qed

lemma read_line_found:
  assumes "cut LF s = (a, b, True)"
  shows "read_line eager line s =
    Some (finish_line (line @ take (max_log_line_length - length line) (strip_cr a)), b)"
  using assms
proof (induction "length s" arbitrary: s a line rule: less_induct)
  case less
  show ?case
  proof (cases "length a < log_buffer")
    case True
    have "s \<noteq> []" using less.prems by auto
    with True less.prems show ?thesis
      by (subst read_line.simps) (simp add: read_part_def Let_def)
  next
    case False
    then obtain p r a' where p: "read_part eager s = Some (p, True, r)" "cut LF r = (a', b, True)"
        "a = p @ a'" "a' = [] \<longrightarrow> last p \<noteq> CR" "length r < length s"
      using read_part_long [OF less.prems] by (metis not_less)
    have st: "strip_cr a = p @ strip_cr a'"
    proof (cases "a' = []")
      case True
      then have "strip_cr p = p" using p(4) by (intro strip_cr_last) simp
      with True p(3) show ?thesis by (simp add: strip_cr_def trim_suffix_def has_suffix_def)
    qed (simp add: p(3) strip_cr_append)
    show ?thesis
      using less.hyps [OF p(5) p(2)] p(1)
      by (subst read_line.simps) (simp add: st take_limit_append Let_def del: take_append)
  qed
qed

lemma read_line_last:
  assumes "LF \<notin> set s" and "s \<noteq> []" and "length s < log_buffer"
  shows "read_line eager line s = Some (finish_line (line @ take (max_log_line_length - length line) s), [])"
  using assms by (subst read_line.simps) (simp add: read_part_def Let_def cut_none)

subsection \<open>The tail of a log\<close>

definition last_n :: "nat \<Rightarrow> 'a list \<Rightarrow> 'a list" where
  "last_n n xs = drop (length xs - n) xs"

definition log_lines :: "string \<Rightarrow> string list" where
  "log_lines s =
     (let ls = split_on LF s
      in map shown_line (butlast ls)
         @ (if last ls = [] then [] else [finish_line (take max_log_line_length (last ls))]))"

lemma split_on_cut: "split_on c s = (case cut c s of (a, b, f) \<Rightarrow> if f then a # split_on c b else [a])"
  by (induction s) (auto split: prod.splits if_splits)

lemma split_on_none: "c \<notin> set s \<Longrightarrow> split_on c s = [s]"
  by (simp add: split_on_cut cut_none)

lemma split_on_not_Nil [simp]: "split_on c s \<noteq> []"
  by (subst split_on_cut) (simp split: prod.split)

lemma log_lines_Nil: "log_lines [] = []"
  by (simp add: log_lines_def)

lemma log_lines_found: "cut LF s = (a, b, True) \<Longrightarrow> log_lines s = shown_line a # log_lines b"
  by (simp add: log_lines_def Let_def split_on_cut [of _ s])

lemma log_lines_last: "LF \<notin> set s \<Longrightarrow> s \<noteq> [] \<Longrightarrow> log_lines s = [finish_line (take max_log_line_length s)]"
  by (simp add: log_lines_def split_on_cut [of _ s] cut_none)

lemma last_n_snoc:
  assumes "0 < n"
  shows "ring_push n (last_n n xs) x = last_n n (xs @ [x])"
proof (cases "n \<le> length xs")
  case True
  then have "length xs - n + 1 = length (xs @ [x]) - n" using assms by simp
  with True assms show ?thesis by (simp add: last_n_def ring_push_def)
qed (simp add: last_n_def ring_push_def)

lemma tail_loop_Nil: "tail_loop eager n [] ring seen = (ring, seen)"
  by (subst tail_loop.simps) (simp add: read_line.simps read_part_def)

text \<open>The last line, where no line feed ends it, has to fit the buffer.\<close>

lemma tail_loop_lines:
  assumes "0 < n" and "length (last (split_on LF s)) < log_buffer"
  shows "tail_loop eager n s (last_n n xs) (length xs) =
    (last_n n (xs @ log_lines s), length (xs @ log_lines s))"
  using assms(2)
proof (induction "length s" arbitrary: s xs rule: less_induct)
  case less
  obtain a b f where c: "cut LF s = (a, b, f)" by (metis prod_cases3)
  show ?case
  proof (cases f)
    case True
    with c have c: "cut LF s = (a, b, True)" by simp
    have r: "read_line eager [] s = Some (shown_line a, b)"
      by (simp add: read_line_found [OF c] shown_line_def)
    have b: "length b < length s" "length (last (split_on LF b)) < log_buffer"
      using read_line_shorter [OF r] less.prems c by (simp_all add: split_on_cut [of _ s])
    from less.hyps [OF b, of "xs @ [shown_line a]"] show ?thesis
      by (subst tail_loop.simps)
        (simp add: r last_n_snoc [OF assms(1)] log_lines_found [OF c])
  next
    case False
    with cut_sound [OF c] have n: "LF \<notin> set s" "split_on LF s = [s]"
      by (auto simp: split_on_none)
    show ?thesis
    proof (cases "s = []")
      case True
      then show ?thesis by (simp add: tail_loop_Nil log_lines_Nil)
    next
      case nonempty: False
      have r: "read_line eager [] s = Some (finish_line (take max_log_line_length s), [])"
        using read_line_last [OF n(1) nonempty] less.prems n(2) by simp
      show ?thesis
        by (subst tail_loop.simps)
          (simp add: r tail_loop_Nil last_n_snoc [OF assms(1)] log_lines_last [OF n(1) nonempty])
    qed
  qed
qed

text \<open>
  C35: the tail of a log. Reading the stream part by part through a bounded buffer into a
  ring gives exactly what the definition says on the whole text: the last \<open>n\<close> lines, at
  least one, each without its line ending and cut to the limit, marked as truncated when
  there were more; and an error, with no lines, when the body breaks off. This holds for
  lines of any length, as long as the log is smaller than the cap and the last line, where
  no line feed ends it, is smaller than the reader's buffer.
\<close>

theorem tail_lines_spec:
  assumes "length (hb_data b) < max_log_bytes"
    and "length (last (split_on LF (hb_data b))) < log_buffer"
  shows "tail_lines b lines =
    (case hb_failure b of
       Some e \<Rightarrow> Inl (Both (Sentinel ErrLogUnreachable) (Wrap ''read log'' (Driver e)))
     | None \<Rightarrow>
         let n = nat (max 1 lines); all = log_lines (hb_data b)
         in Inr \<lparr> lt_lines = last_n n all, lt_truncated = n < length all \<rparr>)"
proof -
  have n: "nat (if lines < 1 then 1 else lines) = nat (max 1 lines)" "0 < nat (max 1 lines)"
    by (auto simp: max_def)
  show ?thesis
    using tail_loop_lines [OF n(2) assms(2), of "hb_eager b" "[]"] assms(1)
    by (simp add: tail_lines_def n(1) Let_def last_n_def split: option.split)
qed

theorem tail_lines_spec_witness:
  "tail_lines \<lparr> hb_data = ''one'' @ [CR, LF] @ ''two'' @ [LF] @ ''three'', hb_failure = None, hb_eager = False \<rparr> 2 =
   Inr \<lparr> lt_lines = [''two'', ''three''], lt_truncated = True \<rparr>"
proof -
  have "finish_line x = x" if "x = ''two'' \<or> x = ''three''" for x
    using that by (auto simp: finish_line_def finish_trim.simps strip_cr_def trim_suffix_def
        has_suffix_def max_log_line_length_def)
  then show ?thesis
    by (subst tail_lines_spec)
      (simp_all add: max_log_bytes_def log_buffer_def log_lines_def last_n_def shown_line_def
        strip_cr_def trim_suffix_def has_suffix_def max_log_line_length_def)
qed

subsection \<open>Bounds\<close>

lemma finish_trim_length: "length (finish_trim line) \<le> length line"
proof (induction line rule: finish_trim.induct)
  case (1 line)
  then show ?case by (subst finish_trim.simps) (auto intro: le_trans)
qed

lemma finish_line_length: "length (finish_line line) \<le> length line"
  unfolding finish_line_def
  by (rule le_trans [OF finish_trim_length]) (simp add: strip_cr_def trim_suffix_def)

lemma read_line_length:
  "length line \<le> max_log_line_length \<Longrightarrow> read_line eager line s = Some (l, rest) \<Longrightarrow> length l \<le> max_log_line_length"
proof (induction eager line s rule: read_line.induct)
  case (1 eager line s)
  obtain part is_prefix r where p: "read_part eager s = Some (part, is_prefix, r)"
    using 1(3) by (subst (asm) read_line.simps) (auto split: option.splits)
  let ?l = "line @ take (max_log_line_length - length line) part"
  have l: "length ?l \<le> max_log_line_length" using 1(2) by simp
  show ?case
  proof (cases is_prefix)
    case True
    then have "read_line eager ?l r = Some (l, rest)"
      using 1(3) p by (subst (asm) read_line.simps) simp
    then show ?thesis using 1(1) [OF p refl refl refl True l] by simp
  next
    case False
    then have "l = finish_line ?l"
      using 1(3) p by (subst (asm) read_line.simps) (simp add: Let_def)
    with le_trans [OF finish_line_length l] show ?thesis by simp
  qed
qed

lemma tail_loop_bounds:
  "0 < n \<Longrightarrow> length ring \<le> n \<Longrightarrow> length ring \<le> seen \<Longrightarrow> list_all (\<lambda>l. length l \<le> max_log_line_length) ring \<Longrightarrow>
   tail_loop eager n s ring seen = (ring', seen') \<Longrightarrow>
   length ring' \<le> n \<and> length ring' \<le> seen' \<and> list_all (\<lambda>l. length l \<le> max_log_line_length) ring'"
proof (induction eager n s ring seen rule: tail_loop.induct)
  case (1 eager n s ring seen)
  show ?case
  proof (cases "read_line eager [] s")
    case None
    then show ?thesis using 1 by (subst (asm) (2) tail_loop.simps) simp
  next
    case (Some x)
    then obtain line rest where r: "read_line eager [] s = Some (line, rest)" by (cases x) auto
    have "length line \<le> max_log_line_length" using read_line_length [OF _ r] by simp
    then have "list_all (\<lambda>l. length l \<le> max_log_line_length) (ring_push n ring line)"
      using 1(5) by (cases ring) (auto simp: ring_push_def)
    moreover have "length (ring_push n ring line) \<le> n" "length (ring_push n ring line) \<le> seen + 1"
      using 1(2-4) by (auto simp: ring_push_def)
    moreover have "tail_loop eager n rest (ring_push n ring line) (seen + 1) = (ring', seen')"
      using 1(6) r by (subst (asm) tail_loop.simps) simp
    ultimately show ?thesis using 1(1) [OF r refl 1(2)] by simp
  qed
qed

text \<open>
  Whatever a forge sends, however long, a log tail holds at most as many lines as were
  asked for (at least one), none of them longer than 4096 bytes, and the call fails only
  when the body broke off, with \<open>ErrLogUnreachable\<close>.
\<close>

lemma log_tail_limits:
  "case tail_lines b lines of
     Inl e \<Rightarrow> hb_failure b \<noteq> None \<and> is_err e ErrLogUnreachable
   | Inr t \<Rightarrow> length (lt_lines t) \<le> nat (max 1 lines) \<and>
       list_all (\<lambda>l. length l \<le> max_log_line_length) (lt_lines t)"
proof -
  have n: "nat (if lines < 1 then 1 else lines) = nat (max 1 lines)" "0 < nat (max 1 lines)"
    by (auto simp: max_def)
  obtain ring seen where t: "tail_loop (hb_eager b \<and> length (hb_data b) \<le> max_log_bytes) (nat (max 1 lines))
      (take max_log_bytes (hb_data b)) [] 0 = (ring, seen)" by fastforce
  have "length ring \<le> nat (max 1 lines) \<and> list_all (\<lambda>l. length l \<le> max_log_line_length) ring"
    using tail_loop_bounds [OF n(2) _ _ _ t] by simp
  then show ?thesis
    by (auto simp: tail_lines_def n(1) Let_def t split: option.split if_splits)
qed

subsection \<open>Where the documentation promises more\<close>

text \<open>
  A log longer than the cap is not marked as truncated for it: this one has a third line
  after the cap, and the result says that its two lines are all there are.
\<close>

definition long_log :: string where
  "long_log = replicate (max_log_bytes - 2) CHR ''a'' @ [LF] @ ''b'' @ [LF] @ ''c''"

lemma log_cap_not_marked:
  "\<exists>ls. tail_lines \<lparr> hb_data = long_log, hb_failure = None, hb_eager = False \<rparr> 200 =
     Inr \<lparr> lt_lines = ls, lt_truncated = False \<rparr> \<and> length ls = 2 \<and> max_log_bytes < length long_log"
proof -
  obtain k where k: "max_log_bytes = k + 2"
    by (rule that [of 67108862]) (simp add: max_log_bytes_def)
  have len: "length long_log = max_log_bytes + 2"
    by (simp add: long_log_def k)
  have t: "take max_log_bytes long_log = replicate (max_log_bytes - 2) CHR ''a'' @ LF # ''b''"
    by (simp add: long_log_def k)
  have c: "cut LF (replicate (max_log_bytes - 2) CHR ''a'' @ LF # ''b'')
      = (replicate (max_log_bytes - 2) CHR ''a'', ''b'', True)"
    by (rule cut_found) simp
  have s: "split_on LF (replicate (max_log_bytes - 2) CHR ''a'' @ LF # ''b'')
      = [replicate (max_log_bytes - 2) CHR ''a'', ''b'']"
    by (subst split_on_cut) (simp only: c, simp)
  have "length (last (split_on LF (take max_log_bytes long_log))) < log_buffer"
    by (simp add: t s log_buffer_def)
  from tail_loop_lines [OF _ this, of 200 False "[]"]
  have "tail_loop False 200 (take max_log_bytes long_log) [] 0
      = (last_n 200 (log_lines (take max_log_bytes long_log)), length (log_lines (take max_log_bytes long_log)))"
    by (simp add: last_n_def)
  moreover have "length (log_lines (take max_log_bytes long_log)) = 2"
    by (simp add: t log_lines_def s)
  ultimately show ?thesis
    using len by (simp add: tail_lines_def last_n_def)
qed

text \<open>
  A last line that fills the reader's buffer exactly, with no line feed after it, is dropped
  when the end of the body comes one call after the bytes, and kept when it comes with them.
\<close>

lemma log_last_line_lost:
  assumes "LF \<notin> set line" and "length line = log_buffer" and "last line \<noteq> CR"
  shows "log_lines line = [finish_line (take max_log_line_length line)]"
    and "tail_lines \<lparr> hb_data = line, hb_failure = None, hb_eager = False \<rparr> n =
      Inr \<lparr> lt_lines = [], lt_truncated = False \<rparr>"
proof -
  have "line \<noteq> []" using assms(2) by (auto simp: log_buffer_def)
  with assms(1) show "log_lines line = [finish_line (take max_log_line_length line)]"
    by (rule log_lines_last)
  have "read_line False [] line = None"
    using assms \<open>line \<noteq> []\<close>
    by (subst read_line.simps, subst read_line.simps) (simp add: read_part_def cut_none Let_def)
  then have "tail_loop False k line [] 0 = ([], 0)" for k
    by (subst tail_loop.simps) simp
  moreover have "length line \<le> max_log_bytes" using assms(2) by (simp add: log_buffer_def max_log_bytes_def)
  ultimately show "tail_lines \<lparr> hb_data = line, hb_failure = None, hb_eager = False \<rparr> n =
      Inr \<lparr> lt_lines = [], lt_truncated = False \<rparr>"
    by (simp add: tail_lines_def)
qed

text \<open>
  Cutting a long line gives up one byte at most, so a rune of four bytes cut after its
  second leaves the first: what is returned need not end at a rune boundary.
\<close>

lemma utf8_valid_ascii: "byte c < 128 \<Longrightarrow> utf8_valid (replicate n c @ s) = utf8_valid s"
proof (induction n)
  case (Suc n)
  have "rune_width (c # t) = 1" for t
    using Suc.prems by (auto simp: rune_width_def Let_def split: list.splits)
  with Suc show ?case by (subst utf8_valid.simps) simp
qed simp

lemma cut_splits_rune:
  assumes "n + 2 = max_log_line_length"
  shows "\<not> utf8_valid (finish_line (replicate n CHR ''a'' @ [char_of (0xF0 :: nat), char_of (0x9F :: nat)]))"
proof -
  let ?a = "replicate n CHR ''a''"
  have "\<not> utf8_valid [char_of (0xF0 :: nat)]" "\<not> utf8_valid [char_of (0xF0 :: nat), char_of (0x9F :: nat)]"
    by (subst utf8_valid.simps, simp add: rune_width_def)+
  then have v: "\<not> utf8_valid (?a @ [char_of (0xF0 :: nat)])"
    "\<not> utf8_valid (?a @ [char_of (0xF0 :: nat), char_of (0x9F :: nat)])"
    by (simp_all add: utf8_valid_ascii)
  have s: "strip_cr (?a @ [char_of (0xF0 :: nat), char_of (0x9F :: nat)]) = ?a @ [char_of (0xF0 :: nat), char_of (0x9F :: nat)]"
    by (rule strip_cr_last, simp) code_simp
  have b: "butlast (?a @ [char_of (0xF0 :: nat), char_of (0x9F :: nat)]) = ?a @ [char_of (0xF0 :: nat)]"
    by (simp add: butlast_append)
  have "finish_trim (?a @ [char_of (0xF0 :: nat)]) = ?a @ [char_of (0xF0 :: nat)]"
    using assms by (subst finish_trim.simps) simp
  then have "finish_line (?a @ [char_of (0xF0 :: nat), char_of (0x9F :: nat)]) = ?a @ [char_of (0xF0 :: nat)]"
    unfolding finish_line_def s using assms
    by (subst finish_trim.simps) (simp add: v b)
  with v show ?thesis by simp
qed

text \<open>
  C36: three places where a log tail is less than the comments promise. A log longer than
  the cap is not marked as truncated for it; a last line that fills the buffer exactly and
  has no line feed is dropped or kept depending on when the end of the body is reported; and
  a line cut at the limit need not end at a rune boundary.
\<close>

theorem log_tail_gaps:
  "(\<exists>ls. tail_lines \<lparr> hb_data = long_log, hb_failure = None, hb_eager = False \<rparr> 200 =
      Inr \<lparr> lt_lines = ls, lt_truncated = False \<rparr> \<and> length ls = 2 \<and> max_log_bytes < length long_log) \<and>
   (let line = replicate log_buffer CHR ''a'' in
      length (log_lines line) = 1 \<and>
      tail_lines \<lparr> hb_data = line, hb_failure = None, hb_eager = False \<rparr> 200 = Inr \<lparr> lt_lines = [], lt_truncated = False \<rparr>) \<and>
   \<not> utf8_valid (finish_line (replicate (max_log_line_length - 2) CHR ''a'' @ [char_of (0xF0 :: nat), char_of (0x9F :: nat)]))"
proof -
  have b: "log_buffer \<noteq> 0" by (simp add: log_buffer_def)
  let ?l = "replicate log_buffer CHR ''a''"
  have l: "LF \<notin> set ?l" "length ?l = log_buffer" "last ?l \<noteq> CR" using b by simp_all
  have "max_log_line_length - 2 + 2 = max_log_line_length" by (simp add: max_log_line_length_def)
  from cut_splits_rune [OF this] log_cap_not_marked log_last_line_lost [OF l] show ?thesis
    unfolding Let_def by simp
qed

end
