(* ===== verification/ForgeClients.thy ===== *)
theory ForgeClients
  imports JobLog
begin

text \<open>
  The two forge clients (\<open>internal/ingestion/github\<close>, \<open>internal/ingestion/forgejo\<close>):
  building requests, reading answers, paging, conditional requests, rate limits, and the
  translation of a forge's runs, jobs and steps into snapshots. HTTP itself, the SDKs
  (go-github, the Gitea SDK) and the JSON decoders are parameters: what they answer may
  depend on when they are asked.
\<close>

subsection \<open>Requests and answers\<close>

record http_request =
  hq_method :: string
  hq_url :: string
  hq_headers :: "(string \<times> string) list"

record http_response =
  hr_status :: int
  hr_header :: "string \<Rightarrow> string"
  hr_body :: http_body

datatype http_outcome = BadRequest goerr | NoAnswer goerr | Answer http_response

definition split_identifier :: "string \<Rightarrow> (string \<times> string) res" where
  "split_identifier identifier =
     (case split_n2 (CHR ''/'') identifier of
        [owner, name] \<Rightarrow>
          if owner = [] \<or> name = [] then Inl (Detail (Sentinel ErrInvalidIdentifier) (quoted identifier))
          else Inr (owner, name)
      | _ \<Rightarrow> Inl (Detail (Sentinel ErrInvalidIdentifier) (quoted identifier)))"

text \<open>
  The loop over the pages of an accessible-repositories listing. It asks for page after
  page until the forge names no next one, so it need not end: \<open>None\<close> is not returning.
\<close>

partial_function (option) list_pages ::
  "string \<Rightarrow> (int \<Rightarrow> nat \<Rightarrow> ('r list \<times> int) res) \<Rightarrow> ('r list \<Rightarrow> string list res) \<Rightarrow> int \<Rightarrow> string list \<Rightarrow> world
    \<Rightarrow> (string list res \<times> world) option" where
  "list_pages msg api keep page found w =
     (case api page (w_pos w) of
        Inl e \<Rightarrow> Some (Inl (wrap_error msg e), step_world w)
      | Inr (repos, next_page) \<Rightarrow>
          (case keep repos of
             Inl e \<Rightarrow> Some (Inl e, step_world w)
           | Inr names \<Rightarrow>
               if next_page = 0 then Some (Inr (found @ names), step_world w)
               else list_pages msg api keep next_page (found @ names) (step_world w)))"

declare list_pages.simps [code]

subsection \<open>GitHub\<close>

record github_repo =
  gr_archived :: bool
  gr_fork :: bool
  gr_mirror_url :: string
  gr_full_name :: string

record github_hook =
  gh_url :: string
  gh_content_type :: string
  gh_secret :: string
  gh_events :: "string list"
  gh_active :: bool

record github_job =
  gj_id :: int
  gj_name :: string
  gj_status :: string
  gj_conclusion :: string
  gj_created :: string
  gj_started :: string
  gj_completed :: string
  gj_url :: string
  gj_steps :: "job_step_event list"

text \<open>The client with everything it calls; \<open>gc_base\<close> is the API it was given, if any.\<close>

record github_client =
  gc_base :: "string option"
  gc_http :: "http_request \<Rightarrow> nat \<Rightarrow> http_outcome"
  gc_runs_json :: "http_body \<Rightarrow> workflow_run_event list res"
  gc_jobs_json :: "http_body \<Rightarrow> github_job list res"
  gc_create_hook :: "string \<Rightarrow> string \<Rightarrow> string \<Rightarrow> github_hook \<Rightarrow> nat \<Rightarrow> unit res"
  gc_list_repos :: "string \<Rightarrow> int \<Rightarrow> nat \<Rightarrow> (github_repo list \<times> int) res"
  gc_get_repo :: "string \<Rightarrow> string \<Rightarrow> string \<Rightarrow> nat \<Rightarrow> github_repo res"

definition default_base_url :: string where
  "default_base_url = ''https://api.github.com/''"

definition base_url_string :: "github_client \<Rightarrow> string" where
  "base_url_string c = (case gc_base c of Some u \<Rightarrow> u | None \<Rightarrow> default_base_url)"

definition github_create_webhook :: "github_client \<Rightarrow> webhook_request \<Rightarrow> unit io" where
  "github_create_webhook c req =
     bindE (liftE (split_identifier (wq_identifier req))) (\<lambda>(owner, name).
     bindE (callE (gc_create_hook c (wq_token req) owner name
       \<lparr> gh_url = wq_callback req, gh_content_type = ''json'', gh_secret = wq_secret req,
         gh_events = [''workflow_run'', ''workflow_job''], gh_active = True \<rparr>)) (\<lambda>res.
     wrapE ''create github webhook'' (liftE res)))"

definition github_names :: "github_repo list \<Rightarrow> string list res" where
  "github_names repos =
     Inr (map gr_full_name (filter (\<lambda>r. \<not> (gr_archived r \<or> gr_fork r \<or> gr_mirror_url r \<noteq> [])) repos))"

definition github_list_accessible :: "github_client \<Rightarrow> string \<Rightarrow> world \<Rightarrow> (string list res \<times> world) option" where
  "github_list_accessible c token =
     list_pages ''list accessible github repos'' (gc_list_repos c token) github_names 0 []"

definition github_get_repo :: "github_client \<Rightarrow> get_repo_request \<Rightarrow> repo_metadata io" where
  "github_get_repo c req =
     bindE (liftE (split_identifier (gq_identifier req))) (\<lambda>(owner, name).
     bindE (callE (gc_get_repo c (gq_token req) owner name)) (\<lambda>res.
     bindE (wrapE ''get github repo'' (liftE res)) (\<lambda>r.
       retE \<lparr> rm_archived = gr_archived r, rm_fork = gr_fork r, rm_mirror = (gr_mirror_url r \<noteq> []) \<rparr>)))"

text \<open>The rate limit of an answer: recorded when every header is there and is a number.\<close>

definition record_rate_limit :: "string \<Rightarrow> (string \<Rightarrow> string) \<Rightarrow> unit io" where
  "record_rate_limit token header =
     (case (atoi (header ''X-RateLimit-Limit''), atoi (header ''X-RateLimit-Remaining''),
            atoi (header ''X-RateLimit-Used''), atoi (header ''X-RateLimit-Reset'')) of
        (Some limit, Some remaining, Some used, Some reset) \<Rightarrow>
          set_limitE token \<lparr> rt_limit = limit, rt_remaining = remaining, rt_used = used,
            rt_resource = header ''X-RateLimit-Resource'', rt_reset = reset * seconds \<rparr>
      | _ \<Rightarrow> retE ())"

definition rate_limit_for :: "string \<Rightarrow> rate_limit option io" where
  "rate_limit_for token w = (Inr (map_of (w_limits w) token), w)"

text \<open>
  \<open>conditionalGet\<close>: the tag of the answer, whether it was \<open>304 Not Modified\<close>, and what was
  decoded, nothing but in a \<open>200\<close>.
\<close>

definition conditional_get ::
  "github_client \<Rightarrow> string \<Rightarrow> string \<Rightarrow> string \<Rightarrow> (http_body \<Rightarrow> 'a list res) \<Rightarrow> (string \<times> bool \<times> 'a list) io" where
  "conditional_get c url token if_none_match decode =
     bindE (callE (gc_http c
       \<lparr> hq_method = ''GET'', hq_url = url,
         hq_headers = [(''Authorization'', ''Bearer '' @ token), (''Accept'', ''application/vnd.github+json'')]
           @ (if if_none_match \<noteq> [] then [(''If-None-Match'', if_none_match)] else []) \<rparr>)) (\<lambda>out.
     case out of
       BadRequest e \<Rightarrow> throwE (wrap_error ''build request'' e)
     | NoAnswer e \<Rightarrow> throwE (wrap_error (''request '' @ url) e)
     | Answer r \<Rightarrow>
         thenE (record_rate_limit token (hr_header r))
           (if hr_status r = 304 then retE ([], True, [])
            else if hr_status r \<noteq> 200
            then throwE (Wrap url (Detail (Sentinel ErrUnexpectedStatus) (itoa (hr_status r))))
            else bindE (wrapE (''decode response from '' @ url) (liftE (decode (hr_body r)))) (\<lambda>x.
              retE (hr_header r ''ETag'', False, x))))"

definition parse_github_time :: "string \<Rightarrow> gotime option" where
  "parse_github_time s = (if s = [] then None else parse_rfc3339 s)"

definition run_is_up_to_date :: "run_state \<Rightarrow> string \<Rightarrow> string \<Rightarrow> bool" where
  "run_is_up_to_date known status conclusion \<longleftrightarrow>
     sta_status known = ''completed'' \<and> status = ''completed'' \<and> sta_conclusion known = conclusion"

definition github_step :: "job_step_event \<Rightarrow> step_snapshot" where
  "github_step s =
     \<lparr> ssn_number = je_number s, ssn_name = je_name s, ssn_status = je_status s, ssn_conclusion = je_conclusion s,
       ssn_started = parse_github_time (je_started s), ssn_completed = parse_github_time (je_completed s) \<rparr>"

definition github_job_snapshot :: "github_job \<Rightarrow> job_snapshot" where
  "github_job_snapshot j =
     \<lparr> jsn_forge_job = itoa (gj_id j), jsn_name = gj_name j, jsn_status = gj_status j,
       jsn_conclusion = gj_conclusion j, jsn_queued = parse_github_time (gj_created j),
       jsn_started = parse_github_time (gj_started j), jsn_completed = parse_github_time (gj_completed j),
       jsn_url = gj_url j, jsn_steps = map github_step (gj_steps j) \<rparr>"

definition actions_url :: "github_client \<Rightarrow> string \<Rightarrow> string \<Rightarrow> string" where
  "actions_url c owner name = base_url_string c @ ''repos/'' @ owner @ ''/'' @ name @ ''/actions/runs''"

definition list_workflow_jobs :: "github_client \<Rightarrow> string \<Rightarrow> string \<Rightarrow> int \<Rightarrow> string \<Rightarrow> job_snapshot list io" where
  "list_workflow_jobs c owner name run_id token =
     bindE (wrapE (''list workflow jobs for run '' @ itoa run_id)
       (conditional_get c (actions_url c owner name @ ''/'' @ itoa run_id @ ''/jobs'') token [] (gc_jobs_json c)))
     (\<lambda>(_, _, jobs). retE (map github_job_snapshot jobs))"

definition no_run_state :: run_state where
  "no_run_state = \<lparr> sta_status = [], sta_conclusion = [] \<rparr>"

definition known_run :: "(string \<times> run_state) list \<Rightarrow> string \<Rightarrow> run_state" where
  "known_run known run_id = (case map_of known run_id of Some s \<Rightarrow> s | None \<Rightarrow> no_run_state)"

definition run_snapshot_of :: "workflow_run_event \<Rightarrow> job_snapshot list \<Rightarrow> run_snapshot" where
  "run_snapshot_of r jobs =
     \<lparr> rsn_forge_run = itoa (we_id r), rsn_pipeline = we_name r, rsn_status = we_status r,
       rsn_conclusion = we_conclusion r, rsn_started = parse_github_time (we_started r),
       rsn_completed = (if we_status r = ''completed'' then parse_github_time (we_updated r) else None),
       rsn_url = we_url r, rsn_branch = we_branch r, rsn_sha = we_sha r,
       rsn_message = first_line (we_message r), rsn_actor = we_actor r, rsn_jobs = jobs \<rparr>"

definition snapshot_run ::
  "github_client \<Rightarrow> string \<Rightarrow> string \<Rightarrow> string \<Rightarrow> (string \<times> run_state) list \<Rightarrow> workflow_run_event \<Rightarrow> run_snapshot io" where
  "snapshot_run c owner name token known r =
     bindE (if run_is_up_to_date (known_run known (itoa (we_id r))) (we_status r) (we_conclusion r) then retE []
            else list_workflow_jobs c owner name (we_id r) token) (\<lambda>jobs.
     retE (run_snapshot_of r jobs))"

definition github_list_runs :: "github_client \<Rightarrow> list_runs_request \<Rightarrow> list_runs_result io" where
  "github_list_runs c req =
     bindE (liftE (split_identifier (lq_identifier req))) (\<lambda>(owner, name).
     bindE (wrapE ''list workflow runs'' (conditional_get c (actions_url c owner name @ ''?per_page=20'')
              (lq_token req) (lq_etag req) (gc_runs_json c))) (\<lambda>(etag, not_modified, listed).
     if not_modified then retE \<lparr> lr_not_modified = True, lr_etag = [], lr_runs = [] \<rparr>
     else bindE (mapE (snapshot_run c owner name (lq_token req) (lq_known req)) listed) (\<lambda>runs.
       retE \<lparr> lr_not_modified = False, lr_etag = etag, lr_runs = runs \<rparr>)))"

definition post_run_action :: "github_client \<Rightarrow> action_request \<Rightarrow> string \<Rightarrow> unit io" where
  "post_run_action c req path =
     bindE (liftE (split_identifier (aq_identifier req))) (\<lambda>(owner, name).
     bindE (callE (gc_http c
       \<lparr> hq_method = ''POST'', hq_url = actions_url c owner name @ ''/'' @ aq_forge_run req @ ''/'' @ path,
         hq_headers = [(''Authorization'', ''Bearer '' @ aq_token req), (''Accept'', ''application/vnd.github+json'')] \<rparr>)) (\<lambda>out.
     case out of
       BadRequest e \<Rightarrow> throwE (wrap_error ''build request'' e)
     | NoAnswer e \<Rightarrow> throwE (Both (Sentinel ErrActionUnreachable) e)
     | Answer r \<Rightarrow>
         thenE (record_rate_limit (aq_token req) (hr_header r))
           (if hr_status r \<in> {201, 202, 204} then retE ()
            else if hr_status r \<in> {401, 403} then throwE (Sentinel ErrActionForbidden)
            else if hr_status r = 404 then throwE (Sentinel ErrActionForbidden)
            else if hr_status r = 409 then throwE (Sentinel ErrNotActionable)
            else throwE (Detail (Sentinel ErrActionUnreachable) (''status '' @ itoa (hr_status r))))))"

definition github_rerun :: "github_client \<Rightarrow> action_request \<Rightarrow> unit io" where
  "github_rerun c req = post_run_action c req (if aq_failed_only req then ''rerun-failed-jobs'' else ''rerun'')"

definition github_cancel :: "github_client \<Rightarrow> action_request \<Rightarrow> unit io" where
  "github_cancel c req = post_run_action c req ''cancel''"

definition github_job_log :: "github_client \<Rightarrow> log_request \<Rightarrow> log_tail io" where
  "github_job_log c req =
     bindE (liftE (split_identifier (gl_identifier req))) (\<lambda>(owner, name).
     bindE (callE (gc_http c
       \<lparr> hq_method = ''GET'',
         hq_url = trim_right_char (CHR ''/'') (base_url_string c) @ ''/repos/'' @ owner @ ''/'' @ name
           @ ''/actions/jobs/'' @ gl_forge_job req @ ''/logs'',
         hq_headers = [(''Authorization'', ''Bearer '' @ gl_token req), (''Accept'', ''application/vnd.github+json'')] \<rparr>)) (\<lambda>out.
     case out of
       BadRequest e \<Rightarrow> throwE (wrap_error ''build request'' e)
     | NoAnswer e \<Rightarrow> throwE (Both (Sentinel ErrLogUnreachable) e)
     | Answer r \<Rightarrow>
         thenE (record_rate_limit (gl_token req) (hr_header r))
           (if hr_status r = 200 then liftE (tail_lines (hr_body r) (gl_lines req))
            else if hr_status r \<in> {404, 410} then throwE (Sentinel ErrLogExpired)
            else if hr_status r \<in> {401, 403} then throwE (Sentinel ErrLogForbidden)
            else throwE (Detail (Sentinel ErrLogUnreachable) (''status '' @ itoa (hr_status r))))))"

definition github_actor :: "github_client \<Rightarrow> run_actor" where
  "github_actor c = \<lparr> ra_rerun = github_rerun c, ra_cancel = github_cancel c \<rparr>"

subsection \<open>Forgejo\<close>

text \<open>The SDK hands out pointers: an entry of a list can be nil.\<close>

record forgejo_repo =
  fj_archived :: bool
  fj_fork :: bool
  fj_mirror :: bool
  fj_full_name :: string

record forgejo_hook =
  fh_url :: string
  fh_content_type :: string
  fh_secret :: string
  fh_events :: "string list"
  fh_active :: bool

record forgejo_run =
  fr_id :: int
  fr_path :: string
  fr_status :: string
  fr_conclusion :: string
  fr_started :: gotime
  fr_completed :: gotime
  fr_url :: string
  fr_branch :: string
  fr_sha :: string
  fr_title :: string
  fr_trigger_actor :: "string option"
  fr_actor :: "string option"

record forgejo_step =
  fs_number :: int
  fs_name :: string
  fs_status :: string
  fs_conclusion :: string
  fs_started :: gotime
  fs_completed :: gotime

record forgejo_job =
  fb_id :: int
  fb_name :: string
  fb_status :: string
  fb_conclusion :: string
  fb_created :: gotime
  fb_started :: gotime
  fb_completed :: gotime
  fb_url :: string
  fb_steps :: "forgejo_step option list"

text \<open>A failed listing of runs tells the status of its answer, if there was one.\<close>

record forgejo_client =
  fo_new :: "string \<Rightarrow> string \<Rightarrow> unit res"
  fo_create_hook :: "string \<Rightarrow> string \<Rightarrow> string \<Rightarrow> string \<Rightarrow> forgejo_hook \<Rightarrow> nat \<Rightarrow> unit res"
  fo_list_repos :: "string \<Rightarrow> string \<Rightarrow> int \<Rightarrow> nat \<Rightarrow> (forgejo_repo option list \<times> int) res"
  fo_get_repo :: "string \<Rightarrow> string \<Rightarrow> string \<Rightarrow> string \<Rightarrow> nat \<Rightarrow> forgejo_repo res"
  fo_list_runs :: "string \<Rightarrow> string \<Rightarrow> string \<Rightarrow> string \<Rightarrow> nat \<Rightarrow> int option \<times> goerr + forgejo_run option list"
  fo_http :: "http_request \<Rightarrow> nat \<Rightarrow> http_outcome"
  fo_bare_json :: "string \<Rightarrow> forgejo_job option list res"
  fo_wrapped_json :: "string \<Rightarrow> forgejo_job option list res"

definition forgejo_api :: "forgejo_client \<Rightarrow> string \<Rightarrow> string \<Rightarrow> unit io" where
  "forgejo_api c inst token = wrapE ''create forgejo client'' (liftE (fo_new c inst token))"

definition forgejo_create_webhook :: "forgejo_client \<Rightarrow> webhook_request \<Rightarrow> unit io" where
  "forgejo_create_webhook c req =
     bindE (liftE (split_identifier (wq_identifier req))) (\<lambda>(owner, name).
     thenE (forgejo_api c (wq_instance req) (wq_token req))
     (bindE (callE (fo_create_hook c (wq_instance req) (wq_token req) owner name
       \<lparr> fh_url = wq_callback req, fh_content_type = ''json'', fh_secret = wq_secret req,
         fh_events = [''push''], fh_active = True \<rparr>)) (\<lambda>res.
      wrapE ''create forgejo webhook'' (liftE res))))"

text \<open>The entries are read without a check for nil.\<close>

definition forgejo_names :: "forgejo_repo option list \<Rightarrow> string list res" where
  "forgejo_names repos =
     (case all_some repos of
        None \<Rightarrow> Inl GoPanic
      | Some rs \<Rightarrow> Inr (map fj_full_name (filter (\<lambda>r. \<not> (fj_archived r \<or> fj_fork r \<or> fj_mirror r)) rs)))"

definition forgejo_list_accessible ::
  "forgejo_client \<Rightarrow> string \<Rightarrow> string \<Rightarrow> world \<Rightarrow> (string list res \<times> world) option" where
  "forgejo_list_accessible c inst token w =
     (case fo_new c inst token of
        Inl e \<Rightarrow> Some (Inl (wrap_error ''create forgejo client'' e), w)
      | Inr _ \<Rightarrow>
          list_pages ''list accessible forgejo repos'' (fo_list_repos c inst token) forgejo_names 0 [] w)"

definition forgejo_get_repo :: "forgejo_client \<Rightarrow> get_repo_request \<Rightarrow> repo_metadata io" where
  "forgejo_get_repo c req =
     bindE (liftE (split_identifier (gq_identifier req))) (\<lambda>(owner, name).
     thenE (forgejo_api c (gq_instance req) (gq_token req))
     (bindE (callE (fo_get_repo c (gq_instance req) (gq_token req) owner name)) (\<lambda>res.
      bindE (wrapE ''get forgejo repo'' (liftE res)) (\<lambda>r.
        retE \<lparr> rm_archived = fj_archived r, rm_fork = fj_fork r, rm_mirror = fj_mirror r \<rparr>))))"

text \<open>\<open>path.Base\<close>.\<close>

definition path_base :: "string \<Rightarrow> string" where
  "path_base p =
     (if p = [] then ''.''
      else let s = trim_right_char (CHR ''/'') p; b = rev (takeWhile (\<lambda>x. x \<noteq> CHR ''/'') (rev s))
           in if b = [] then ''/'' else b)"

definition workflow_name_from_path :: "string \<Rightarrow> string" where
  "workflow_name_from_path p = trim_suffix (trim_suffix (path_base p) ''.yaml'') ''.yml''"

text \<open>The zero \<open>time.Time\<close> is the first of January of the year 1.\<close>

definition zero_time :: gotime where "zero_time = -62135596800 * seconds"

definition non_zero_time :: "gotime \<Rightarrow> gotime option" where
  "non_zero_time t = (if t = zero_time then None else Some t)"

definition actor_name :: "forgejo_run \<Rightarrow> string" where
  "actor_name r =
     (if text_of (fr_trigger_actor r) \<noteq> [] then text_of (fr_trigger_actor r) else text_of (fr_actor r))"

definition forgejo_step_snapshot :: "forgejo_step \<Rightarrow> step_snapshot" where
  "forgejo_step_snapshot s =
     \<lparr> ssn_number = fs_number s, ssn_name = fs_name s, ssn_status = fs_status s, ssn_conclusion = fs_conclusion s,
       ssn_started = non_zero_time (fs_started s), ssn_completed = non_zero_time (fs_completed s) \<rparr>"

definition convert_workflow_job :: "forgejo_job \<Rightarrow> job_snapshot" where
  "convert_workflow_job j =
     \<lparr> jsn_forge_job = itoa (fb_id j), jsn_name = fb_name j, jsn_status = fb_status j,
       jsn_conclusion = fb_conclusion j, jsn_queued = non_zero_time (fb_created j),
       jsn_started = non_zero_time (fb_started j), jsn_completed = non_zero_time (fb_completed j),
       jsn_url = fb_url j, jsn_steps = map forgejo_step_snapshot (List.map_filter id (fb_steps j)) \<rparr>"

definition parse_workflow_jobs :: "forgejo_client \<Rightarrow> string \<Rightarrow> forgejo_job option list res" where
  "parse_workflow_jobs c body =
     (case fo_bare_json c body of
        Inr jobs \<Rightarrow> Inr jobs
      | Inl _ \<Rightarrow> (case fo_wrapped_json c body of
          Inl e \<Rightarrow> Inl (wrap_error ''unmarshal forgejo workflow jobs'' e)
        | Inr jobs \<Rightarrow> Inr jobs))"

definition fetch_workflow_jobs ::
  "forgejo_client \<Rightarrow> string \<Rightarrow> string \<Rightarrow> string \<Rightarrow> string \<Rightarrow> int \<Rightarrow> forgejo_job option list io" where
  "fetch_workflow_jobs c inst token owner name run_id =
     bindE (callE (fo_http c
       \<lparr> hq_method = ''GET'',
         hq_url = trim_right_char (CHR ''/'') inst @ ''/api/v1/repos/'' @ owner @ ''/'' @ name
           @ ''/actions/runs/'' @ itoa run_id @ ''/jobs'',
         hq_headers = [(''Authorization'', ''token '' @ token)] \<rparr>)) (\<lambda>out.
     case out of
       BadRequest e \<Rightarrow> throwE (wrap_error (''build forgejo jobs request for run '' @ itoa run_id) e)
     | NoAnswer e \<Rightarrow> throwE (wrap_error (''list forgejo workflow jobs for run '' @ itoa run_id) e)
     | Answer r \<Rightarrow>
         if hr_status r = 404 then retE []
         else (case hb_failure (hr_body r) of
           Some e \<Rightarrow> throwE (Wrap (''read forgejo workflow jobs response for run '' @ itoa run_id) (Driver e))
         | None \<Rightarrow>
             if hr_status r div 100 \<noteq> 2
             then throwE (Wrap (''list forgejo workflow jobs for run '' @ itoa run_id)
               (Detail (Sentinel ErrUnexpectedStatus) (itoa (hr_status r) @ '': '' @ hb_data (hr_body r))))
             else wrapE (''parse forgejo workflow jobs response for run '' @ itoa run_id)
               (liftE (parse_workflow_jobs c (hb_data (hr_body r))))))"

definition forgejo_list_jobs ::
  "forgejo_client \<Rightarrow> string \<Rightarrow> string \<Rightarrow> string \<Rightarrow> string \<Rightarrow> int \<Rightarrow> job_snapshot list io" where
  "forgejo_list_jobs c inst token owner name run_id =
     bindE (fetch_workflow_jobs c inst token owner name run_id) (\<lambda>jobs.
       retE (map convert_workflow_job (List.map_filter id jobs)))"

definition forgejo_snapshot ::
  "forgejo_client \<Rightarrow> string \<Rightarrow> string \<Rightarrow> string \<Rightarrow> string \<Rightarrow> forgejo_run \<Rightarrow> run_snapshot io" where
  "forgejo_snapshot c inst token owner name r =
     bindE (forgejo_list_jobs c inst token owner name (fr_id r)) (\<lambda>jobs.
     retE \<lparr> rsn_forge_run = itoa (fr_id r), rsn_pipeline = workflow_name_from_path (fr_path r),
       rsn_status = fr_status r, rsn_conclusion = fr_conclusion r, rsn_started = non_zero_time (fr_started r),
       rsn_completed = non_zero_time (fr_completed r), rsn_url = fr_url r, rsn_branch = fr_branch r,
       rsn_sha = fr_sha r, rsn_message = first_line (fr_title r), rsn_actor = actor_name r, rsn_jobs = jobs \<rparr>)"

definition forgejo_list_runs :: "forgejo_client \<Rightarrow> list_runs_request \<Rightarrow> list_runs_result io" where
  "forgejo_list_runs c req =
     bindE (liftE (split_identifier (lq_identifier req))) (\<lambda>(owner, name).
     thenE (forgejo_api c (lq_instance req) (lq_token req))
     (bindE (callE (fo_list_runs c (lq_instance req) (lq_token req) owner name)) (\<lambda>res.
      case res of
        Inl (status, e) \<Rightarrow>
          if status = Some 404 then retE \<lparr> lr_not_modified = False, lr_etag = [], lr_runs = [] \<rparr>
          else throwE (wrap_error ''list forgejo workflow runs'' e)
      | Inr listed \<Rightarrow>
          bindE (mapE (forgejo_snapshot c (lq_instance req) (lq_token req) owner name) (List.map_filter id listed)) (\<lambda>runs.
          retE \<lparr> lr_not_modified = False, lr_etag = [], lr_runs = runs \<rparr>))))"

definition forgejo_job_log :: "log_request \<Rightarrow> log_tail io" where
  "forgejo_job_log req = throwE (Sentinel ErrLogUnsupported)"

subsection \<open>The clients of the server\<close>

text \<open>A listing that does not end by itself ends with the request it serves.\<close>

definition until_done :: "(world \<Rightarrow> ('a res \<times> world) option) \<Rightarrow> 'a io" where
  "until_done m w =
     (case m w of Some r \<Rightarrow> r | None \<Rightarrow> (Inl (Driver ''context canceled''), w))"

definition github_forge :: "github_client \<Rightarrow> forge_client" where
  "github_forge c =
     \<lparr> fc_create_webhook = github_create_webhook c, fc_list_runs = github_list_runs c,
       fc_list_repos = \<lambda>_ token. until_done (github_list_accessible c token),
       fc_get_repo = github_get_repo c \<rparr>"

definition forgejo_forge :: "forgejo_client \<Rightarrow> forge_client" where
  "forgejo_forge c =
     \<lparr> fc_create_webhook = forgejo_create_webhook c, fc_list_runs = forgejo_list_runs c,
       fc_list_repos = \<lambda>inst token. until_done (forgejo_list_accessible c inst token),
       fc_get_repo = forgejo_get_repo c \<rparr>"

definition forge_clients :: "github_client \<Rightarrow> forgejo_client \<Rightarrow> clients" where
  "forge_clients g f = [''github'' \<mapsto> github_forge g, ''forgejo'' \<mapsto> forgejo_forge f]"

definition run_actors :: "github_client \<Rightarrow> string \<Rightarrow> run_actor option" where
  "run_actors g = [''github'' \<mapsto> github_actor g]"

definition log_readers :: "github_client \<Rightarrow> string \<Rightarrow> (log_request \<Rightarrow> log_tail io) option" where
  "log_readers g = [''github'' \<mapsto> github_job_log g, ''forgejo'' \<mapsto> forgejo_job_log]"

end
