(* ===== verification/ForgeFacts.thy ===== *)
theory ForgeFacts
  imports ForgeClients
begin

text \<open>
  What the forge clients guarantee: when a listing ends and what it returns, what a
  conditional request costs and reports, what reaches a forge, and that no client operation
  touches the database.
\<close>

subsection \<open>Paging\<close>

text \<open>The listing ends within \<open>n\<close> calls: an error, a refused entry, or no next page.\<close>

fun ends_within :: "(int \<Rightarrow> nat \<Rightarrow> ('r list \<times> int) res) \<Rightarrow> ('r list \<Rightarrow> string list res) \<Rightarrow> nat \<Rightarrow> int \<Rightarrow> nat \<Rightarrow> bool" where
  "ends_within api keep 0 page pos = False"
| "ends_within api keep (Suc n) page pos =
     (case api page pos of
        Inl _ \<Rightarrow> True
      | Inr (rs, next_page) \<Rightarrow>
          (case keep rs of Inl _ \<Rightarrow> True
           | Inr _ \<Rightarrow> next_page = 0 \<or> ends_within api keep n next_page (Suc pos)))"

lemma ends_within_returns:
  "ends_within api keep n page (w_pos w) \<Longrightarrow> \<exists>r. list_pages msg api keep page found w = Some r"
proof (induction n arbitrary: page found w)
  case (Suc n)
  show ?case
  proof (cases "api page (w_pos w)")
    case (Inr a)
    obtain rs p where a: "a = (rs, p)" by fastforce
    with Inr Suc.prems Suc.IH [of p "step_world w"] show ?thesis
      by (cases "keep rs") (auto simp: list_pages.simps [of msg api keep page found w])
  qed (simp add: list_pages.simps)
qed simp

lemma returns_ends_within:
  assumes "list_pages msg api keep page found w = Some r"
  shows "\<exists>n. ends_within api keep n page (w_pos w)"
proof (rule list_pages.raw_induct [OF _ assms, where P = "\<lambda>msg api keep page found w r. \<exists>n. ends_within api keep n page (w_pos w)"])
  fix lp msg and api :: "int \<Rightarrow> nat \<Rightarrow> ('a list \<times> int) res" and keep page found and w :: world and r
  assume IH: "\<And>msg api keep page found w r. lp msg api keep page found w = Some r \<Longrightarrow> \<exists>n. ends_within api keep n page (w_pos w)"
    and body: "(case api page (w_pos w) of
        Inl e \<Rightarrow> Some (Inl (wrap_error msg e), step_world w)
      | Inr (repos, next_page) \<Rightarrow>
          (case keep repos of
             Inl e \<Rightarrow> Some (Inl e, step_world w)
           | Inr names \<Rightarrow>
               if next_page = 0 then Some (Inr (found @ names), step_world w)
               else lp msg api keep next_page (found @ names) (step_world w))) = Some r"
  have one: "\<exists>n. ends_within api keep n page (w_pos w)" if "ends_within api keep 1 page (w_pos w)"
    using that by blast
  show "\<exists>n. ends_within api keep n page (w_pos w)"
  proof (cases "api page (w_pos w)")
    case (Inl e)
    then show ?thesis by (intro one) simp
  next
    case (Inr a)
    obtain rs p where a: "a = (rs, p)" by fastforce
    show ?thesis
    proof (cases "keep rs")
      case (Inl e)
      with Inr a show ?thesis by (intro one) simp
    next
      case k: (Inr names)
      show ?thesis
      proof (cases "p = 0")
        case True
        with Inr a k show ?thesis by (intro one) simp
      next
        case False
        with body Inr a k obtain n where "ends_within api keep n p (w_pos (step_world w))"
          using IH by fastforce
        then have "ends_within api keep (Suc n) page (w_pos w)" using Inr a k by simp
        then show ?thesis by blast
      qed
    qed
  qed
qed

lemma list_pages_None:
  "list_pages msg api keep page found w = None \<longleftrightarrow> (\<nexists>n. ends_within api keep n page (w_pos w))"
  by (metis ends_within_returns option.distinct(1) option.exhaust returns_ends_within)

text \<open>A forge that numbers its pages and says so: every page is asked for once, in order.\<close>

definition page_number :: "nat \<Rightarrow> int" where
  "page_number k = (if k = 0 then 0 else int k + 1)"

lemma list_pages_all:
  assumes "\<And>i. k \<le> i \<Longrightarrow> i \<le> m \<Longrightarrow> api (page_number i) (pos + i) = Inr (pages i, if i < m then page_number (i + 1) else 0)"
    and "\<And>rs. keep rs = Inr (names rs)"
    and "k \<le> m" and "w_pos w = pos + k"
  shows "\<exists>w'. list_pages msg api keep (page_number k) found w =
      Some (Inr (found @ concat (map (\<lambda>i. names (pages i)) [k..<Suc m])), w') \<and>
    w_pos w' = pos + Suc m \<and> w_db w' = w_db w"
  using assms(1,3,4)
proof (induction "m - k" arbitrary: k found w)
  case 0
  then have "k = m" by simp
  with 0 show ?case
    by (subst list_pages.simps) (auto simp: assms(2))
next
  case (Suc d)
  then have k: "k < m" "Suc k \<le> m" by auto
  have a: "api (page_number k) (w_pos w) = Inr (pages k, page_number (k + 1))"
    using Suc.prems k by simp
  have p: "page_number (k + 1) \<noteq> 0" by (simp add: page_number_def)
  from Suc.hyps(1) [of "Suc k" "step_world w" "found @ names (pages k)"] Suc.prems Suc.hyps(2) k
  obtain w' where "list_pages msg api keep (page_number (Suc k)) (found @ names (pages k)) (step_world w) =
      Some (Inr (found @ names (pages k) @ concat (map (\<lambda>i. names (pages i)) [Suc k..<Suc m])), w')"
      "w_pos w' = pos + Suc m" "w_db w' = w_db w"
    by fastforce
  moreover have "[k..<Suc m] = k # [Suc k..<Suc m]" using k by (simp add: upt_rec)
  ultimately show ?case
    using a p by (subst list_pages.simps) (auto simp: assms(2))
qed

lemma list_pages_db:
  assumes "list_pages msg api keep page found w = Some r"
  shows "w_db (snd r) = w_db w"
proof (rule list_pages.raw_induct [OF _ assms, where P = "\<lambda>msg api keep page found w r. w_db (snd r) = w_db w"])
  fix lp msg and api :: "int \<Rightarrow> nat \<Rightarrow> ('a list \<times> int) res" and keep page found and w :: world and r
  assume IH: "\<And>msg api keep page found w r. lp msg api keep page found w = Some r \<Longrightarrow> w_db (snd r) = w_db w"
    and body: "(case api page (w_pos w) of
        Inl e \<Rightarrow> Some (Inl (wrap_error msg e), step_world w)
      | Inr (repos, next_page) \<Rightarrow>
          (case keep repos of
             Inl e \<Rightarrow> Some (Inl e, step_world w)
           | Inr names \<Rightarrow>
               if next_page = 0 then Some (Inr (found @ names), step_world w)
               else lp msg api keep next_page (found @ names) (step_world w))) = Some r"
  then show "w_db (snd r) = w_db w"
    by (auto split: sum.splits prod.splits if_splits dest: IH)
qed

text \<open>
  C37: the listing behind the repository picker. With a forge that numbers its pages, the
  GitHub client asks for each page once, in order, and returns the repositories of all of
  them that are not archived, forks or mirrors, in the forge's order, after exactly as many
  calls as there are pages; with one that always names another page it never returns, and
  that is the only way not to.
\<close>

theorem list_accessible_terminates:
  assumes "\<And>i. i \<le> m \<Longrightarrow> gc_list_repos c token (page_number i) (w_pos w + i) =
    Inr (pages i, if i < m then page_number (i + 1) else 0)"
  shows "(\<exists>w'. github_list_accessible c token w =
      Some (Inr (map gr_full_name (filter (\<lambda>r. \<not> gr_archived r \<and> \<not> gr_fork r \<and> gr_mirror_url r = [])
        (concat (map pages [0..<Suc m])))), w') \<and>
      w_pos w' = w_pos w + Suc m \<and> w_db w' = w_db w) \<and>
    (github_list_accessible c' token w = None \<longleftrightarrow>
      (\<nexists>n. ends_within (gc_list_repos c' token) github_names n 0 (w_pos w)))"
proof -
  let ?names = "\<lambda>rs. map gr_full_name (filter (\<lambda>r. \<not> gr_archived r \<and> \<not> gr_fork r \<and> gr_mirror_url r = []) rs)"
  have n: "github_names rs = Inr (?names rs)" for rs by (simp add: github_names_def)
  have z: "page_number 0 = 0" by (simp add: page_number_def)
  obtain w' where "list_pages ''list accessible github repos'' (gc_list_repos c token) github_names (page_number 0) [] w =
      Some (Inr ([] @ concat (map (\<lambda>i. ?names (pages i)) [0..<Suc m])), w')"
      "w_pos w' = w_pos w + Suc m" "w_db w' = w_db w"
    using list_pages_all [of 0 m "gc_list_repos c token" "w_pos w" pages github_names ?names w
        "''list accessible github repos''" "[]", OF assms n]
    by auto
  moreover have "concat (map (\<lambda>i. ?names (pages i)) ks) = ?names (concat (map pages ks))" for ks
    by (induction ks) auto
  ultimately show ?thesis
    by (auto simp: github_list_accessible_def z list_pages_None)
qed

definition paging_github :: github_client where
  "paging_github = \<lparr> gc_base = None, gc_http = \<lambda>_ _. NoAnswer (Driver []), gc_runs_json = \<lambda>_. Inr [],
     gc_jobs_json = \<lambda>_. Inr [], gc_create_hook = \<lambda>_ _ _ _ _. Inr (),
     gc_list_repos = \<lambda>_ page _.
       if page = 0
       then Inr ([\<lparr> gr_archived = False, gr_fork = False, gr_mirror_url = [], gr_full_name = ''o/a'' \<rparr>,
                  \<lparr> gr_archived = False, gr_fork = True, gr_mirror_url = [], gr_full_name = ''o/b'' \<rparr>], 2)
       else Inr ([\<lparr> gr_archived = False, gr_fork = False, gr_mirror_url = [], gr_full_name = ''o/c'' \<rparr>], 0),
     gc_get_repo = \<lambda>_ _ _ _. Inl (Driver []) \<rparr>"

definition endless_github :: github_client where
  "endless_github = paging_github\<lparr>gc_list_repos := \<lambda>_ page _. Inr ([], 2)\<rparr>"

theorem list_accessible_terminates_witness:
  "fst (the (github_list_accessible paging_github ''t'' \<lparr> w_db = empty_db, w_pos = 0, w_env = quiet_env, w_limits = [], w_ready = None \<rparr>))
     = Inr [''o/a'', ''o/c''] \<and>
   github_list_accessible endless_github ''t'' \<lparr> w_db = empty_db, w_pos = 0, w_env = quiet_env, w_limits = [], w_ready = None \<rparr> = None"
proof -
  let ?w = "\<lparr> w_db = empty_db, w_pos = 0, w_env = quiet_env, w_limits = [], w_ready = None \<rparr>"
  let ?pages = "\<lambda>i :: nat. if i = 0
    then [\<lparr> gr_archived = False, gr_fork = False, gr_mirror_url = [], gr_full_name = ''o/a'' \<rparr>,
          \<lparr> gr_archived = False, gr_fork = True, gr_mirror_url = [], gr_full_name = ''o/b'' \<rparr>]
    else [\<lparr> gr_archived = False, gr_fork = False, gr_mirror_url = [], gr_full_name = ''o/c'' \<rparr>]"
  have "\<not> ends_within (gc_list_repos endless_github ''t'') github_names n page pos" for n page pos
    by (induction n arbitrary: page pos) (simp_all add: endless_github_def github_names_def)
  moreover have "gc_list_repos paging_github ''t'' (page_number i) (w_pos ?w + i) =
      Inr (?pages i, if i < 1 then page_number (i + 1) else 0)" if "i \<le> 1" for i
    using that by (cases i) (auto simp: paging_github_def page_number_def)
  note list_accessible_terminates [where m = 1 and c = paging_github and token = "''t''" and w = ?w and pages = ?pages
      and c' = endless_github, OF this]
  ultimately show ?thesis by (auto simp: numeral_2_eq_2)
qed

end
