(* ===== verification/Crypto.thy ===== *)
theory Crypto
  imports GoIO GoTime
begin

text \<open>
  Sealing of tokens at rest (\<open>internal/crypto\<close>). AES-256-GCM is a parameter, a pair of
  functions for sealing and opening; the framing around it, nonce first, is the program's.
\<close>

record aead =
  ae_seal :: "string \<Rightarrow> string \<Rightarrow> string \<Rightarrow> string"
  ae_open :: "string \<Rightarrow> string \<Rightarrow> string \<Rightarrow> string option"

text \<open>\<open>rand.Read\<close> fills the whole buffer.\<close>

definition rand_bytes :: "nat \<Rightarrow> string io" where
  "rand_bytes n = bindE randE (\<lambda>s. retE (take n (s @ replicate n (CHR 0x00))))"

definition random_hex :: "nat \<Rightarrow> string io" where
  "random_hex n = bindE (rand_bytes n) (\<lambda>b. retE (hex_encode b))"

definition nonce_size :: nat where
  "nonce_size = 12"

definition encrypt :: "aead \<Rightarrow> string \<Rightarrow> string \<Rightarrow> string io" where
  "encrypt ae key plaintext =
     (if length key \<noteq> 32 then throwE (Sentinel ErrInvalidKeySize)
      else bindE (rand_bytes nonce_size) (\<lambda>nonce.
           retE (nonce @ ae_seal ae key nonce plaintext)))"

definition decrypt :: "aead \<Rightarrow> string \<Rightarrow> string \<Rightarrow> string res" where
  "decrypt ae key data =
     (if length key \<noteq> 32 then Inl (Sentinel ErrInvalidKeySize)
      else if length data < nonce_size then Inl (Sentinel ErrCiphertextTooShort)
      else (case ae_open ae key (take nonce_size data) (drop nonce_size data) of
              None \<Rightarrow> Inl (Wrap ''decrypt'' (Driver ''cipher: message authentication failed''))
            | Some p \<Rightarrow> Inr p))"

text \<open>What the cipher promises: opening what was sealed gives it back.\<close>

definition aead_ok :: "aead \<Rightarrow> bool" where
  "aead_ok ae \<longleftrightarrow> (\<forall>k n p. length n = nonce_size \<longrightarrow> ae_open ae k n (ae_seal ae k n p) = Some p)"

lemma rand_bytes_length: "rand_bytes n w = (Inr b, w') \<Longrightarrow> length b = n"
  by (auto simp: rand_bytes_def bindE_eq_Inr)

lemma encrypt_Inr:
  assumes "encrypt ae key p w = (Inr data, w')"
  shows "length key = 32 \<and> (\<exists>nonce. length nonce = nonce_size \<and> data = nonce @ ae_seal ae key nonce p)"
  using assms by (auto simp: encrypt_def bindE_eq_Inr dest: rand_bytes_length split: if_splits)

lemma decrypt_encrypt:
  "aead_ok ae \<Longrightarrow> encrypt ae key p w = (Inr data, w') \<Longrightarrow> decrypt ae key data = Inr p"
  by (auto dest!: encrypt_Inr simp: decrypt_def aead_ok_def)

lemma keeps_encrypt: "keeps P (encrypt ae key p)"
  unfolding encrypt_def rand_bytes_def by (auto intro!: keeps_intros)

lemma onwards_encrypt: "onwards (encrypt ae key p)"
  unfolding encrypt_def rand_bytes_def by (auto intro!: onwards_intros)

lemma encrypt_quiet:
  "length key = 32 \<Longrightarrow> \<exists>data. encrypt ae key p w = (Inr data, step_world w)"
  by (auto simp: encrypt_def rand_bytes_def bindE_def randE_def retE_def)

text \<open>A cipher for examples: it seals by prefixing a tag.\<close>

definition demo_aead :: aead where
  "demo_aead = \<lparr> ae_seal = \<lambda>k n p. ''tag'' @ p,
     ae_open = \<lambda>k n c. if take 3 c = ''tag'' then Some (drop 3 c) else None \<rparr>"

lemma demo_aead_ok: "aead_ok demo_aead"
  by (simp add: aead_ok_def demo_aead_def)

end
