(* ===== verification/IngestionStore.thy ===== *)
theory IngestionStore
  imports RunServices Crypto MetricsStore
begin

text \<open>
  The SQLite adapter of ingestion (\<open>internal/ingestion/sqlite\<close>): tracked repositories,
  saved forge tokens, runs, jobs and steps. Each statement is an update of the tables, with
  the constraints and cascades of the schema; each method runs them as the code does.
\<close>

subsection \<open>Repositories\<close>

definition nullable :: "string \<Rightarrow> string option" where
  "nullable s = (if s = [] then None else Some s)"

definition scan_repo :: "repo_row \<Rightarrow> repo" where
  "scan_repo r =
     \<lparr> tr_id = rp_id r, tr_forge = rp_forge r, tr_identifier = rp_identifier r,
       tr_instance = text_of (rp_instance r), tr_masked = rp_token_masked r, tr_secret = rp_webhook_secret r,
       tr_status = rp_status r, tr_reason = text_of (rp_status_reason r), tr_etag = rp_etag r,
       tr_created = rp_created_at r \<rparr>"

definition known_status :: "string \<Rightarrow> bool" where
  "known_status s \<longleftrightarrow> s \<in> {''pending'', ''active'', ''degraded''}"

definition insert_repo :: "repo_row \<Rightarrow> db \<Rightarrow> constraint + db" where
  "insert_repo r d =
     (if rp_forge r \<notin> {''github'', ''forgejo''} \<or> \<not> known_status (rp_status r) then Inl CheckFailed
      else if has_key rp_id (rp_id r) (t_repos d) then Inl PrimaryKey
      else if has_key repo_key (repo_key r) (t_repos d) then Inl UniqueKey
      else Inr (d\<lparr>t_repos := t_repos d @ [r]\<rparr>))"

definition sql_create_repo :: "aead \<Rightarrow> string \<Rightarrow> new_repo \<Rightarrow> repo io" where
  "sql_create_repo ae key n =
     bindE (wrapE ''encrypt token'' (encrypt ae key (nr_token n))) (\<lambda>sealed.
     bindE (wrapE ''generate webhook secret'' (random_hex 32)) (\<lambda>secret.
     bindE randE (\<lambda>i.
     bindE nowE (\<lambda>now.
     let row = \<lparr> rp_id = i, rp_forge = nr_forge n, rp_identifier = nr_identifier n,
                 rp_instance = nullable (nr_instance n), rp_token_enc = sealed,
                 rp_token_masked = mask_token (nr_token n), rp_webhook_secret = secret,
                 rp_status = ''pending'', rp_status_reason = None, rp_created_at = now, rp_etag = [] \<rparr>
     in bindE (tryE (insertE (insert_repo row))) (\<lambda>res.
          case res of
            Inr _ \<Rightarrow> retE (scan_repo row)
          | Inl e \<Rightarrow> if e = Constraint UniqueKey then throwE (Sentinel ErrRepoAlreadyTracked)
                     else throwE (wrap_error ''insert repo'' e))))))"

definition sql_list_identifiers :: "string \<Rightarrow> string \<Rightarrow> string list io" where
  "sql_list_identifiers forge inst =
     queryE ''query repo identifiers'' ''scan repo identifier'' ''iterate repo identifiers''
       (\<lambda>d. map rp_identifier (filter (\<lambda>r. rp_forge r = forge \<and> rp_instance r = nullable inst) (t_repos d)))"

definition oldest_first :: "repo_row \<Rightarrow> repo_row \<Rightarrow> int" where
  "oldest_first a b = cmp_or [cmp_compare (rp_created_at a) (rp_created_at b), cmp_compare (rp_id a) (rp_id b)]"

definition select_repos :: "repo_filter \<Rightarrow> db \<Rightarrow> repo_row list" where
  "select_repos flt d =
     (let rows = sort_func oldest_first (filter (\<lambda>r. rl_forge flt = [] \<or> rp_forge r = rl_forge flt) (t_repos d))
      in if 0 < rl_limit flt then sql_limit (wrap64 (rl_limit flt + 1)) (sql_offset (rl_offset flt) rows)
         else rows)"

definition sql_list_repos :: "repo_filter \<Rightarrow> (repo list \<times> bool) io" where
  "sql_list_repos flt =
     bindE (queryE ''query repos'' ''scan repo'' ''iterate repos'' (\<lambda>d. map scan_repo (select_repos flt d)))
       (\<lambda>repos. retE (cut_extra (rl_limit flt) repos))"

definition find_repo :: "string \<Rightarrow> db \<Rightarrow> repo_row option" where
  "find_repo i d = find (\<lambda>r. rp_id r = i) (t_repos d)"

definition sql_get_repo :: "string \<Rightarrow> repo io" where
  "sql_get_repo i =
     bindE (wrapE ''scan repo'' (query_rowE (find_repo i))) (\<lambda>row.
       case row of None \<Rightarrow> throwE (Sentinel ErrRepoNotFound) | Some r \<Rightarrow> retE (scan_repo r))"

definition locate_row :: "string \<Rightarrow> string \<Rightarrow> db \<Rightarrow> job_location option" where
  "locate_row run_id job_id d =
     first_row (concat (map (\<lambda>j. map (\<lambda>r. \<lparr> jl_repo = ru_repo r, jl_forge_job = jo_forge_job j, jl_url = jo_url j \<rparr>)
         (filter (\<lambda>r. ru_id r = jo_run j) (t_runs d)))
       (filter (\<lambda>j. jo_id j = job_id \<and> jo_run j = run_id) (t_jobs d))))"

definition sql_locate_job :: "string \<Rightarrow> string \<Rightarrow> job_location io" where
  "sql_locate_job run_id job_id =
     bindE (wrapE ''locate job'' (query_rowE (locate_row run_id job_id))) (\<lambda>row.
       case row of None \<Rightarrow> throwE (Sentinel ErrJobNotFound) | Some l \<Rightarrow> retE l)"

text \<open>\<open>DELETE FROM repos\<close> with the cascades of the schema.\<close>

definition delete_repo_rows :: "string \<Rightarrow> db \<Rightarrow> (db \<times> nat) option" where
  "delete_repo_rows i d =
     (let runs = filter (\<lambda>r. ru_repo r \<noteq> i) (t_runs d);
          jobs = filter (\<lambda>j. jo_run j \<in> set (map ru_id runs)) (t_jobs d);
          steps = filter (\<lambda>s. st_job s \<in> set (map jo_id jobs)) (t_steps d)
      in Some (d\<lparr>t_repos := filter (\<lambda>r. rp_id r \<noteq> i) (t_repos d), t_runs := runs, t_jobs := jobs,
                 t_steps := steps, t_quarantines := filter (\<lambda>q. qu_repo q \<noteq> i) (t_quarantines d)\<rparr>,
               length (filter (\<lambda>r. rp_id r = i) (t_repos d))))"

text \<open>A statement that must change a row.\<close>

definition exec_some :: "string \<Rightarrow> sentinel \<Rightarrow> (db \<Rightarrow> (db \<times> nat) option) \<Rightarrow> unit io" where
  "exec_some msg missing stmt =
     bindE (wrapE msg (execE stmt)) (\<lambda>n. if n = 0 then throwE (Sentinel missing) else retE ())"

definition sql_delete_repo :: "string \<Rightarrow> unit io" where
  "sql_delete_repo i = exec_some ''delete repo'' ErrRepoNotFound (delete_repo_rows i)"

definition update_repo :: "string \<Rightarrow> (repo_row \<Rightarrow> repo_row) \<Rightarrow> db \<Rightarrow> (db \<times> nat) option" where
  "update_repo i f d =
     Some (d\<lparr>t_repos := map (\<lambda>r. if rp_id r = i then f r else r) (t_repos d)\<rparr>,
           length (filter (\<lambda>r. rp_id r = i) (t_repos d)))"

definition sql_set_etag :: "string \<Rightarrow> string \<Rightarrow> unit io" where
  "sql_set_etag i etag =
     exec_some ''update reconcile etag'' ErrRepoNotFound (update_repo i (\<lambda>r. r\<lparr>rp_etag := etag\<rparr>))"

definition set_status_row :: "string \<Rightarrow> string \<Rightarrow> string \<Rightarrow> db \<Rightarrow> (db \<times> nat) option" where
  "set_status_row i status reason d =
     (if has_key rp_id i (t_repos d) \<and> \<not> known_status status then None
      else update_repo i (\<lambda>r. r\<lparr>rp_status := status, rp_status_reason := nullable reason\<rparr>) d)"

definition sql_set_status :: "string \<Rightarrow> string \<Rightarrow> string \<Rightarrow> unit io" where
  "sql_set_status i status reason =
     exec_some ''update ingestion status'' ErrRepoNotFound (set_status_row i status reason)"

definition sql_repo_token :: "aead \<Rightarrow> string \<Rightarrow> string \<Rightarrow> string io" where
  "sql_repo_token ae key i =
     bindE (wrapE ''query token'' (query_rowE (\<lambda>d. map_option rp_token_enc (find_repo i d)))) (\<lambda>row.
       case row of
         None \<Rightarrow> throwE (Sentinel ErrRepoNotFound)
       | Some sealed \<Rightarrow> wrapE ''decrypt token'' (liftE (decrypt ae key sealed)))"

definition sql_rstore :: "aead \<Rightarrow> string \<Rightarrow> rstore" where
  "sql_rstore ae key =
     \<lparr> is_create = sql_create_repo ae key, is_list = sql_list_repos, is_identifiers = sql_list_identifiers,
       is_get = sql_get_repo, is_delete = sql_delete_repo, is_token = sql_repo_token ae key,
       is_set_status = sql_set_status, is_set_etag = sql_set_etag \<rparr>"

subsection \<open>Saved forge tokens\<close>

record saved_token =
  sv_id :: string
  sv_forge :: string
  sv_instance :: string
  sv_masked :: string

definition token_scope :: "string \<Rightarrow> string \<Rightarrow> string" where
  "token_scope forge inst =
     (if forge \<noteq> ''forgejo'' then [] else trim_right_char (CHR ''/'') (trim_space inst))"

definition forge_token_key :: "forge_token_row \<Rightarrow> string \<times> string" where
  "forge_token_key t = (ft_forge t, ft_instance t)"

definition upsert_forge_token :: "forge_token_row \<Rightarrow> db \<Rightarrow> constraint + (db \<times> string)" where
  "upsert_forge_token t d =
     (case find (\<lambda>x. forge_token_key x = forge_token_key t) (t_forge_tokens d) of
        Some x \<Rightarrow> Inr (d\<lparr>t_forge_tokens := map (\<lambda>x. if forge_token_key x = forge_token_key t
                 then x\<lparr>ft_enc := ft_enc t, ft_masked := ft_masked t, ft_created_at := ft_created_at t\<rparr> else x)
                 (t_forge_tokens d)\<rparr>, ft_id x)
      | None \<Rightarrow> if has_key ft_id (ft_id t) (t_forge_tokens d) then Inl PrimaryKey
                else Inr (d\<lparr>t_forge_tokens := t_forge_tokens d @ [t]\<rparr>, ft_id t))"

definition sql_save_forge_token :: "aead \<Rightarrow> string \<Rightarrow> string \<Rightarrow> string \<Rightarrow> string \<Rightarrow> saved_token io" where
  "sql_save_forge_token ae key forge inst token =
     bindE (wrapE ''encrypt token'' (encrypt ae key token)) (\<lambda>sealed.
     let scope = token_scope forge inst in
     bindE randE (\<lambda>i.
     bindE nowE (\<lambda>now.
     bindE (wrapE ''save forge token'' (returningE (upsert_forge_token
       \<lparr> ft_id = i, ft_forge = forge, ft_instance = scope, ft_enc = sealed,
         ft_masked = mask_token token, ft_created_at = now \<rparr>))) (\<lambda>stored.
       retE \<lparr> sv_id = stored, sv_forge = forge, sv_instance = scope, sv_masked = mask_token token \<rparr>))))"

definition sql_list_forge_tokens :: "saved_token list io" where
  "sql_list_forge_tokens =
     queryE ''query forge tokens'' ''scan forge token'' ''iterate forge tokens''
       (\<lambda>d. map (\<lambda>t. \<lparr> sv_id = ft_id t, sv_forge = ft_forge t, sv_instance = ft_instance t, sv_masked = ft_masked t \<rparr>)
          (sort_func (\<lambda>a b. cmp_or [cmp_compare (ft_forge a) (ft_forge b), cmp_compare (ft_instance a) (ft_instance b)])
             (t_forge_tokens d)))"

definition delete_forge_token_row :: "string \<Rightarrow> db \<Rightarrow> (db \<times> nat) option" where
  "delete_forge_token_row i d =
     Some (d\<lparr>t_forge_tokens := filter (\<lambda>t. ft_id t \<noteq> i) (t_forge_tokens d)\<rparr>,
           length (filter (\<lambda>t. ft_id t = i) (t_forge_tokens d)))"

definition sql_delete_forge_token :: "string \<Rightarrow> unit io" where
  "sql_delete_forge_token i = exec_some ''delete forge token'' ErrSavedTokenNotFound (delete_forge_token_row i)"

definition find_forge_token :: "string \<Rightarrow> string \<Rightarrow> db \<Rightarrow> string option" where
  "find_forge_token forge scope d =
     map_option ft_enc (find (\<lambda>t. forge_token_key t = (forge, scope)) (t_forge_tokens d))"

definition sql_forge_token :: "aead \<Rightarrow> string \<Rightarrow> string \<Rightarrow> string \<Rightarrow> string io" where
  "sql_forge_token ae key forge inst =
     bindE (wrapE ''query forge token'' (query_rowE (find_forge_token forge (token_scope forge inst)))) (\<lambda>row.
       case row of
         None \<Rightarrow> throwE (Sentinel ErrSavedTokenNotFound)
       | Some sealed \<Rightarrow> wrapE ''decrypt forge token'' (liftE (decrypt ae key sealed)))"

subsection \<open>Runs\<close>

definition sql_repo_by_identifier :: "string \<Rightarrow> string \<Rightarrow> repo io" where
  "sql_repo_by_identifier forge identifier =
     bindE (wrapE ''scan repo'' (query_rowE (\<lambda>d. find (\<lambda>r. rp_forge r = forge \<and> rp_identifier r = identifier) (t_repos d))))
       (\<lambda>row. case row of None \<Rightarrow> throwE (Sentinel ErrRepoNotFound) | Some r \<Rightarrow> retE (scan_repo r))"

definition sql_run_states :: "string \<Rightarrow> (string \<times> run_state) list io" where
  "sql_run_states repo_id =
     bindE (queryE ''query run states'' ''scan run state'' ''iterate run states''
              (\<lambda>d. filter (\<lambda>r. ru_repo r = repo_id) (t_runs d))) (\<lambda>rows.
       retE (fold (\<lambda>r m. (ru_forge_run r, \<lparr> sta_status = ru_status r, sta_conclusion = text_of (ru_conclusion r) \<rparr>) # m)
               rows []))"

text \<open>\<open>findID\<close>: the id of the first matching row, empty when there is none.\<close>

definition find_id :: "(db \<Rightarrow> string option) \<Rightarrow> string io" where
  "find_id sel = bindE (wrapE ''find id'' (query_rowE sel)) (\<lambda>row. retE (text_of row))"

definition run_id_of :: "string \<Rightarrow> string \<Rightarrow> db \<Rightarrow> string option" where
  "run_id_of repo_id forge_run d =
     map_option ru_id (find (\<lambda>r. run_key r = (repo_id, forge_run)) (t_runs d))"

definition coalesce :: "string option \<Rightarrow> string option \<Rightarrow> string option" where
  "coalesce a b = (case a of Some x \<Rightarrow> Some x | None \<Rightarrow> b)"

text \<open>The \<open>UPDATE\<close> of a run: commit metadata that is not sent stays as stored.\<close>

definition updated_run :: "run_data \<Rightarrow> run_row \<Rightarrow> run_row" where
  "updated_run x r =
     r\<lparr>ru_pipeline := rnd_pipeline x, ru_status := rnd_status x, ru_conclusion := nullable (rnd_conclusion x),
       ru_started := rnd_started x, ru_completed := rnd_completed x, ru_url := rnd_url x,
       ru_branch := coalesce (nullable (rnd_branch x)) (ru_branch r),
       ru_sha := coalesce (nullable (rnd_sha x)) (ru_sha r),
       ru_message := coalesce (nullable (rnd_message x)) (ru_message r),
       ru_actor := coalesce (nullable (rnd_actor x)) (ru_actor r)\<rparr>"

definition update_run_row :: "string \<Rightarrow> run_data \<Rightarrow> db \<Rightarrow> (db \<times> nat) option" where
  "update_run_row i x d =
     Some (d\<lparr>t_runs := map (\<lambda>r. if ru_id r = i then updated_run x r else r) (t_runs d)\<rparr>,
           length (filter (\<lambda>r. ru_id r = i) (t_runs d)))"

definition new_run_row :: "string \<Rightarrow> run_data \<Rightarrow> run_row" where
  "new_run_row i x =
     \<lparr> ru_id = i, ru_repo = rnd_repo x, ru_forge_run = rnd_forge_run x, ru_pipeline = rnd_pipeline x,
       ru_status = rnd_status x, ru_conclusion = nullable (rnd_conclusion x), ru_started = rnd_started x,
       ru_completed = rnd_completed x, ru_url = rnd_url x, ru_branch = nullable (rnd_branch x),
       ru_sha = nullable (rnd_sha x), ru_message = nullable (rnd_message x), ru_actor = nullable (rnd_actor x) \<rparr>"

definition insert_run :: "run_row \<Rightarrow> db \<Rightarrow> constraint + db" where
  "insert_run r d =
     (if has_key ru_id (ru_id r) (t_runs d) then Inl PrimaryKey
      else if has_key run_key (run_key r) (t_runs d) then Inl UniqueKey
      else if \<not> has_key rp_id (ru_repo r) (t_repos d) then Inl ForeignKey
      else Inr (d\<lparr>t_runs := t_runs d @ [r]\<rparr>))"

definition sql_upsert_run :: "run_data \<Rightarrow> run_data io" where
  "sql_upsert_run x =
     bindE (find_id (run_id_of (rnd_repo x) (rnd_forge_run x))) (\<lambda>existing.
     if existing \<noteq> []
     then bindE (wrapE ''update run'' (execE (update_run_row existing x))) (\<lambda>_. retE (x\<lparr>rnd_id := existing\<rparr>))
     else bindE randE (\<lambda>i.
          bindE (wrapE ''insert run'' (insertE (insert_run (new_run_row i x)))) (\<lambda>_. retE (x\<lparr>rnd_id := i\<rparr>))))"

subsection \<open>Jobs and steps\<close>

definition job_id_of :: "string \<Rightarrow> string \<Rightarrow> db \<Rightarrow> string option" where
  "job_id_of run forge_job d = map_option jo_id (find (\<lambda>j. job_key j = (run, forge_job)) (t_jobs d))"

definition updated_job :: "job_data \<Rightarrow> job_row \<Rightarrow> job_row" where
  "updated_job x j =
     j\<lparr>jo_name := jd_name x, jo_status := jd_status x, jo_conclusion := nullable (jd_conclusion x),
       jo_queued := jd_queued x, jo_started := jd_started x, jo_completed := jd_completed x, jo_url := jd_url x\<rparr>"

definition update_job_row :: "string \<Rightarrow> job_data \<Rightarrow> db \<Rightarrow> (db \<times> nat) option" where
  "update_job_row i x d =
     Some (d\<lparr>t_jobs := map (\<lambda>j. if jo_id j = i then updated_job x j else j) (t_jobs d)\<rparr>,
           length (filter (\<lambda>j. jo_id j = i) (t_jobs d)))"

definition new_job_row :: "string \<Rightarrow> job_data \<Rightarrow> job_row" where
  "new_job_row i x =
     \<lparr> jo_id = i, jo_run = jd_run x, jo_forge_job = jd_forge_job x, jo_name = jd_name x, jo_status = jd_status x,
       jo_conclusion = nullable (jd_conclusion x), jo_queued = jd_queued x, jo_started = jd_started x,
       jo_completed = jd_completed x, jo_url = jd_url x \<rparr>"

definition insert_job :: "job_row \<Rightarrow> db \<Rightarrow> constraint + db" where
  "insert_job j d =
     (if has_key jo_id (jo_id j) (t_jobs d) then Inl PrimaryKey
      else if has_key job_key (job_key j) (t_jobs d) then Inl UniqueKey
      else if \<not> has_key ru_id (jo_run j) (t_runs d) then Inl ForeignKey
      else Inr (d\<lparr>t_jobs := t_jobs d @ [j]\<rparr>))"

definition sql_upsert_job :: "job_data \<Rightarrow> job_data io" where
  "sql_upsert_job x =
     bindE (find_id (job_id_of (jd_run x) (jd_forge_job x))) (\<lambda>existing.
     if existing \<noteq> []
     then bindE (wrapE ''update job'' (execE (update_job_row existing x))) (\<lambda>_. retE (x\<lparr>jd_id := existing\<rparr>))
     else bindE randE (\<lambda>i.
          bindE (wrapE ''insert job'' (insertE (insert_job (new_job_row i x)))) (\<lambda>_. retE (x\<lparr>jd_id := i\<rparr>))))"

definition clear_steps :: "string \<Rightarrow> db \<Rightarrow> (db \<times> nat) option" where
  "clear_steps job d =
     Some (d\<lparr>t_steps := filter (\<lambda>s. st_job s \<noteq> job) (t_steps d)\<rparr>, length (filter (\<lambda>s. st_job s = job) (t_steps d)))"

definition new_step_row :: "string \<Rightarrow> string \<Rightarrow> step_data \<Rightarrow> step_row" where
  "new_step_row i job s =
     \<lparr> st_id = i, st_job = job, st_number = sd_number s, st_name = sd_name s, st_status = sd_status s,
       st_conclusion = nullable (sd_conclusion s), st_started = sd_started s, st_completed = sd_completed s \<rparr>"

definition insert_step :: "step_row \<Rightarrow> db \<Rightarrow> constraint + db" where
  "insert_step s d =
     (if has_key st_id (st_id s) (t_steps d) then Inl PrimaryKey
      else if has_key step_key (step_key s) (t_steps d) then Inl UniqueKey
      else if \<not> has_key jo_id (st_job s) (t_jobs d) then Inl ForeignKey
      else Inr (d\<lparr>t_steps := t_steps d @ [s]\<rparr>))"

definition sql_insert_step :: "string \<Rightarrow> step_data \<Rightarrow> unit io" where
  "sql_insert_step job s =
     bindE randE (\<lambda>i.
       wrapE (''insert step '' @ itoa (sd_number s)) (insertE (insert_step (new_step_row i job s))))"

definition sql_replace_steps :: "string \<Rightarrow> step_data list \<Rightarrow> unit io" where
  "sql_replace_steps job steps =
     txE ''begin transaction'' ''commit steps''
       (bindE (wrapE ''clear steps'' (execE (clear_steps job))) (\<lambda>_. forE steps (sql_insert_step job)))"

definition sql_runstore :: runstore where
  "sql_runstore =
     \<lparr> rn_by_identifier = sql_repo_by_identifier, rn_states = sql_run_states, rn_upsert_run = sql_upsert_run,
       rn_upsert_job = sql_upsert_job, rn_replace_steps = sql_replace_steps \<rparr>"

text \<open>\<open>RunByID\<close> reads what an action needs, not the whole row.\<close>

definition sql_run_by_id :: "string \<Rightarrow> run_data io" where
  "sql_run_by_id i =
     bindE (wrapE ''get run'' (query_rowE (\<lambda>d. find (\<lambda>r. ru_id r = i) (t_runs d)))) (\<lambda>row.
       case row of
         None \<Rightarrow> throwE (Sentinel ErrRunNotFound)
       | Some r \<Rightarrow> retE
           \<lparr> rnd_id = ru_id r, rnd_repo = ru_repo r, rnd_forge_run = ru_forge_run r, rnd_pipeline = [],
             rnd_status = ru_status r, rnd_conclusion = text_of (ru_conclusion r), rnd_started = None,
             rnd_completed = None, rnd_url = ru_url r, rnd_branch = [], rnd_sha = [], rnd_message = [], rnd_actor = [] \<rparr>)"

end
