(* ===== verification/IngestionLaws.thy ===== *)
theory IngestionLaws
  imports ForgeFacts IngestionStore MetricsOps
begin

text \<open>
  The contract between ingestion and its stores, as a locale: what reads only and which
  invariant every write keeps. The operations of ingestion keep the invariant; the SQLite
  adapter is interpreted with the integrity of its tables and the soundness of its rows.
\<close>

subsection \<open>Clients that stay outside\<close>

definition quiet_client :: "forge_client \<Rightarrow> bool" where
  "quiet_client c \<longleftrightarrow>
     (\<forall>P. (\<forall>x. keeps P (fc_create_webhook c x)) \<and> (\<forall>x. keeps P (fc_list_runs c x)) \<and>
          (\<forall>i t. keeps P (fc_list_repos c i t)) \<and> (\<forall>x. keeps P (fc_get_repo c x)))"

lemma quiet_clientD:
  "quiet_client c \<Longrightarrow> keeps P (fc_create_webhook c x)" "quiet_client c \<Longrightarrow> keeps P (fc_list_runs c y)"
  "quiet_client c \<Longrightarrow> keeps P (fc_get_repo c z)"
  by (auto simp: quiet_client_def)

lemma keeps_record_rate_limit: "keeps P (record_rate_limit t h)"
  by (auto simp: record_rate_limit_def intro!: keeps_intros split: option.split)

lemma keeps_conditional_get: "keeps P (conditional_get c url token etag dec)"
  unfolding conditional_get_def
  by (auto intro!: keeps_intros keeps_record_rate_limit split: http_outcome.split)

lemma keeps_list_workflow_jobs: "keeps P (list_workflow_jobs c owner name i token)"
  unfolding list_workflow_jobs_def by (auto intro!: keeps_intros keeps_conditional_get)

lemma keeps_snapshot_run: "keeps P (snapshot_run c owner name token known r)"
  unfolding snapshot_run_def by (auto intro!: keeps_intros keeps_list_workflow_jobs)

lemma keeps_github:
  "keeps P (github_create_webhook c hook)" "keeps P (github_list_runs c req)" "keeps P (github_get_repo c get)"
  unfolding github_create_webhook_def github_list_runs_def github_get_repo_def
  by (auto intro!: keeps_intros keeps_conditional_get keeps_snapshot_run)

lemma keeps_fetch_jobs: "keeps P (fetch_workflow_jobs c inst token owner name i)"
  unfolding fetch_workflow_jobs_def
  by (auto intro!: keeps_intros split: http_outcome.split option.split)

lemma keeps_forgejo:
  "keeps P (forgejo_create_webhook c hook)" "keeps P (forgejo_list_runs c req)" "keeps P (forgejo_get_repo c get)"
  unfolding forgejo_create_webhook_def forgejo_list_runs_def forgejo_get_repo_def forgejo_api_def
    forgejo_snapshot_def forgejo_list_jobs_def
  by (auto intro!: keeps_intros keeps_fetch_jobs split: sum.split)

lemma keeps_until_done: "(\<And>w r. m w = Some r \<Longrightarrow> w_db (snd r) = w_db w) \<Longrightarrow> keeps P (until_done m)"
  unfolding keeps_def until_done_def by (auto split: option.split)

lemma quiet_forges: "quiet_client (github_forge g)" "quiet_client (forgejo_forge f)"
  unfolding quiet_client_def github_forge_def forgejo_forge_def
  by (auto intro!: keeps_github keeps_forgejo keeps_until_done simp: github_list_accessible_def
      forgejo_list_accessible_def list_pages_db split: sum.splits dest!: list_pages_db)

lemma quiet_clients: "forge_clients g f forge = Some c \<Longrightarrow> quiet_client c"
  by (auto simp: forge_clients_def quiet_forges split: if_splits)

subsection \<open>The contract\<close>

locale ingest_store =
  fixes st :: rstore and rn :: runstore and inv :: "db \<Rightarrow> bool"
  assumes reads_list: "keeps P (is_list st flt)" and reads_get: "keeps P (is_get st i)"
    and reads_token: "keeps P (is_token st i)" and reads_identifiers: "keeps P (is_identifiers st f u)"
    and reads_repo: "keeps P (rn_by_identifier rn f i)" and reads_states: "keeps P (rn_states rn i)"
    and keeps_create: "keeps inv (is_create st n)" and keeps_delete: "keeps inv (is_delete st i)"
    and keeps_status: "keeps inv (is_set_status st i s reason)" and keeps_etag: "keeps inv (is_set_etag st i e)"
    and keeps_run: "keeps inv (rn_upsert_run rn x)" and keeps_job: "keeps inv (rn_upsert_job rn y)"
    and keeps_steps: "keeps inv (rn_replace_steps rn j ss)"
begin

lemmas reads = reads_list reads_get reads_token reads_identifiers reads_repo reads_states
lemmas writes = keeps_create keeps_delete keeps_status keeps_etag keeps_run keeps_job keeps_steps

lemma register_keeps:
  assumes "\<And>c. cs (nr_forge n) = Some c \<Longrightarrow> quiet_client c"
  shows "keeps inv (register st cs url n)"
proof -
  have d: "keeps inv (degrade st r reason)" for r reason
    unfolding degrade_def by (intro keeps_intros writes)
  show ?thesis
  proof (cases "cs (nr_forge n)")
    case None
    then show ?thesis unfolding register_def by (auto intro!: keeps_intros writes d)
  next
    case (Some c)
    with assms have q: "quiet_client c" by simp
    have "keeps inv (refuse_repo c n)"
      unfolding refuse_repo_def by (auto intro!: keeps_intros quiet_clientD q split: sum.split)
    then show ?thesis
      unfolding register_def Some
      by (auto intro!: keeps_intros writes d quiet_clientD q split: sum.split)
  qed
qed

lemma job_snapshot_keeps: "keeps inv (store_job_snapshot rn run s)"
  unfolding store_job_snapshot_def by (intro keeps_intros writes)

lemma snapshot_keeps: "keeps inv (store_run_snapshot rn r s)"
  unfolding store_run_snapshot_def by (intro keeps_intros writes job_snapshot_keeps)

lemma reconcile_keeps:
  assumes "\<And>c. cs (tr_forge r) = Some c \<Longrightarrow> quiet_client c"
  shows "keeps inv (reconcile_repo st rn cs r)"
proof (cases "cs (tr_forge r)")
  case (Some c)
  with assms have "quiet_client c" by simp
  then show ?thesis
    unfolding reconcile_repo_def Some
    by (auto intro!: keeps_intros writes reads snapshot_keeps quiet_clientD)
qed (simp add: reconcile_repo_def keeps_intros)

lemma reconcile_all_keeps:
  assumes "\<And>f c. cs f = Some c \<Longrightarrow> quiet_client c"
  shows "keeps inv (reconcile_all st rn cs)"
  unfolding reconcile_all_def
  by (auto intro!: keeps_intros reads reconcile_keeps split: sum.split dest: assms)

lemma webhook_keeps:
  "keeps inv (process_github_event dr dj rn r event payload)"
  unfolding process_github_event_def process_workflow_run_def process_workflow_job_def Let_def
  by (auto intro!: keeps_intros writes)

end

end
