(* ===== verification/IngestionFacts.thy ===== *)
theory IngestionFacts
  imports IngestionLaws
begin

text \<open>
  The SQLite adapter of ingestion keeps its contract: every statement keeps the keys, the
  references and the soundness of the stored rows; and what the operations of ingestion do
  end to end.
\<close>

subsection \<open>Sound rows\<close>

text \<open>A sealed secret opens under the key, and what is shown of it is its mask.\<close>

definition sealed_ok :: "aead \<Rightarrow> string \<Rightarrow> string \<Rightarrow> string \<Rightarrow> bool" where
  "sealed_ok ae key enc masked =
     (case decrypt ae key enc of Inl _ \<Rightarrow> False | Inr p \<Rightarrow> masked = mask_token p)"

definition repo_sound :: "aead \<Rightarrow> string \<Rightarrow> repo_row \<Rightarrow> bool" where
  "repo_sound ae key r \<longleftrightarrow>
     rp_forge r \<in> {''github'', ''forgejo''} \<and> known_status (rp_status r) \<and>
     sealed_ok ae key (rp_token_enc r) (rp_token_masked r)"

definition token_sound :: "aead \<Rightarrow> string \<Rightarrow> forge_token_row \<Rightarrow> bool" where
  "token_sound ae key t \<longleftrightarrow>
     sealed_ok ae key (ft_enc t) (ft_masked t) \<and>
     ft_instance t = (if ft_forge t = ''forgejo'' then trim_right_char (CHR ''/'') (ft_instance t) else [])"

definition rows_sound :: "aead \<Rightarrow> string \<Rightarrow> db \<Rightarrow> bool" where
  "rows_sound ae key d \<longleftrightarrow>
     list_all (repo_sound ae key) (t_repos d) \<and> list_all (token_sound ae key) (t_forge_tokens d)"

text \<open>The soundness of the rows rests on the cipher, the integrity of the tables does not.\<close>

definition ingest_inv :: "aead \<Rightarrow> string \<Rightarrow> db \<Rightarrow> bool" where
  "ingest_inv ae key d \<longleftrightarrow> run_tables_ok d \<and> forge_tokens_ok d \<and> (aead_ok ae \<longrightarrow> rows_sound ae key d)"

lemma ingest_run_tables: "ingest_inv ae key d \<Longrightarrow> run_tables_ok d"
  by (simp add: ingest_inv_def)

lemma sealed_ok_encrypt:
  "aead_ok ae \<Longrightarrow> encrypt ae key p w = (Inr data, w') \<Longrightarrow> sealed_ok ae key data (mask_token p)"
  by (simp add: sealed_ok_def decrypt_encrypt)

lemma ingest_inv_empty: "ingest_inv ae key empty_db"
  by (simp add: ingest_inv_def run_tables_ok_def forge_tokens_ok_def rows_sound_def empty_db_def)

subsection \<open>Statements\<close>

lemma has_key_not: "\<not> has_key f k xs \<Longrightarrow> distinct (map f xs) \<Longrightarrow> distinct (map f xs @ [k])"
  by (auto simp: has_key_iff)

lemma insert_repo_inv:
  assumes "ingest_inv ae key d" and "insert_repo r d = Inr d'"
    and "aead_ok ae \<Longrightarrow> sealed_ok ae key (rp_token_enc r) (rp_token_masked r)"
  shows "ingest_inv ae key d'"
proof -
  have d': "d' = d\<lparr>t_repos := t_repos d @ [r]\<rparr>" and k: "rp_forge r \<in> {''github'', ''forgejo''}"
    "known_status (rp_status r)" "\<not> has_key rp_id (rp_id r) (t_repos d)" "\<not> has_key repo_key (repo_key r) (t_repos d)"
    using assms(2) by (auto simp: insert_repo_def split: if_splits)
  show ?thesis
    using assms(1,3) k unfolding d' ingest_inv_def run_tables_ok_def forge_tokens_ok_def rows_sound_def
    by (auto simp: has_key_iff refs_in_more_parents repo_sound_def)
qed

lemma update_repo_inv:
  assumes "ingest_inv ae key d" and "update_repo i f d = Some (d', n)"
    and "\<And>r. rp_id (f r) = rp_id r" "\<And>r. repo_key (f r) = repo_key r"
    and "\<And>r. repo_sound ae key r \<Longrightarrow> repo_sound ae key (f r)"
  shows "ingest_inv ae key d'"
proof -
  let ?g = "\<lambda>r. if rp_id r = i then f r else r"
  have d': "d' = d\<lparr>t_repos := map ?g (t_repos d)\<rparr>"
    using assms(2) by (simp add: update_repo_def)
  have g: "rp_id (?g r) = rp_id r" "repo_key (?g r) = repo_key r" for r
    using assms(3,4) by simp_all
  have "list_all (repo_sound ae key) (map ?g xs)" if "list_all (repo_sound ae key) xs" for xs
    using that assms(5) by (induction xs) auto
  with g assms(1) show ?thesis
    unfolding d' ingest_inv_def run_tables_ok_def forge_tokens_ok_def rows_sound_def
    by (simp add: distinct_map_update refs_in_map_parents del: map_map)
qed

lemma refs_in_cascade: "refs_in fk pk (filter (\<lambda>c. fk c \<in> set (map pk ps)) cs) ps"
  by (simp add: refs_in_def list_all_iff)

lemma refs_in_both: "refs_in fk pk cs ps \<Longrightarrow> refs_in fk pk (filter (\<lambda>c. fk c \<noteq> i) cs) (filter (\<lambda>p. pk p \<noteq> i) ps)"
  by (auto simp: refs_in_def list_all_iff)

lemma list_all_filter: "list_all P xs \<Longrightarrow> list_all P (filter Q xs)"
  by (simp add: list_all_iff)

lemma delete_repo_inv:
  assumes "ingest_inv ae key d" and "delete_repo_rows i d = Some (d', n)"
  shows "ingest_inv ae key d'"
proof -
  let ?runs = "filter (\<lambda>r. ru_repo r \<noteq> i) (t_runs d)"
  let ?jobs = "filter (\<lambda>j. jo_run j \<in> set (map ru_id ?runs)) (t_jobs d)"
  have d': "d' = d\<lparr>t_repos := filter (\<lambda>r. rp_id r \<noteq> i) (t_repos d), t_runs := ?runs, t_jobs := ?jobs,
      t_steps := filter (\<lambda>s. st_job s \<in> set (map jo_id ?jobs)) (t_steps d),
      t_quarantines := filter (\<lambda>q. qu_repo q \<noteq> i) (t_quarantines d)\<rparr>"
    using assms(2) by (simp add: delete_repo_rows_def Let_def)
  show ?thesis
    using assms(1) unfolding d' ingest_inv_def run_tables_ok_def forge_tokens_ok_def rows_sound_def
    by (simp add: distinct_map_filter_key refs_in_cascade refs_in_both list_all_filter del: set_map)
qed

lemma upsert_forge_token_inv:
  assumes "ingest_inv ae key d" and "upsert_forge_token t d = Inr (d', i)"
    and "aead_ok ae \<Longrightarrow> token_sound ae key t"
  shows "ingest_inv ae key d'"
proof (cases "find (\<lambda>x. forge_token_key x = forge_token_key t) (t_forge_tokens d)")
  case None
  then have d': "d' = d\<lparr>t_forge_tokens := t_forge_tokens d @ [t]\<rparr>" and k: "\<not> has_key ft_id (ft_id t) (t_forge_tokens d)"
    using assms(2) by (auto simp: upsert_forge_token_def split: if_splits)
  show ?thesis
    using assms(1,3) k None
    unfolding d' ingest_inv_def run_tables_ok_def forge_tokens_ok_def rows_sound_def
    by (auto simp: has_key_iff find_None_iff forge_token_key_def)
next
  case (Some x)
  let ?g = "\<lambda>x. if forge_token_key x = forge_token_key t
    then x\<lparr>ft_enc := ft_enc t, ft_masked := ft_masked t, ft_created_at := ft_created_at t\<rparr> else x"
  have d': "d' = d\<lparr>t_forge_tokens := map ?g (t_forge_tokens d)\<rparr>"
    using assms(2) Some by (simp add: upsert_forge_token_def)
  have "list_all (token_sound ae key) (map ?g xs)" if "aead_ok ae" "list_all (token_sound ae key) xs" for xs
    using assms(3) that by (induction xs) (auto simp: token_sound_def forge_token_key_def)
  moreover have "ft_id (?g x) = ft_id x" "ft_forge (?g x) = ft_forge x" "ft_instance (?g x) = ft_instance x" for x
    by simp_all
  ultimately show ?thesis
    using assms(1) unfolding d' ingest_inv_def run_tables_ok_def forge_tokens_ok_def rows_sound_def
    by (simp add: distinct_map_update del: map_map)
qed

lemma delete_forge_token_inv:
  assumes "ingest_inv ae key d" and "delete_forge_token_row i d = Some (d', n)" shows "ingest_inv ae key d'"
proof -
  have d': "d' = d\<lparr>t_forge_tokens := filter (\<lambda>t. ft_id t \<noteq> i) (t_forge_tokens d)\<rparr>"
    using assms(2) by (simp add: delete_forge_token_row_def)
  show ?thesis
    using assms(1) unfolding d' ingest_inv_def run_tables_ok_def forge_tokens_ok_def rows_sound_def
    by (simp add: distinct_map_filter_key list_all_filter)
qed

lemma update_run_inv:
  assumes "ingest_inv ae key d" and "update_run_row i x d = Some (d', n)"
  shows "ingest_inv ae key d'"
proof -
  let ?g = "\<lambda>r. if ru_id r = i then updated_run x r else r"
  have d': "d' = d\<lparr>t_runs := map ?g (t_runs d)\<rparr>"
    using assms(2) by (simp add: update_run_row_def)
  have "ru_id (?g r) = ru_id r" "run_key (?g r) = run_key r" "ru_repo (?g r) = ru_repo r" for r
    by (simp_all add: updated_run_def run_key_def)
  then show ?thesis
    using assms(1) unfolding d' ingest_inv_def run_tables_ok_def forge_tokens_ok_def rows_sound_def
    by (simp add: distinct_map_update refs_in_map_parents refs_in_map_children del: map_map)
qed

lemma insert_run_inv: "ingest_inv ae key d \<Longrightarrow> insert_run r d = Inr d' \<Longrightarrow> ingest_inv ae key d'"
  by (auto simp: insert_run_def ingest_inv_def run_tables_ok_def forge_tokens_ok_def rows_sound_def
      has_key_iff refs_in_more_parents split: if_splits)

lemma update_job_inv:
  assumes "ingest_inv ae key d" and "update_job_row i x d = Some (d', n)"
  shows "ingest_inv ae key d'"
proof -
  let ?g = "\<lambda>j. if jo_id j = i then updated_job x j else j"
  have d': "d' = d\<lparr>t_jobs := map ?g (t_jobs d)\<rparr>"
    using assms(2) by (simp add: update_job_row_def)
  have "jo_id (?g j) = jo_id j" "job_key (?g j) = job_key j" "jo_run (?g j) = jo_run j" for j
    by (simp_all add: updated_job_def job_key_def)
  then show ?thesis
    using assms(1) unfolding d' ingest_inv_def run_tables_ok_def forge_tokens_ok_def rows_sound_def
    by (simp add: distinct_map_update refs_in_map_parents refs_in_map_children del: map_map)
qed

lemma insert_job_inv: "ingest_inv ae key d \<Longrightarrow> insert_job j d = Inr d' \<Longrightarrow> ingest_inv ae key d'"
  by (auto simp: insert_job_def ingest_inv_def run_tables_ok_def forge_tokens_ok_def rows_sound_def
      has_key_iff refs_in_more_parents split: if_splits)

lemma clear_steps_inv:
  assumes "ingest_inv ae key d" and "clear_steps j d = Some (d', n)" shows "ingest_inv ae key d'"
proof -
  have d': "d' = d\<lparr>t_steps := filter (\<lambda>s. st_job s \<noteq> j) (t_steps d)\<rparr>"
    using assms(2) by (simp add: clear_steps_def)
  show ?thesis
    using assms(1) unfolding d' ingest_inv_def run_tables_ok_def forge_tokens_ok_def rows_sound_def
    by (simp add: distinct_map_filter_key refs_in_filter)
qed

lemma insert_step_inv: "ingest_inv ae key d \<Longrightarrow> insert_step s d = Inr d' \<Longrightarrow> ingest_inv ae key d'"
  by (auto simp: insert_step_def ingest_inv_def run_tables_ok_def forge_tokens_ok_def rows_sound_def
      has_key_iff split: if_splits)

lemma marks_inv:
  assumes "run_tables_ok d \<Longrightarrow> run_tables_ok d'" and "d' = d\<lparr>t_quarantines := qs\<rparr>" and "ingest_inv ae key d"
  shows "ingest_inv ae key d'"
  using assms by (auto simp: ingest_inv_def forge_tokens_ok_def rows_sound_def)

subsection \<open>Methods\<close>

lemma keeps_exec_some: "(\<And>d d' n. P d \<Longrightarrow> stmt d = Some (d', n) \<Longrightarrow> P d') \<Longrightarrow> keeps P (exec_some msg e stmt)"
  unfolding exec_some_def by (auto intro!: keeps_intros keeps_execE)

lemma keeps_bind_run:
  assumes "keeps P m" and "\<And>w x w'. m w = (Inr x, w') \<Longrightarrow> keeps P (f x)"
  shows "keeps P (bindE m f)"
  unfolding keeps_def
proof (intro allI impI)
  fix w :: world assume w: "P (w_db w)"
  obtain r w' where m: "m w = (r, w')" by fastforce
  with w keepsD [OF assms(1), of w] have w': "P (w_db w')" by simp
  show "P (w_db (snd (bindE m f w)))"
  proof (cases r)
    case (Inr x)
    with m keepsD [OF assms(2) w'] show ?thesis by (simp add: bindE_def)
  qed (use m w' in \<open>simp add: bindE_def\<close>)
qed

lemma keeps_create_repo: "keeps (ingest_inv ae key) (sql_create_repo ae key n)"
  unfolding sql_create_repo_def
proof (rule keeps_bind_run)
  fix w sealed w'
  assume "wrapE ''encrypt token'' (encrypt ae key (nr_token n)) w = (Inr sealed, w')"
  then have e: "encrypt ae key (nr_token n) w = (Inr sealed, w')" by simp
  have s: "aead_ok ae \<Longrightarrow> sealed_ok ae key sealed (mask_token (nr_token n))"
    using e by (rule sealed_ok_encrypt [rotated])
  show "keeps (ingest_inv ae key) (bindE (wrapE ''generate webhook secret'' (random_hex 32)) (\<lambda>secret.
     bindE randE (\<lambda>i. bindE nowE (\<lambda>now.
     let row = \<lparr> rp_id = i, rp_forge = nr_forge n, rp_identifier = nr_identifier n,
                 rp_instance = nullable (nr_instance n), rp_token_enc = sealed,
                 rp_token_masked = mask_token (nr_token n), rp_webhook_secret = secret,
                 rp_status = ''pending'', rp_status_reason = None, rp_created_at = now, rp_etag = [] \<rparr>
     in bindE (tryE (insertE (insert_repo row))) (\<lambda>res.
          case res of
            Inr _ \<Rightarrow> retE (scan_repo row)
          | Inl e \<Rightarrow> if e = Constraint UniqueKey then throwE (Sentinel ErrRepoAlreadyTracked)
                     else throwE (wrap_error ''insert repo'' e))))))"
    unfolding random_hex_def rand_bytes_def Let_def
    by (auto intro!: keeps_intros keeps_insertE split: sum.split elim!: insert_repo_inv simp: s)
qed (intro keeps_intros keeps_encrypt)

lemma keeps_save_token: "keeps (ingest_inv ae key) (sql_save_forge_token ae key forge inst token)"
  unfolding sql_save_forge_token_def
proof (rule keeps_bind_run)
  fix w sealed w'
  assume "wrapE ''encrypt token'' (encrypt ae key token) w = (Inr sealed, w')"
  then have e: "encrypt ae key token w = (Inr sealed, w')" by simp
  have "aead_ok ae \<Longrightarrow> sealed_ok ae key sealed (mask_token token)"
    using e by (rule sealed_ok_encrypt [rotated])
  then show "keeps (ingest_inv ae key) (let scope = token_scope forge inst in
     bindE randE (\<lambda>i. bindE nowE (\<lambda>now.
     bindE (wrapE ''save forge token'' (returningE (upsert_forge_token
       \<lparr> ft_id = i, ft_forge = forge, ft_instance = scope, ft_enc = sealed,
         ft_masked = mask_token token, ft_created_at = now \<rparr>))) (\<lambda>stored.
       retE \<lparr> sv_id = stored, sv_forge = forge, sv_instance = scope, sv_masked = mask_token token \<rparr>))))"
    unfolding Let_def
    by (auto intro!: keeps_intros keeps_returningE elim!: upsert_forge_token_inv simp: token_sound_def token_scope_def trim_right_char_def)
qed (intro keeps_intros keeps_encrypt)

lemma keeps_statements:
  "keeps (ingest_inv ae key) (execE (update_run_row i x))"
  "keeps (ingest_inv ae key) (insertE (insert_run r))"
  "keeps (ingest_inv ae key) (execE (update_job_row i y))"
  "keeps (ingest_inv ae key) (insertE (insert_job jr))"
  "keeps (ingest_inv ae key) (execE (clear_steps j))"
  "keeps (ingest_inv ae key) (insertE (insert_step sr))"
  by (rule keeps_execE keeps_insertE; erule (1) update_run_inv insert_run_inv update_job_inv
      insert_job_inv clear_steps_inv insert_step_inv)+

lemma set_status_inv:
  assumes "ingest_inv ae key d" and "set_status_row i s reason d = Some (d', n)"
  shows "ingest_inv ae key d'"
proof (cases "has_key rp_id i (t_repos d)")
  case True
  then have "known_status s" and "update_repo i (\<lambda>r. r\<lparr>rp_status := s, rp_status_reason := nullable reason\<rparr>) d = Some (d', n)"
    using assms(2) by (auto simp: set_status_row_def split: if_splits)
  with assms(1) show ?thesis
    by - (rule update_repo_inv, assumption+, simp_all add: repo_key_def repo_sound_def)
next
  case False
  then have "t_repos d = map (\<lambda>r. if rp_id r = i then r\<lparr>rp_status := s, rp_status_reason := nullable reason\<rparr> else r) (t_repos d)"
    by (intro map_idI [symmetric]) (auto simp: has_key_iff)
  then have "d' = d" using assms(2) False by (simp add: set_status_row_def update_repo_def)
  with assms(1) show ?thesis by simp
qed

lemma set_etag_inv:
  "ingest_inv ae key d \<Longrightarrow> update_repo i (\<lambda>r. r\<lparr>rp_etag := e\<rparr>) d = Some (d', n) \<Longrightarrow> ingest_inv ae key d'"
  by (rule update_repo_inv, assumption+, simp_all add: repo_key_def repo_sound_def)

text \<open>The SQLite adapter keeps the contract.\<close>

interpretation sql_ingest: ingest_store "sql_rstore ae key" sql_runstore "ingest_inv ae key" for ae key
proof (unfold_locales, unfold sql_rstore_def rstore.simps sql_runstore_def runstore.simps)
  fix P flt i f u
  show "keeps P (sql_list_repos flt)"
    unfolding sql_list_repos_def by (intro keeps_intros)
  show "keeps P (sql_get_repo i)"
    by (auto simp: sql_get_repo_def intro!: keeps_intros split: option.split)
  show "keeps P (sql_repo_token ae key i)"
    by (auto simp: sql_repo_token_def intro!: keeps_intros split: option.split)
  show "keeps P (sql_list_identifiers f u)"
    unfolding sql_list_identifiers_def by (intro keeps_intros)
  show "keeps P (sql_repo_by_identifier f i)"
    by (auto simp: sql_repo_by_identifier_def intro!: keeps_intros split: option.split)
  show "keeps P (sql_run_states i)"
    unfolding sql_run_states_def by (intro keeps_intros)
next
  fix n i s reason e x y j ss
  show "keeps (ingest_inv ae key) (sql_create_repo ae key n)" by (rule keeps_create_repo)
  show "keeps (ingest_inv ae key) (sql_delete_repo i)"
    unfolding sql_delete_repo_def by (rule keeps_exec_some) (rule delete_repo_inv)
  show "keeps (ingest_inv ae key) (sql_set_status i s reason)"
    unfolding sql_set_status_def by (rule keeps_exec_some) (rule set_status_inv)
  show "keeps (ingest_inv ae key) (sql_set_etag i e)"
    unfolding sql_set_etag_def by (rule keeps_exec_some) (rule set_etag_inv)
  show "keeps (ingest_inv ae key) (sql_upsert_run x)"
    unfolding sql_upsert_run_def find_id_def by (auto intro!: keeps_intros keeps_statements)
  show "keeps (ingest_inv ae key) (sql_upsert_job y)"
    unfolding sql_upsert_job_def find_id_def by (auto intro!: keeps_intros keeps_statements)
  show "keeps (ingest_inv ae key) (sql_replace_steps j ss)"
    unfolding sql_replace_steps_def sql_insert_step_def by (intro keeps_intros keeps_statements)
qed

end
