(* ===== verification/History.thy ===== *)
theory History
  imports IngestionFacts
begin

text \<open>
  What the run tables stand for: the history of every tracked repository by the forge's own
  names, without the ids the store hands out. Storing a snapshot, statement by statement
  over three tables, is one update of that history.
\<close>

record history =
  hi_runs :: "string \<times> string \<Rightarrow> run_row option"
  hi_jobs :: "(string \<times> string) \<times> string \<Rightarrow> job_row option"
  hi_steps :: "(string \<times> string) \<times> string \<Rightarrow> step_row list"

definition find_run :: "string \<times> string \<Rightarrow> db \<Rightarrow> run_row option" where
  "find_run k d = find (\<lambda>r. run_key r = k) (t_runs d)"

definition find_job :: "(string \<times> string) \<times> string \<Rightarrow> db \<Rightarrow> job_row option" where
  "find_job k d =
     (case find_run (fst k) d of None \<Rightarrow> None
      | Some r \<Rightarrow> find (\<lambda>j. job_key j = (ru_id r, snd k)) (t_jobs d))"

definition history_of :: "db \<Rightarrow> history" where
  "history_of d =
     \<lparr> hi_runs = \<lambda>k. map_option (\<lambda>r. r\<lparr>ru_id := []\<rparr>) (find_run k d),
       hi_jobs = \<lambda>k. map_option (\<lambda>j. j\<lparr>jo_id := [], jo_run := []\<rparr>) (find_job k d),
       hi_steps = \<lambda>k. case find_job k d of None \<Rightarrow> []
         | Some j \<Rightarrow> map (\<lambda>s. s\<lparr>st_id := [], st_job := []\<rparr>) (filter (\<lambda>s. st_job s = jo_id j) (t_steps d)) \<rparr>"

subsection \<open>Updates of the history\<close>

text \<open>A run already known keeps the commit metadata the update leaves out.\<close>

definition put_run :: "run_data \<Rightarrow> history \<Rightarrow> history" where
  "put_run x h =
     (let k = (rnd_repo x, rnd_forge_run x)
      in h\<lparr>hi_runs := (hi_runs h)(k := Some (case hi_runs h k of
             None \<Rightarrow> new_run_row [] x | Some r \<Rightarrow> updated_run x r))\<rparr>)"

definition put_job :: "(string \<times> string) \<times> string \<Rightarrow> job_data \<Rightarrow> history \<Rightarrow> history" where
  "put_job k x h =
     h\<lparr>hi_jobs := (hi_jobs h)(k := Some (case hi_jobs h k of
        None \<Rightarrow> (new_job_row [] x)\<lparr>jo_run := []\<rparr> | Some j \<Rightarrow> updated_job x j))\<rparr>"

definition put_steps :: "(string \<times> string) \<times> string \<Rightarrow> step_data list \<Rightarrow> history \<Rightarrow> history" where
  "put_steps k ss h = h\<lparr>hi_steps := (hi_steps h)(k := map (new_step_row [] []) ss)\<rparr>"

definition record_job :: "string \<times> string \<Rightarrow> job_snapshot \<Rightarrow> history \<Rightarrow> history" where
  "record_job k s h =
     put_steps (k, jsn_forge_job s) (map step_of_snapshot (jsn_steps s))
       (put_job (k, jsn_forge_job s) (job_of_snapshot [] s) h)"

definition record_snapshot :: "string \<Rightarrow> run_snapshot \<Rightarrow> history \<Rightarrow> history" where
  "record_snapshot repo_id s h =
     fold (record_job (repo_id, rsn_forge_run s)) (rsn_jobs s) (put_run (run_of_snapshot repo_id s) h)"

subsection \<open>Keys name rows\<close>

lemma find_run_mem: "find_run k d = Some r \<Longrightarrow> r \<in> set (t_runs d) \<and> run_key r = k"
  by (auto simp: find_run_def dest: find_mem)

lemma find_job_mem:
  "find_job k d = Some j \<Longrightarrow>
   \<exists>r. find_run (fst k) d = Some r \<and> j \<in> set (t_jobs d) \<and> job_key j = (ru_id r, snd k)"
  by (auto simp: find_job_def split: option.splits dest: find_mem)

lemma same_run:
  assumes "run_tables_ok d" "find_run k d = Some r" "find_run k' d = Some r'"
  shows "ru_id r = ru_id r' \<longleftrightarrow> k = k'"
proof
  assume i: "ru_id r = ru_id r'"
  have "distinct (map ru_id (t_runs d))" using assms(1) by (simp add: run_tables_ok_def)
  then have "r = r'"
    using find_run_mem [OF assms(2)] find_run_mem [OF assms(3)] i by (blast intro: distinct_key_inj)
  then show "k = k'" using find_run_mem [OF assms(2)] find_run_mem [OF assms(3)] by auto
qed (use assms in auto)

lemma same_job:
  assumes "run_tables_ok d" "find_job k d = Some j" "find_job k' d = Some j'"
  shows "jo_id j = jo_id j' \<longleftrightarrow> k = k'"
proof
  assume i: "jo_id j = jo_id j'"
  obtain r r' where r: "find_run (fst k) d = Some r" "find_run (fst k') d = Some r'"
      "j \<in> set (t_jobs d)" "j' \<in> set (t_jobs d)" "job_key j = (ru_id r, snd k)" "job_key j' = (ru_id r', snd k')"
    using find_job_mem assms(2,3) by metis
  have "distinct (map jo_id (t_jobs d))" using assms(1) by (simp add: run_tables_ok_def)
  then have "j = j'" using r(3,4) i by (rule distinct_key_inj)
  with r(5,6) have "ru_id r = ru_id r'" "snd k = snd k'" by auto
  with same_run [OF assms(1) r(1,2)] show "k = k'" by (simp add: prod_eq_iff)
qed (use assms in auto)

lemma no_jobs_of: "run_tables_ok d \<Longrightarrow> i \<notin> ru_id ` set (t_runs d) \<Longrightarrow> find (\<lambda>j. job_key j = (i, n)) (t_jobs d) = None"
  by (auto simp: run_tables_ok_def refs_in_def list_all_iff find_None_iff job_key_def)

lemma no_steps_of: "run_tables_ok d \<Longrightarrow> i \<notin> jo_id ` set (t_jobs d) \<Longrightarrow> filter (\<lambda>s. st_job s = i) (t_steps d) = []"
  by (auto simp: run_tables_ok_def refs_in_def list_all_iff filter_empty_conv)

subsection \<open>Runs\<close>

lemma find_id_Inr: "find_id sel w = (Inr i, w') \<Longrightarrow> i = text_of (sel (w_db w)) \<and> w_db w' = w_db w"
  by (auto simp: find_id_def bindE_eq_Inr dest: query_rowE_Inr)

lemma update_run_history:
  assumes ok: "run_tables_ok d" and r: "find_run (rnd_repo x, rnd_forge_run x) d = Some r"
    and u: "update_run_row (ru_id r) x d = Some (d', n)"
  shows "history_of d' = put_run x (history_of d) \<and>
    (\<exists>r'. find_run (rnd_repo x, rnd_forge_run x) d' = Some r' \<and> ru_id r' = ru_id r)"
proof -
  let ?k = "(rnd_repo x, rnd_forge_run x)" and ?g = "\<lambda>y. if ru_id y = ru_id r then updated_run x y else y"
  have d': "d' = d\<lparr>t_runs := map ?g (t_runs d)\<rparr>" using u by (simp add: update_run_row_def)
  then have same: "t_jobs d' = t_jobs d" "t_steps d' = t_steps d" by simp_all
  have keys: "run_key (?g y) = run_key y" "ru_id (?g y) = ru_id y" for y
    by (simp_all add: updated_run_def run_key_def)
  have f: "find_run k d' = map_option ?g (find_run k d)" for k
    unfolding find_run_def d' by (simp add: find_map_key [where key = run_key, OF keys(1)])
  have j: "find_job k d' = find_job k d" for k
    by (cases "find_run (fst k) d") (simp_all add: find_job_def f keys(2) same)
  have "map_option (\<lambda>y. y\<lparr>ru_id := []\<rparr>) (find_run k d') =
      (if k = ?k then Some (updated_run x (r\<lparr>ru_id := []\<rparr>)) else map_option (\<lambda>y. y\<lparr>ru_id := []\<rparr>) (find_run k d))" for k
    using r same_run [OF ok _ r, of k] by (cases "find_run k d") (auto simp: f updated_run_def)
  then have "hi_runs (history_of d') = hi_runs (put_run x (history_of d))"
    by (auto simp: history_of_def put_run_def Let_def r fun_eq_iff)
  moreover have "find_run ?k d' = Some (?g r)" using f r by simp
  ultimately show ?thesis
    using keys(2) [of r] by (simp add: history_of_def put_run_def Let_def j same cong: option.case_cong)
qed

lemma insert_run_history:
  assumes ok: "run_tables_ok d" and u: "insert_run (new_run_row i x) d = Inr d'"
  shows "history_of d' = put_run x (history_of d) \<and>
    (\<exists>r'. find_run (rnd_repo x, rnd_forge_run x) d' = Some r' \<and> ru_id r' = i)"
proof -
  let ?k = "(rnd_repo x, rnd_forge_run x)" and ?r = "new_run_row i x"
  have d': "d' = d\<lparr>t_runs := t_runs d @ [?r]\<rparr>" and fresh: "i \<notin> ru_id ` set (t_runs d)" "?k \<notin> run_key ` set (t_runs d)"
    using u by (auto simp: insert_run_def has_key_iff new_run_row_def run_key_def split: if_splits)
  then have same: "t_jobs d' = t_jobs d" "t_steps d' = t_steps d" by simp_all
  have k: "run_key ?r = ?k" "ru_id ?r = i" by (simp_all add: new_run_row_def run_key_def)
  have none: "find_run ?k d = None"
    unfolding find_run_def find_None_iff using fresh(2) by (metis image_eqI)
  have f: "find_run k' d' = (if k' = ?k then Some ?r else find_run k' d)" for k'
    using none by (auto simp: find_run_def d' find_append k split: option.split)
  have j: "find_job k' d' = find_job k' d" for k'
    by (cases "fst k' = ?k") (simp_all add: find_job_def f none k(2) no_jobs_of [OF ok fresh(1)] same
      cong: option.case_cong)
  have "hi_runs (history_of d') = hi_runs (put_run x (history_of d))"
    by (auto simp: history_of_def put_run_def Let_def f none fun_eq_iff new_run_row_def)
  with f k(2) show ?thesis by (simp add: history_of_def put_run_def Let_def j same cong: option.case_cong)
qed

lemma upsert_run_history:
  assumes "run_tables_ok (w_db w)" and "sql_upsert_run x w = (Inr y, w')"
  shows "history_of (w_db w') = put_run x (history_of (w_db w)) \<and>
    (\<exists>r. find_run (rnd_repo x, rnd_forge_run x) (w_db w') = Some r \<and> ru_id r = rnd_id y)"
proof -
  obtain i w1 where i: "i = text_of (run_id_of (rnd_repo x) (rnd_forge_run x) (w_db w))" "w_db w1 = w_db w"
    and rest: "(if i \<noteq> [] then bindE (wrapE ''update run'' (execE (update_run_row i x))) (\<lambda>_. retE (x\<lparr>rnd_id := i\<rparr>))
      else bindE randE (\<lambda>i. bindE (wrapE ''insert run'' (insertE (insert_run (new_run_row i x)))) (\<lambda>_. retE (x\<lparr>rnd_id := i\<rparr>)))) w1 = (Inr y, w')"
    using assms(2) by (auto simp: sql_upsert_run_def bindE_eq_Inr dest!: find_id_Inr)
  show ?thesis
  proof (cases "i = []")
    case False
    then obtain r where r: "find_run (rnd_repo x, rnd_forge_run x) (w_db w) = Some r" "ru_id r = i"
      using i(1) by (auto simp: run_id_of_def find_run_def text_of_def split: option.splits)
    obtain n d' where "update_run_row i x (w_db w) = Some (d', n)" "w_db w' = d'" "y = x\<lparr>rnd_id := i\<rparr>"
      using rest False i(2) by (auto simp: bindE_eq_Inr dest!: execE_Inr)
    with update_run_history [OF assms(1) r(1)] r(2) show ?thesis by auto
  next
    case True
    then have "insert_run (new_run_row (rnd_id y) x) (w_db w) = Inr (w_db w')"
      using rest i(2) by (auto simp: bindE_eq_Inr dest!: insertE_Inr randE_db)
    with insert_run_history [OF assms(1)] show ?thesis by auto
  qed
qed

subsection \<open>Jobs\<close>

lemma update_job_history:
  assumes ok: "run_tables_ok d" and r: "find_run k d = Some r" "ru_id r = jd_run x"
    and j: "find_job (k, jd_forge_job x) d = Some j"
    and u: "update_job_row (jo_id j) x d = Some (d', n)"
  shows "history_of d' = put_job (k, jd_forge_job x) x (history_of d) \<and> find_run k d' = Some r \<and>
    (\<exists>j'. find_job (k, jd_forge_job x) d' = Some j' \<and> jo_id j' = jo_id j)"
proof -
  let ?k = "(k, jd_forge_job x)" and ?g = "\<lambda>y. if jo_id y = jo_id j then updated_job x y else y"
  have d': "d' = d\<lparr>t_jobs := map ?g (t_jobs d)\<rparr>" using u by (simp add: update_job_row_def)
  then have same: "find_run k' d' = find_run k' d" "t_steps d' = t_steps d" "t_jobs d' = map ?g (t_jobs d)" for k'
    by (simp_all add: find_run_def)
  have keys: "job_key (?g y) = job_key y" "jo_id (?g y) = jo_id y" for y
    by (simp_all add: updated_job_def job_key_def)
  have f: "find_job k' d' = map_option ?g (find_job k' d)" for k'
    by (cases "find_run (fst k') d") (simp_all add: find_job_def same find_map_key [where key = job_key, OF keys(1)])
  have "map_option (\<lambda>y. y\<lparr>jo_id := [], jo_run := []\<rparr>) (find_job k' d') =
      (if k' = ?k then Some (updated_job x (j\<lparr>jo_id := [], jo_run := []\<rparr>))
       else map_option (\<lambda>y. y\<lparr>jo_id := [], jo_run := []\<rparr>) (find_job k' d))" for k'
    using j same_job [OF ok _ j, of k'] by (cases "find_job k' d") (auto simp: f updated_job_def)
  then have "hi_jobs (history_of d') = hi_jobs (put_job ?k x (history_of d))"
    by (auto simp: history_of_def put_job_def j fun_eq_iff)
  moreover have "hi_steps (history_of d') k' = hi_steps (history_of d) k'" for k'
    using keys(2) by (cases "find_job k' d") (simp_all add: history_of_def f same)
  then have "hi_steps (history_of d') = hi_steps (history_of d)" ..
  moreover have "find_job ?k d' = Some (?g j)" using f j by simp
  ultimately show ?thesis
    using keys(2) [of j] r(1) same(1) by (simp add: history_of_def put_job_def)
qed

lemma insert_job_history:
  assumes ok: "run_tables_ok d" and r: "find_run k d = Some r" "ru_id r = jd_run x"
    and u: "insert_job (new_job_row i x) d = Inr d'"
  shows "history_of d' = put_job (k, jd_forge_job x) x (history_of d) \<and> find_run k d' = Some r \<and>
    (\<exists>j'. find_job (k, jd_forge_job x) d' = Some j' \<and> jo_id j' = i)"
proof -
  let ?k = "(k, jd_forge_job x)" and ?j = "new_job_row i x"
  have d': "d' = d\<lparr>t_jobs := t_jobs d @ [?j]\<rparr>" and fresh: "i \<notin> jo_id ` set (t_jobs d)"
      "(jd_run x, jd_forge_job x) \<notin> job_key ` set (t_jobs d)"
    using u by (auto simp: insert_job_def has_key_iff new_job_row_def job_key_def split: if_splits)
  then have same: "find_run k' d' = find_run k' d" "t_steps d' = t_steps d" "t_jobs d' = t_jobs d @ [?j]" for k'
    by (simp_all add: find_run_def)
  have key: "job_key ?j = (jd_run x, jd_forge_job x)" "jo_id ?j = i" by (simp_all add: new_job_row_def job_key_def)
  have none: "find_job ?k d = None"
    using fresh(2) by (auto simp: find_job_def r find_None_iff intro: rev_image_eqI)
  have f: "find_job k' d' = (if k' = ?k then Some ?j else find_job k' d)" for k'
  proof (cases "find_run (fst k') d")
    case None
    then show ?thesis using r by (auto simp: find_job_def same)
  next
    case (Some r')
    have "ru_id r' = jd_run x \<longleftrightarrow> fst k' = k" using same_run [OF ok Some r(1)] r(2) by simp
    then have key': "(jd_run x, jd_forge_job x) = (ru_id r', snd k') \<longleftrightarrow> k' = ?k" by (cases k') auto
    have "find_job k' d' = (case find_job k' d of None \<Rightarrow> if k' = ?k then Some ?j else None | Some y \<Rightarrow> Some y)"
      by (simp only: find_job_def same Some option.case find_append find.simps key key')
    then show ?thesis using none by (simp split: option.split)
  qed
  have "hi_jobs (history_of d') = hi_jobs (put_job ?k x (history_of d))"
    by (auto simp: history_of_def put_job_def f none fun_eq_iff new_job_row_def)
  moreover have "hi_steps (history_of d') k' = hi_steps (history_of d) k'" for k'
    using no_steps_of [OF ok fresh(1)] none
    by (cases "k' = ?k") (simp_all add: history_of_def f same key cong: option.case_cong)
  then have "hi_steps (history_of d') = hi_steps (history_of d)" ..
  ultimately show ?thesis
    using f r(1) key same(1) by (simp add: history_of_def put_job_def)
qed

lemma upsert_job_history:
  assumes "run_tables_ok (w_db w)" and r: "find_run k (w_db w) = Some r" "ru_id r = jd_run x"
    and "sql_upsert_job x w = (Inr y, w')"
  shows "history_of (w_db w') = put_job (k, jd_forge_job x) x (history_of (w_db w)) \<and>
    find_run k (w_db w') = Some r \<and>
    (\<exists>j. find_job (k, jd_forge_job x) (w_db w') = Some j \<and> jo_id j = jd_id y)"
proof -
  obtain i w1 where i: "i = text_of (job_id_of (jd_run x) (jd_forge_job x) (w_db w))" "w_db w1 = w_db w"
    and rest: "(if i \<noteq> [] then bindE (wrapE ''update job'' (execE (update_job_row i x))) (\<lambda>_. retE (x\<lparr>jd_id := i\<rparr>))
      else bindE randE (\<lambda>i. bindE (wrapE ''insert job'' (insertE (insert_job (new_job_row i x)))) (\<lambda>_. retE (x\<lparr>jd_id := i\<rparr>)))) w1 = (Inr y, w')"
    using assms(4) by (auto simp: sql_upsert_job_def bindE_eq_Inr dest!: find_id_Inr)
  show ?thesis
  proof (cases "i = []")
    case False
    then obtain j where j: "find_job (k, jd_forge_job x) (w_db w) = Some j" "jo_id j = i"
      using i(1) r by (auto simp: job_id_of_def find_job_def text_of_def split: option.splits)
    obtain n d' where "update_job_row i x (w_db w) = Some (d', n)" "w_db w' = d'" "jd_id y = i"
      using rest False i(2) by (auto simp: bindE_eq_Inr dest!: execE_Inr)
    with update_job_history [OF assms(1) r j(1)] j(2) show ?thesis by auto
  next
    case True
    then have "insert_job (new_job_row (jd_id y) x) (w_db w) = Inr (w_db w')"
      using rest i(2) by (auto simp: bindE_eq_Inr dest!: insertE_Inr randE_db)
    with insert_job_history [OF assms(1) r] show ?thesis by auto
  qed
qed

subsection \<open>Steps\<close>

lemma insert_steps_rows:
  "forE steps (sql_insert_step job) w = (Inr u, w') \<Longrightarrow>
   \<exists>rows. w_db w' = (w_db w)\<lparr>t_steps := t_steps (w_db w) @ rows\<rparr> \<and> list_all (\<lambda>s. st_job s = job) rows \<and>
     map (\<lambda>s. s\<lparr>st_id := [], st_job := []\<rparr>) rows = map (new_step_row [] []) steps"
proof (induction steps arbitrary: w)
  case Nil
  then show ?case by (intro exI [of _ "[]"]) (simp add: retE_def)
next
  case (Cons s steps)
  then obtain w1 u1 where 1: "sql_insert_step job s w = (Inr u1, w1)"
    and 2: "forE steps (sql_insert_step job) w1 = (Inr u, w')"
    by (auto simp: thenE_def bindE_eq_Inr)
  obtain i where "insert_step (new_step_row i job s) (w_db w) = Inr (w_db w1)"
    using 1 by (auto simp: sql_insert_step_def bindE_eq_Inr dest!: insertE_Inr randE_db)
  then have d1: "w_db w1 = (w_db w)\<lparr>t_steps := t_steps (w_db w) @ [new_step_row i job s]\<rparr>"
    by (auto simp: insert_step_def split: if_splits)
  from Cons.IH [OF 2] obtain rows where
    "w_db w' = (w_db w1)\<lparr>t_steps := t_steps (w_db w1) @ rows\<rparr>" "list_all (\<lambda>s. st_job s = job) rows"
    "map (\<lambda>s. s\<lparr>st_id := [], st_job := []\<rparr>) rows = map (new_step_row [] []) steps" by blast
  with d1 show ?case
    by (intro exI [of _ "new_step_row i job s # rows"]) (simp add: new_step_row_def)
qed

lemma replace_steps_history:
  assumes ok: "run_tables_ok (w_db w)" and j: "find_job k (w_db w) = Some j"
    and s: "sql_replace_steps (jo_id j) ss w = (Inr u, w')"
  shows "history_of (w_db w') = put_steps k ss (history_of (w_db w)) \<and>
    t_runs (w_db w') = t_runs (w_db w)"
proof -
  let ?d = "w_db w" and ?d' = "w_db w'" and ?blank = "\<lambda>s. s\<lparr>st_id := [], st_job := []\<rparr>"
  obtain rows where d': "?d' = ?d\<lparr>t_steps := filter (\<lambda>s. st_job s \<noteq> jo_id j) (t_steps ?d) @ rows\<rparr>"
    and rows: "list_all (\<lambda>s. st_job s = jo_id j) rows" "map ?blank rows = map (new_step_row [] []) ss"
  proof -
    obtain w1 w2 where tx: "w_db w1 = ?d" "w_db w' = w_db w2"
      "bindE (wrapE ''clear steps'' (execE (clear_steps (jo_id j)))) (\<lambda>_. forE ss (sql_insert_step (jo_id j))) w1 = (Inr u, w2)"
      using txE_Inr [OF s [unfolded sql_replace_steps_def]] by auto
    then obtain n w3 where "execE (clear_steps (jo_id j)) w1 = (Inr n, w3)" "forE ss (sql_insert_step (jo_id j)) w3 = (Inr u, w2)"
      by (auto simp: bindE_eq_Inr)
    then have "w_db w3 = ?d\<lparr>t_steps := filter (\<lambda>s. st_job s \<noteq> jo_id j) (t_steps ?d)\<rparr>"
        "forE ss (sql_insert_step (jo_id j)) w3 = (Inr u, w2)"
      using tx(1) by (auto simp: clear_steps_def dest!: execE_Inr)
    with insert_steps_rows [OF this(2)] tx(2) that show thesis by auto
  qed
  have same: "find_run k' ?d' = find_run k' ?d" "find_job jk ?d' = find_job jk ?d" for k' jk
    by (simp_all add: d' find_run_def find_job_def cong: option.case_cong)
  have steps: "t_steps ?d' = filter (\<lambda>s. st_job s \<noteq> jo_id j) (t_steps ?d) @ rows" by (simp add: d')
  have "hi_steps (history_of ?d') k' = hi_steps (put_steps k ss (history_of ?d)) k'" for k'
  proof (cases "k' = k")
    case True
    with rows show ?thesis by (simp add: history_of_def put_steps_def same j steps list_all_iff filter_id_conv)
  next
    case False
    then have "jo_id j' \<noteq> jo_id j" if "find_job k' ?d = Some j'" for j'
      using same_job [OF ok that j] by simp
    with rows(1) False show ?thesis
      by (cases "find_job k' ?d")
        (auto simp: history_of_def put_steps_def same steps list_all_iff filter_empty_conv intro!: filter_cong arg_cong [where f = "map ?blank"])
  qed
  then have "hi_steps (history_of ?d') = hi_steps (put_steps k ss (history_of ?d))" ..
  then show ?thesis by (simp add: history_of_def put_steps_def same) (simp add: d')
qed

subsection \<open>Snapshots\<close>

lemma put_job_snapshot: "put_job k (job_of_snapshot run s) h = put_job k (job_of_snapshot [] s) h"
  by (cases "hi_jobs h k") (simp_all add: put_job_def new_job_row_def updated_job_def job_of_snapshot_def)

lemma store_job_history:
  assumes inv: "ingest_inv ae key (w_db w)" and r: "find_run k (w_db w) = Some r"
    and s: "store_job_snapshot sql_runstore (ru_id r) s w = (Inr u, w')"
  shows "history_of (w_db w') = record_job k s (history_of (w_db w)) \<and> find_run k (w_db w') = Some r"
proof -
  let ?x = "job_of_snapshot (ru_id r) s" and ?k = "(k, jsn_forge_job s)"
  have x: "jd_run ?x = ru_id r" "jd_forge_job ?x = jsn_forge_job s" by (simp_all add: job_of_snapshot_def)
  obtain y w1 where 1: "sql_upsert_job ?x w = (Inr y, w1)"
    and 2: "sql_replace_steps (jd_id y) (map step_of_snapshot (jsn_steps s)) w1 = (Inr u, w')"
    using s by (auto simp: store_job_snapshot_def sql_runstore_def bindE_eq_Inr)
  note up = upsert_job_history [OF ingest_run_tables [OF inv] r x(1) [symmetric] 1, unfolded x(2)]
  have j: "history_of (w_db w1) = put_job ?k ?x (history_of (w_db w))" "find_run k (w_db w1) = Some r"
    and "\<exists>j. find_job ?k (w_db w1) = Some j \<and> jo_id j = jd_id y"
    using up by simp_all
  then obtain j where jj: "find_job ?k (w_db w1) = Some j" "jo_id j = jd_id y" by blast
  have "run_tables_ok (w_db w1)"
    using keepsD [OF sql_ingest.keeps_job [of ae key ?x], of w] inv 1
    by (simp add: sql_runstore_def ingest_inv_def)
  note rep = replace_steps_history [OF this jj(1), unfolded jj(2), OF 2]
  have "history_of (w_db w') = put_steps ?k (map step_of_snapshot (jsn_steps s)) (history_of (w_db w1))"
    "t_runs (w_db w') = t_runs (w_db w1)" using rep by simp_all
  with j show ?thesis by (simp add: record_job_def put_job_snapshot [of ?k "ru_id r"] find_run_def)
qed

lemma store_jobs_history:
  assumes "ingest_inv ae key (w_db w)" and "find_run k (w_db w) = Some r"
    and "forE ss (store_job_snapshot sql_runstore (ru_id r)) w = (Inr u, w')"
  shows "history_of (w_db w') = fold (record_job k) ss (history_of (w_db w))"
  using assms
proof (induction ss arbitrary: w)
  case (Cons s ss)
  then obtain w1 u1 where 1: "store_job_snapshot sql_runstore (ru_id r) s w = (Inr u1, w1)"
    and 2: "forE ss (store_job_snapshot sql_runstore (ru_id r)) w1 = (Inr u, w')"
    by (auto simp: thenE_def bindE_eq_Inr)
  have inv: "ingest_inv ae key (w_db w1)"
    using keepsD [OF sql_ingest.job_snapshot_keeps [of ae key "ru_id r" s], of w] Cons.prems(1) 1 by simp
  show ?case
    using Cons.IH [OF inv _ 2] store_job_history [OF Cons.prems(1,2) 1] by simp
qed simp

lemma store_snapshot_history:
  assumes "ingest_inv ae key (w_db w)" and "store_run_snapshot sql_runstore r s w = (Inr (), w')"
  shows "history_of (w_db w') = record_snapshot (tr_id r) s (history_of (w_db w)) \<and> ingest_inv ae key (w_db w')"
proof -
  let ?x = "run_of_snapshot (tr_id r) s" and ?k = "(tr_id r, rsn_forge_run s)"
  have x: "(rnd_repo ?x, rnd_forge_run ?x) = ?k" by (simp add: run_of_snapshot_def)
  obtain y w1 where 1: "sql_upsert_run ?x w = (Inr y, w1)"
    and 2: "forE (rsn_jobs s) (store_job_snapshot sql_runstore (rnd_id y)) w1 = (Inr (), w')"
    using assms(2) by (auto simp: store_run_snapshot_def sql_runstore_def bindE_eq_Inr)
  obtain row where h: "history_of (w_db w1) = put_run ?x (history_of (w_db w))"
    and row: "find_run ?k (w_db w1) = Some row" "ru_id row = rnd_id y"
    using upsert_run_history [OF ingest_run_tables [OF assms(1)] 1] x by auto
  have inv: "ingest_inv ae key (w_db w1)"
    using keepsD [OF sql_ingest.keeps_run [of ae key ?x], of w] assms(1) 1 by (simp add: sql_runstore_def)
  have "ingest_inv ae key (w_db w')"
    using keepsD [OF sql_ingest.snapshot_keeps [of ae key r s], of w] assms by simp
  with store_jobs_history [OF inv row(1), of "rsn_jobs s" "()" w'] 2 row(2) h show ?thesis
    by (simp add: record_snapshot_def)
qed

text \<open>
  C40: the upserts of a run, of its jobs one by one, and the replacement of each job's steps
  in a transaction of its own, are together one update of the history: the run, its jobs and
  their steps read as the snapshot says, commit metadata the snapshot leaves out and jobs it
  does not name are as they were, and nothing else in the history changes.
\<close>

theorem store_snapshot_refines:
  assumes "ingest_inv ae key (w_db w)" and "store_run_snapshot sql_runstore r s w = (Inr (), w')"
  shows "history_of (w_db w') = record_snapshot (tr_id r) s (history_of (w_db w)) \<and> ingest_inv ae key (w_db w')"
  using assms by (rule store_snapshot_history)

end
