(* ===== verification/IngestionOps.thy ===== *)
theory IngestionOps
  imports History
begin

text \<open>
  Ingestion end to end: the services over the SQLite adapter and the two forge clients as a
  transition system on the database, the history the tables stand for, and what
  registration, removal, reconciliation and webhooks do to it.
\<close>

subsection \<open>The transition system\<close>

lemma keeps_marks:
  "keeps (ingest_inv ae key) (ms_quarantine sql_mstore k note now)"
  "keeps (ingest_inv ae key) (ms_unquarantine sql_mstore k)"
proof -
  have "ingest_inv ae key d'" if "ingest_inv ae key d" "upsert_quarantine q d = Some (d', n)" for q d d' n
    using that upsert_ok [OF _ that(2)]
    by (auto simp: ingest_inv_def forge_tokens_ok_def rows_sound_def upsert_quarantine_def split: if_splits)
  then show "keeps (ingest_inv ae key) (ms_quarantine sql_mstore k note now)"
    by (simp add: sql_mstore_def sql_quarantine_step_def Let_def)
      (rule keeps_bindE keeps_wrapE keeps_execE keeps_retE | assumption)+
  have "ingest_inv ae key d'" if "ingest_inv ae key d" "delete_quarantine k d = Some (d', n)" for d d' n
    using that delete_ok [OF _ that(2)]
    by (auto simp: ingest_inv_def forge_tokens_ok_def rows_sound_def delete_quarantine_def Let_def)
  then show "keeps (ingest_inv ae key) (ms_unquarantine sql_mstore k)"
    by (simp add: sql_mstore_def sql_unquarantine_step_def)
      (rule keeps_bindE keeps_wrapE keeps_execE keeps_retE | assumption)+
qed

interpretation sql_marks: metrics_store sql_mstore "ingest_inv ae key" quarantine_marks for ae key
  by unfold_locales
    (blast intro: sql.reads | erule (1) sql.runs_in_window
      | (rule sql.active_is sql.quarantine_is sql.unquarantine_is, erule ingest_run_tables, assumption)
      | erule sql.failed_write | rule keeps_marks)+

text \<open>
  One step is one operation, run in any world with this database: any placement of faults,
  any clock, any random source, any answer of the forges.
\<close>

inductive ingest_step :: "aead \<Rightarrow> string \<Rightarrow> github_client \<Rightarrow> forgejo_client \<Rightarrow> db \<Rightarrow> db \<Rightarrow> bool"
  for ae :: aead and key :: string and g :: github_client and f :: forgejo_client where
  step_register: "ingest_step ae key g f (w_db w) (w_db (snd (register (sql_rstore ae key) (forge_clients g f) url n w)))"
| step_delete: "ingest_step ae key g f (w_db w) (w_db (snd (sql_delete_repo i w)))"
| step_github_event: "ingest_step ae key g f (w_db w) (w_db (snd (process_github_event dr dj sql_runstore r event payload w)))"
| step_forgejo_event: "ingest_step ae key g f (w_db w)
    (w_db (snd (process_forgejo_event (reconcile_repo (sql_rstore ae key) sql_runstore (forge_clients g f)) r event w)))"
| step_reconcile: "ingest_step ae key g f (w_db w)
    (w_db (snd (reconcile_all (sql_rstore ae key) sql_runstore (forge_clients g f) w)))"
| step_save_token: "ingest_step ae key g f (w_db w) (w_db (snd (sql_save_forge_token ae key forge inst token w)))"
| step_delete_token: "ingest_step ae key g f (w_db w) (w_db (snd (sql_delete_forge_token i w)))"
| step_quarantine: "ingest_step ae key g f (w_db w) (w_db (snd (quarantine_step sql_mstore i name note now w)))"
| step_unquarantine: "ingest_step ae key g f (w_db w) (w_db (snd (unquarantine_step sql_mstore i name w)))"

inductive ingest_reach :: "aead \<Rightarrow> string \<Rightarrow> github_client \<Rightarrow> forgejo_client \<Rightarrow> db \<Rightarrow> bool"
  for ae :: aead and key :: string and g :: github_client and f :: forgejo_client where
  ingest_start: "ingest_reach ae key g f empty_db"
| ingest_more: "ingest_reach ae key g f d \<Longrightarrow> ingest_step ae key g f d d' \<Longrightarrow> ingest_reach ae key g f d'"

lemma keeps_delete_token: "keeps (ingest_inv ae key) (sql_delete_forge_token i)"
  unfolding sql_delete_forge_token_def by (rule keeps_exec_some) (rule delete_forge_token_inv)

lemma keeps_forgejo_event:
  "(\<And>r. keeps P (rec r)) \<Longrightarrow> keeps P (process_forgejo_event rec r event)"
  unfolding process_forgejo_event_def by (auto intro!: keeps_intros)

lemma keeps_quarantine_services:
  "keeps (ingest_inv ae key) (quarantine_step sql_mstore i name note now)"
  "keeps (ingest_inv ae key) (unquarantine_step sql_mstore i name)"
  unfolding quarantine_step_def unquarantine_step_def
  by (auto intro!: keeps_intros sql_marks.keeps_known_pipeline keeps_marks)

lemma ingest_step_inv: "ingest_step ae key g f d d' \<Longrightarrow> ingest_inv ae key d \<Longrightarrow> ingest_inv ae key d'"
  by (induction rule: ingest_step.induct)
    (erule keepsD [rotated]; intro sql_ingest.register_keeps sql_ingest.keeps_delete [unfolded sql_rstore_def rstore.simps]
      sql_ingest.webhook_keeps keeps_forgejo_event sql_ingest.reconcile_keeps sql_ingest.reconcile_all_keeps
      keeps_save_token keeps_delete_token keeps_quarantine_services; erule quiet_clients)+

lemma ingest_reach_inv: "ingest_reach ae key g f d \<Longrightarrow> ingest_inv ae key d"
  by (induction rule: ingest_reach.induct) (auto simp: ingest_inv_empty intro: ingest_step_inv)

subsection \<open>An example\<close>

definition demo_key :: string where
  "demo_key = replicate 32 CHR ''k''"

definition demo_event :: workflow_run_event where
  "demo_event = \<lparr> we_id = 7, we_name = ''ci'', we_status = ''completed'', we_conclusion = ''success'',
     we_started = ''2024-01-01T00:00:00Z'', we_updated = ''2024-01-01T00:10:00Z'', we_url = [],
     we_branch = ''main'', we_sha = ''c0ffee'', we_message = ''fix'', we_actor = ''ann'' \<rparr>"

definition demo_job :: github_job where
  "demo_job = \<lparr> gj_id = 8, gj_name = ''build'', gj_status = ''completed'', gj_conclusion = ''success'',
     gj_created = [], gj_started = [], gj_completed = [], gj_url = [],
     gj_steps = [\<lparr> je_name = ''test'', je_status = ''completed'', je_conclusion = ''success'', je_number = 1,
       je_started = [], je_completed = [] \<rparr>] \<rparr>"

definition demo_github :: github_client where
  "demo_github = \<lparr> gc_base = None,
     gc_http = \<lambda>_ _. Answer \<lparr> hr_status = 200, hr_header = \<lambda>h. if h = ''ETag'' then ''v1'' else [],
       hr_body = \<lparr> hb_data = [], hb_failure = None, hb_eager = False \<rparr> \<rparr>,
     gc_runs_json = \<lambda>_. Inr [demo_event], gc_jobs_json = \<lambda>_. Inr [demo_job],
     gc_create_hook = \<lambda>_ _ _ _ _. Inr (), gc_list_repos = \<lambda>_ _ _. Inr ([], 0),
     gc_get_repo = \<lambda>_ _ _ _. Inr \<lparr> gr_archived = False, gr_fork = False, gr_mirror_url = [], gr_full_name = [] \<rparr> \<rparr>"

definition demo_forgejo :: forgejo_client where
  "demo_forgejo = \<lparr> fo_new = \<lambda>_ _. Inr (), fo_create_hook = \<lambda>_ _ _ _ _ _. Inr (), fo_list_repos = \<lambda>_ _ _ _. Inr ([], 0),
     fo_get_repo = \<lambda>_ _ _ _ _. Inl (Driver []), fo_list_runs = \<lambda>_ _ _ _ _. Inr [],
     fo_http = \<lambda>_ _. NoAnswer (Driver []), fo_bare_json = \<lambda>_. Inr [], fo_wrapped_json = \<lambda>_. Inr [] \<rparr>"

abbreviation demo_store :: rstore where
  "demo_store \<equiv> sql_rstore demo_aead demo_key"

abbreviation demo_clients :: clients where
  "demo_clients \<equiv> forge_clients demo_github demo_forgejo"

definition demo_new :: new_repo where
  "demo_new = \<lparr> nr_forge = ''github'', nr_identifier = ''o/n'', nr_instance = [], nr_token = ''secret-token'' \<rparr>"

definition start :: world where
  "start = \<lparr> w_db = empty_db, w_pos = 0, w_env = quiet_env, w_limits = [], w_ready = None \<rparr>"

text \<open>The tables after one registration.\<close>

definition tracked_db :: db where
  "tracked_db = empty_db\<lparr>t_repos := [\<lparr> rp_id = ''id'', rp_forge = ''github'', rp_identifier = ''o/n'',
     rp_instance = None, rp_token_enc = ''id'' @ replicate 10 CHR 0x00 @ ''tagsecret-token'',
     rp_token_masked = ''****oken'', rp_webhook_secret = ''6964'' @ replicate 60 CHR ''0'',
     rp_status = ''active'', rp_status_reason = None, rp_created_at = 4, rp_etag = [] \<rparr>]\<rparr>"

definition tracked :: world where
  "tracked = \<lparr> w_db = tracked_db, w_pos = 9, w_env = quiet_env, w_limits = [], w_ready = None \<rparr>"

lemma register_tracked: "w_db (snd (register demo_store demo_clients ''https://x'' demo_new start)) = tracked_db"
  by code_simp

text \<open>
  C39: what is always so in the tables of ingestion. Whatever was registered, removed,
  delivered, polled, saved or muted, in whatever order, with whatever faults and answers:
  every key is unique and every reference has its row, every stored repository is of a known
  forge and has a known status, and every stored token opens under the server's key with the
  stored mask as its mask, as long as the cipher opens what it sealed.
\<close>

theorem ingestion_invariants:
  assumes "ingest_reach ae key g f d"
  shows "run_tables_ok d \<and> forge_tokens_ok d \<and> (if aead_ok ae then rows_sound ae key d else True)"
  using ingest_reach_inv [OF assms] by (simp add: ingest_inv_def)

lemma tracked_reach: "ingest_reach demo_aead demo_key demo_github demo_forgejo tracked_db"
proof -
  have "ingest_reach demo_aead demo_key demo_github demo_forgejo (w_db start)"
    using ingest_start by (simp add: start_def)
  then show ?thesis
    unfolding register_tracked [symmetric] by (rule ingest_more [OF _ step_register])
qed

theorem ingestion_invariants_witness:
  "run_tables_ok tracked_db \<and> forge_tokens_ok tracked_db \<and> rows_sound demo_aead demo_key tracked_db \<and>
   map rp_token_masked (t_repos tracked_db) = [''****oken'']"
  using ingestion_invariants [OF tracked_reach] by (simp add: demo_aead_ok tracked_db_def)

definition demo_repo :: repo where
  "demo_repo = \<lparr> tr_id = ''id'', tr_forge = ''github'', tr_identifier = ''o/n'', tr_instance = [],
     tr_masked = [], tr_secret = [], tr_status = ''active'', tr_reason = [], tr_etag = [], tr_created = 0 \<rparr>"

definition demo_snapshot :: run_snapshot where
  "demo_snapshot = run_snapshot_of demo_event [github_job_snapshot demo_job]"

lemma tracked_inv: "ingest_inv demo_aead demo_key (w_db tracked)"
  using ingest_reach_inv [OF tracked_reach] by (simp add: tracked_def)

theorem store_snapshot_refines_witness:
  "\<exists>w'. store_run_snapshot sql_runstore demo_repo demo_snapshot tracked = (Inr (), w') \<and>
     history_of (w_db w') = record_snapshot ''id'' demo_snapshot (history_of (w_db tracked)) \<and>
     map st_name (hi_steps (record_snapshot ''id'' demo_snapshot (history_of (w_db tracked))) ((''id'', ''7''), ''8''))
       = [''test'']"
proof -
  let ?r = "store_run_snapshot sql_runstore demo_repo demo_snapshot tracked"
  have "\<not> isl (fst ?r)" by code_simp
  then obtain w' where w': "?r = (Inr (), w')" by (cases ?r; cases "fst ?r") auto
  have "map st_name (hi_steps (record_snapshot ''id'' demo_snapshot (history_of (w_db tracked))) ((''id'', ''7''), ''8''))
      = [''test'']" by code_simp
  with store_snapshot_refines [OF tracked_inv w'] w' show ?thesis by (simp add: demo_repo_def)
qed

end
