(* ===== verification/Http.thy ===== *)
theory Http
  imports GoTime GoFloat Auth
begin

text \<open>
  The ground the HTTP handlers stand on (\<open>internal/httpserver\<close>): requests as \<open>net/http\<close>
  hands them over, replies, bodies and their limits (\<open>body_limit.go\<close>), the session gate
  (\<open>session.go\<close>), the pattern matching of \<open>http.ServeMux\<close>, and the outer middleware
  (\<open>logging.go\<close>, \<open>noindex.go\<close>). A handler is a function from the identity the gate found
  and the request to a reply in \<open>io\<close>; \<open>GoPanic\<close> is the connection \<open>net/http\<close> aborts.
\<close>

subsection \<open>JSON\<close>

text \<open>
  A reply body as the tree that \<open>encoding/json\<close> prints. \<open>JRaw\<close> is JSON made by code
  outside the program (the WebAuthn options).
\<close>

datatype json =
    JNull
  | JBool bool
  | JInt int
  | JNum float64
  | JStr string
  | JTime gotime
  | JRaw string
  | JArr "json list"
  | JObj "(string \<times> json) list"

text \<open>The \<open>omitempty\<close> option for strings, pointers and slices.\<close>

definition omit_empty :: "string \<Rightarrow> string \<Rightarrow> (string \<times> json) list" where
  "omit_empty key s = (if s = [] then [] else [(key, JStr s)])"

definition omit_nil :: "string \<Rightarrow> ('a \<Rightarrow> json) \<Rightarrow> 'a option \<Rightarrow> (string \<times> json) list" where
  "omit_nil key f x = (case x of None \<Rightarrow> [] | Some y \<Rightarrow> [(key, f y)])"

definition omit_nums :: "string \<Rightarrow> float64 list \<Rightarrow> (string \<times> json) list" where
  "omit_nums key xs = (if xs = [] then [] else [(key, JArr (map JNum xs))])"

subsection \<open>Requests and replies\<close>

text \<open>
  What the code reads of an \<open>*http.Request\<close>. \<open>rq_raw\<close> are the escaped segments of the
  path, \<open>rq_body\<close> the bytes the client sends and \<open>rq_end\<close> how reading them ends.
\<close>

datatype body_end = BodyEnd | BodyCut | BodyFailed

record request =
  rq_method :: string
  rq_raw :: "string list"
  rq_query :: "(string \<times> string) list"
  rq_headers :: "(string \<times> string) list"
  rq_cookies :: "(string \<times> string) list"
  rq_length :: int
  rq_body :: string
  rq_end :: body_end

text \<open>\<open>url.PathUnescape\<close>, on the valid escapes that are all a parsed URL can hold.\<close>

fun unescape :: "string \<Rightarrow> string" where
  "unescape [] = []"
| "unescape (c # s) =
     (if c = CHR 0x25 then
        (case s of
           a # b # r \<Rightarrow>
             (case (hex_value a, hex_value b) of
                (Some x, Some y) \<Rightarrow> char_of (16 * x + y) # unescape r
              | _ \<Rightarrow> c # unescape s)
         | _ \<Rightarrow> c # unescape s)
      else c # unescape s)"

text \<open>\<open>r.URL.Path\<close>, and whether \<open>cleanPath\<close> leaves the escaped path as it is.\<close>

definition path_of :: "string list \<Rightarrow> string" where
  "path_of segs = concat (map (\<lambda>s. ''/'' @ s) segs)"

definition rq_path :: "request \<Rightarrow> string" where
  "rq_path q = path_of (map unescape (rq_raw q))"

definition dot_segment :: "string \<Rightarrow> bool" where
  "dot_segment s \<longleftrightarrow> s = ''.'' \<or> s = ''..''"

definition clean_raw :: "string list \<Rightarrow> bool" where
  "clean_raw segs \<longleftrightarrow>
     segs \<noteq> [] \<and> list_all (\<lambda>s. \<not> dot_segment s) segs \<and> list_all (\<lambda>s. s \<noteq> []) (butlast segs)"

text \<open>\<open>Header.Get\<close>, \<open>url.Values.Get\<close> and \<open>Request.Cookie\<close>: the first value of that name.\<close>

definition value_of :: "(string \<times> string) list \<Rightarrow> string \<Rightarrow> string" where
  "value_of kvs key = (case map_of kvs key of None \<Rightarrow> [] | Some v \<Rightarrow> v)"

abbreviation query :: "request \<Rightarrow> string \<Rightarrow> string" where
  "query q \<equiv> value_of (rq_query q)"

text \<open>\<open>textproto.CanonicalMIMEHeaderKey\<close>: the form in which the header map keeps its keys.\<close>

definition upper_char :: "char \<Rightarrow> char" where
  "upper_char c = (if 97 \<le> byte c \<and> byte c \<le> 122 then char_of (byte c - 32) else c)"

fun canonical_from :: "bool \<Rightarrow> string \<Rightarrow> string" where
  "canonical_from start [] = []"
| "canonical_from start (c # s) =
     (if start then upper_char c else lower_char c) # canonical_from (c = CHR ''-'') s"

definition header :: "request \<Rightarrow> string \<Rightarrow> string" where
  "header q key = value_of (rq_headers q) (canonical_from True key)"

record cookie =
  ck_name :: string
  ck_value :: string
  ck_path :: string
  ck_max_age :: int
  ck_http_only :: bool
  ck_secure :: bool
  ck_strict :: bool

datatype content = NoContent | Text string | Json json

record reply =
  ry_status :: int
  ry_headers :: "(string \<times> string) list"
  ry_cookies :: "cookie list"
  ry_body :: content

definition write_json :: "int \<Rightarrow> json \<Rightarrow> reply" where
  "write_json status v =
     \<lparr> ry_status = status, ry_headers = [(''Content-Type'', ''application/json'')], ry_cookies = [], ry_body = Json v \<rparr>"

definition write_error :: "int \<Rightarrow> string \<Rightarrow> string \<Rightarrow> reply" where
  "write_error status code message =
     write_json status (JObj [(''code'', JStr code), (''message'', JStr message)])"

definition write_status :: "int \<Rightarrow> reply" where
  "write_status status = \<lparr> ry_status = status, ry_headers = [], ry_cookies = [], ry_body = NoContent \<rparr>"

text \<open>Handlers are given who asks: the user and whether by a session (\<open>authInfo\<close>).\<close>

record auth_info =
  ai_user :: string
  ai_via_session :: bool

type_synonym handler = "auth_info option \<Rightarrow> request \<Rightarrow> reply io"

subsection \<open>Bodies\<close>

definition max_api_body_bytes :: int where "max_api_body_bytes = 65536"
definition max_webhook_body_bytes :: int where "max_webhook_body_bytes = 2097152"
definition max_identifier_length :: nat where "max_identifier_length = 200"
definition max_token_length :: nat where "max_token_length = 1024"
definition max_instance_url_length :: nat where "max_instance_url_length = 2048"

definition body_limit_for :: "request \<Rightarrow> int" where
  "body_limit_for q =
     (if has_prefix (rq_path q) ''/webhooks/'' then max_webhook_body_bytes else max_api_body_bytes)"

definition payload_too_large :: reply where
  "payload_too_large = write_error 413 ''payload_too_large'' ''request body too large''"

text \<open>\<open>http.MaxBytesReader\<close>: a longer body is cut at the limit and ends in its error.\<close>

definition max_bytes :: "int \<Rightarrow> request \<Rightarrow> request" where
  "max_bytes limit q =
     (if limit < int (length (rq_body q))
      then q\<lparr>rq_body := take (nat limit) (rq_body q), rq_end := BodyCut\<rparr> else q)"

definition limit_bodies :: "(request \<Rightarrow> reply io) \<Rightarrow> request \<Rightarrow> reply io" where
  "limit_bodies serve q =
     (let limit = body_limit_for q in
      if limit < rq_length q then retE payload_too_large else serve (max_bytes limit q))"

text \<open>
  \<open>json.Decoder.Decode\<close> looks at what it has read so far: there is a value, there cannot
  be one, or it needs more and the end of the body decides (\<open>JsonMore True\<close> when all it has
  is blank, which is \<open>io.EOF\<close> at the end). The decoder of each body is a parameter.
\<close>

datatype 'a json_scan = JsonValue 'a | JsonBad | JsonMore bool

definition bad_body :: "body_end \<Rightarrow> reply" where
  "bad_body e =
     (if e = BodyCut then payload_too_large else write_error 400 ''invalid_body'' ''malformed JSON body'')"

definition read_json :: "(string \<Rightarrow> 'a json_scan) \<Rightarrow> request \<Rightarrow> reply + 'a" where
  "read_json scan q =
     (case scan (rq_body q) of
        JsonValue v \<Rightarrow> Inr v
      | JsonBad \<Rightarrow> Inl (bad_body BodyEnd)
      | JsonMore _ \<Rightarrow> Inl (bad_body (rq_end q)))"

definition read_optional_json :: "'a \<Rightarrow> (string \<Rightarrow> 'a json_scan) \<Rightarrow> request \<Rightarrow> reply + 'a" where
  "read_optional_json zero scan q =
     (case scan (rq_body q) of
        JsonValue v \<Rightarrow> Inr v
      | JsonBad \<Rightarrow> Inl (bad_body BodyEnd)
      | JsonMore blank \<Rightarrow> if blank \<and> rq_end q = BodyEnd then Inr zero else Inl (bad_body (rq_end q)))"

text \<open>A handler that stops when the body is no good.\<close>

definition with_body :: "reply + 'a \<Rightarrow> ('a \<Rightarrow> reply io) \<Rightarrow> reply io" where
  "with_body b f = (case b of Inl r \<Rightarrow> retE r | Inr v \<Rightarrow> f v)"

subsection \<open>The session gate\<close>

definition session_cookie_name :: string where "session_cookie_name = ''session''"
definition ceremony_cookie_name :: string where "ceremony_cookie_name = ''pa_ceremony''"

definition bearer_token :: "request \<Rightarrow> string option" where
  "bearer_token q =
     (let auth = header q ''Authorization'' in
      if \<not> has_prefix auth ''Bearer '' then None
      else let token = trim_prefix auth ''Bearer '' in if token = [] then None else Some token)"

definition is_public_path :: "string \<Rightarrow> bool" where
  "is_public_path path =
     (if path = ''/healthz'' \<or> path = ''/readyz'' \<or> path = ''/api/version'' then True
      else if path = ''/api/auth/tokens'' \<or> has_prefix path ''/api/auth/tokens/'' then False
      else if path = ''/api/auth/credentials'' \<or> has_prefix path ''/api/auth/credentials/'' then False
      else if has_prefix path ''/api/auth/'' then True
      else if has_prefix path ''/webhooks/'' then True
      else if \<not> has_prefix path ''/api/'' then True
      else False)"

definition unauthenticated :: reply where
  "unauthenticated = write_error 401 ''unauthenticated'' ''no valid session or token''"

text \<open>Who asks: a session by its cookie, else a token; an error of either is no identity.\<close>

definition session_identity :: "'c astore \<Rightarrow> request \<Rightarrow> auth_info option io" where
  "session_identity st q =
     (case map_of (rq_cookies q) session_cookie_name of
        None \<Rightarrow> retE None
      | Some sid \<Rightarrow>
          bindE (tryE (as_session st sid)) (\<lambda>got.
            retE (case got of Inl _ \<Rightarrow> None | Inr user \<Rightarrow> Some \<lparr> ai_user = user, ai_via_session = True \<rparr>)))"

definition token_identity :: "'c astore \<Rightarrow> request \<Rightarrow> auth_info option io" where
  "token_identity st q =
     (case bearer_token q of
        None \<Rightarrow> retE None
      | Some token \<Rightarrow>
          bindE (tryE (as_token_user st token)) (\<lambda>got.
            retE (case got of Inl _ \<Rightarrow> None | Inr user \<Rightarrow> Some \<lparr> ai_user = user, ai_via_session = False \<rparr>)))"

definition require_session :: "'c astore \<Rightarrow> handler \<Rightarrow> request \<Rightarrow> reply io" where
  "require_session st serve q =
     (if is_public_path (rq_path q) then serve None q
      else
        bindE (session_identity st q) (\<lambda>s.
        case s of
          Some info \<Rightarrow> serve (Some info) q
        | None \<Rightarrow>
            bindE (token_identity st q) (\<lambda>t.
            case t of
              Some info \<Rightarrow> serve (Some info) q
            | None \<Rightarrow> retE unauthenticated)))"

definition session_required_message :: "string \<Rightarrow> string" where
  "session_required_message what = ''a session is required to '' @ what"

definition via_session :: "auth_info option \<Rightarrow> bool" where
  "via_session info = (case info of None \<Rightarrow> False | Some i \<Rightarrow> ai_via_session i)"

definition session_required :: "string \<Rightarrow> reply" where
  "session_required what = write_error 401 ''unauthenticated'' (session_required_message what)"

text \<open>\<open>requireViaSession\<close>: the handler goes on only for a session.\<close>

definition require_via_session :: "string \<Rightarrow> auth_info option \<Rightarrow> (auth_info \<Rightarrow> reply io) \<Rightarrow> reply io" where
  "require_via_session what info f =
     (case info of
        None \<Rightarrow> retE (session_required what)
      | Some i \<Rightarrow> if ai_via_session i then f i else retE (session_required what))"

definition require_auth :: "auth_info option \<Rightarrow> (auth_info \<Rightarrow> reply io) \<Rightarrow> reply io" where
  "require_auth info f = (case info of None \<Rightarrow> retE unauthenticated | Some i \<Rightarrow> f i)"

subsection \<open>Routes\<close>

text \<open>A pattern of \<open>http.ServeMux\<close>: a method (or any) and segments, each a literal or a wildcard.\<close>

datatype pat = Lit string | Wild string

fun match_pats :: "pat list \<Rightarrow> string list \<Rightarrow> (string \<times> string) list option" where
  "match_pats [] [] = Some []"
| "match_pats (Lit l # ps) (s # ss) = (if s = l then match_pats ps ss else None)"
| "match_pats (Wild x # ps) (s # ss) =
     (if s = [] \<or> s = ''/'' then None else map_option (\<lambda>m. (x, s) # m) (match_pats ps ss))"
| "match_pats _ _ = None"

definition method_ok :: "string option \<Rightarrow> string \<Rightarrow> bool" where
  "method_ok want m = (case want of None \<Rightarrow> True | Some w \<Rightarrow> m = w \<or> (w = ''GET'' \<and> m = ''HEAD''))"

type_synonym 'e route = "string option \<times> pat list \<times> 'e"

fun find_route :: "'e route list \<Rightarrow> string \<Rightarrow> string list \<Rightarrow> ('e \<times> (string \<times> string) list) option" where
  "find_route [] m segs = None"
| "find_route ((want, ps, e) # rs) m segs =
     (if method_ok want m then
        (case match_pats ps segs of Some vs \<Rightarrow> Some (e, vs) | None \<Rightarrow> find_route rs m segs)
      else find_route rs m segs)"

subsection \<open>The outer middleware\<close>

definition noindex :: "(request \<Rightarrow> (reply \<times> 'l) io) \<Rightarrow> request \<Rightarrow> (reply \<times> 'l) io" where
  "noindex serve q =
     bindE (serve q) (\<lambda>(r, l).
       retE (r\<lparr>ry_headers := (''X-Robots-Tag'', ''noindex, nofollow'') # ry_headers r\<rparr>, l))"

datatype log_level = LevelError | LevelWarn | LevelInfo

record log_record =
  lg_level :: log_level
  lg_method :: string
  lg_path :: string
  lg_status :: int
  lg_duration :: int

definition level_of :: "int \<Rightarrow> log_level" where
  "level_of status = (if 500 \<le> status then LevelError else if 400 \<le> status then LevelWarn else LevelInfo)"

text \<open>The record is returned beside the reply; the probes leave none.\<close>

definition request_logger :: "(request \<Rightarrow> reply io) \<Rightarrow> request \<Rightarrow> (reply \<times> log_record option) io" where
  "request_logger serve q =
     (if rq_path q = ''/healthz'' \<or> rq_path q = ''/readyz'' then bindE (serve q) (\<lambda>r. retE (r, None))
      else
        bindE nowE (\<lambda>start.
        bindE (serve q) (\<lambda>r.
        bindE nowE (\<lambda>stop.
          retE (r, Some \<lparr> lg_level = level_of (ry_status r), lg_method = rq_method q, lg_path = rq_path q,
                          lg_status = ry_status r, lg_duration = stop - start \<rparr>)))))"

subsection \<open>Probes and version\<close>

definition healthz :: "reply io" where
  "healthz = retE ((write_status 200)\<lparr>ry_body := Text ''ok''\<rparr>)"

definition version_handler :: "string \<Rightarrow> reply io" where
  "version_handler version = retE (write_json 200 (JObj [(''version'', JStr version)]))"

definition default_ready_cache_ttl :: int where
  "default_ready_cache_ttl = 3 * seconds"

definition not_ready :: reply where
  "not_ready = write_error 503 ''not_ready'' ''not ready''"

text \<open>
  \<open>probe\<close>: the check runs at most once per \<open>ttl\<close>. \<open>w_ready\<close> is the closure's \<open>checkedAt\<close> and
  \<open>lastErr\<close>; the lock makes the whole function one step.
\<close>

definition last_probe :: "(gotime \<times> goerr option) option io" where
  "last_probe w = (Inr (w_ready w), w)"

definition run_probe :: "unit io \<Rightarrow> goerr option io" where
  "run_probe ready =
     bindE (tryE ready) (\<lambda>got.
     bindE nowE (\<lambda>now.
       let e = (case got of Inl e \<Rightarrow> Some e | Inr _ \<Rightarrow> None)
       in bindE (set_readyE now e) (\<lambda>_. retE e)))"

definition probe :: "unit io \<Rightarrow> int \<Rightarrow> goerr option io" where
  "probe ready ttl =
     bindE last_probe (\<lambda>cached.
     case cached of
       None \<Rightarrow> run_probe ready
     | Some (checked, e) \<Rightarrow> bindE nowE (\<lambda>now. if now - checked < ttl then retE e else run_probe ready))"

definition readyz :: "unit io option \<Rightarrow> int \<Rightarrow> bool \<Rightarrow> reply io" where
  "readyz ready ttl0 draining =
     (let ttl = (if ttl0 \<le> 0 then default_ready_cache_ttl else ttl0) in
      if draining then retE not_ready
      else case ready of
        None \<Rightarrow> healthz
      | Some check \<Rightarrow>
          bindE (probe check ttl) (\<lambda>e. case e of Some _ \<Rightarrow> retE not_ready | None \<Rightarrow> healthz))"

end
