(* ===== verification/HttpAuth.thy ===== *)
theory HttpAuth
  imports Http Settings Ingestion IngestionStore
begin

text \<open>
  The handlers of the account: passkeys, sessions and API tokens (\<open>auth.go\<close>), the saved
  forge tokens (\<open>forge_tokens.go\<close>) and the settings (\<open>settings.go\<close>).
\<close>

subsection \<open>Cookies\<close>

definition make_cookie :: "string \<Rightarrow> string \<Rightarrow> int \<Rightarrow> cookie" where
  "make_cookie name val max_age =
     \<lparr> ck_name = name, ck_value = val, ck_path = ''/'', ck_max_age = max_age, ck_http_only = True,
       ck_secure = True, ck_strict = True \<rparr>"

definition add_cookie :: "cookie \<Rightarrow> reply \<Rightarrow> reply" where
  "add_cookie c r = r\<lparr>ry_cookies := ry_cookies r @ [c]\<rparr>"

definition set_cookie :: "string \<Rightarrow> string \<Rightarrow> int \<Rightarrow> reply \<Rightarrow> reply" where
  "set_cookie name val max_age = add_cookie (make_cookie name val (max_age div seconds))"

definition clear_cookie :: "string \<Rightarrow> reply \<Rightarrow> reply" where
  "clear_cookie name = add_cookie (make_cookie name [] (-1))"

definition ceremony_cookie :: "request \<Rightarrow> string option" where
  "ceremony_cookie q =
     (case map_of (rq_cookies q) ceremony_cookie_name of
        None \<Rightarrow> None
      | Some v \<Rightarrow> if v = [] then None else Some v)"

definition ceremony_max_age :: int where
  "ceremony_max_age = 5 * 60 * seconds"

subsection \<open>Passkeys and sessions\<close>

definition user_json :: "user_row \<Rightarrow> json" where
  "user_json u = JObj [(''displayName'', JStr (us_display u))]"

definition user_exists_error :: reply where
  "user_exists_error = write_error 409 ''user_exists'' ''a user account already exists''"

definition register_options :: "('c, 's) webauthn \<Rightarrow> 'c astore \<Rightarrow> reply io" where
  "register_options wa st =
     bindE (tryE (begin_registration wa st)) (\<lambda>got.
     retE (case got of
         Inl e \<Rightarrow> if is_err e ErrUserExists then user_exists_error
                  else write_error 500 ''internal_error'' ''begin registration''
       | Inr (creation, ceremony) \<Rightarrow>
           set_cookie ceremony_cookie_name ceremony ceremony_max_age (write_json 200 (JRaw creation))))"

definition register_passkey :: "('c, 's) webauthn \<Rightarrow> 'c astore \<Rightarrow> request \<Rightarrow> reply io" where
  "register_passkey wa st q =
     (case ceremony_cookie q of
        None \<Rightarrow> retE (write_error 400 ''invalid_body'' ''no registration in progress'')
      | Some ceremony \<Rightarrow>
          bindE (tryE (finish_registration wa st ceremony (rq_body q))) (\<lambda>got.
          retE (case got of
              Inl e \<Rightarrow> if is_err e ErrUserExists then user_exists_error
                       else write_error 400 ''invalid_body'' ''registration failed''
            | Inr (user, sid) \<Rightarrow>
                set_cookie session_cookie_name sid 0
                  (clear_cookie ceremony_cookie_name (write_json 201 (user_json user))))))"

definition login_options :: "('c, 's) webauthn \<Rightarrow> 'c astore \<Rightarrow> reply io" where
  "login_options wa st =
     bindE (tryE (begin_login wa st)) (\<lambda>got.
     retE (case got of
         Inl e \<Rightarrow> if is_err e ErrNoUser then write_error 404 ''no_user'' ''no account has been registered yet''
                  else write_error 500 ''internal_error'' ''begin login''
       | Inr (assertion, ceremony) \<Rightarrow>
           set_cookie ceremony_cookie_name ceremony ceremony_max_age (write_json 200 (JRaw assertion))))"

definition login_passkey :: "('c, 's) webauthn \<Rightarrow> 'c astore \<Rightarrow> request \<Rightarrow> reply io" where
  "login_passkey wa st q =
     (case ceremony_cookie q of
        None \<Rightarrow> retE (write_error 401 ''unauthenticated'' ''no login in progress'')
      | Some ceremony \<Rightarrow>
          bindE (tryE (finish_login wa st ceremony (rq_body q))) (\<lambda>got.
          retE (case got of
              Inl _ \<Rightarrow> write_error 401 ''unauthenticated'' ''login failed''
            | Inr sid \<Rightarrow>
                set_cookie session_cookie_name sid 0 (clear_cookie ceremony_cookie_name (write_status 200)))))"

definition logout_handler :: "'c astore \<Rightarrow> request \<Rightarrow> reply io" where
  "logout_handler st q =
     bindE (case map_of (rq_cookies q) session_cookie_name of
              None \<Rightarrow> retE ()
            | Some sid \<Rightarrow> bindE (tryE (logout st sid)) (\<lambda>_. retE ()))
       (\<lambda>_. retE (clear_cookie session_cookie_name (write_status 204)))"

definition add_credential_options :: "('c, 's) webauthn \<Rightarrow> 'c astore \<Rightarrow> auth_info option \<Rightarrow> reply io" where
  "add_credential_options wa st info =
     require_via_session ''add a credential'' info (\<lambda>_.
     bindE (tryE (begin_add_credential wa st)) (\<lambda>got.
     retE (case got of
         Inl _ \<Rightarrow> write_error 500 ''internal_error'' ''begin add credential''
       | Inr (creation, ceremony) \<Rightarrow>
           set_cookie ceremony_cookie_name ceremony ceremony_max_age (write_json 200 (JRaw creation)))))"

definition add_credential :: "('c, 's) webauthn \<Rightarrow> 'c astore \<Rightarrow> auth_info option \<Rightarrow> request \<Rightarrow> reply io" where
  "add_credential wa st info q =
     require_via_session ''add a credential'' info (\<lambda>_.
     case ceremony_cookie q of
       None \<Rightarrow> retE (write_error 400 ''invalid_body'' ''no add-credential ceremony in progress'')
     | Some ceremony \<Rightarrow>
         bindE (tryE (finish_add_credential wa st ceremony (query q ''label'') (rq_body q))) (\<lambda>got.
         retE (case got of
             Inl _ \<Rightarrow> write_error 400 ''invalid_body'' ''add credential failed''
           | Inr _ \<Rightarrow> clear_cookie ceremony_cookie_name (write_status 201))))"

definition credential_json :: "credential_info \<Rightarrow> json" where
  "credential_json i =
     JObj [(''id'', JStr (b64_encode (ci_id i))), (''label'', JStr (ci_label i)),
           (''createdAt'', JTime (ci_created i)), (''revocable'', JBool (ci_revocable i))]"

definition list_credentials_handler :: "'c astore \<Rightarrow> auth_info option \<Rightarrow> reply io" where
  "list_credentials_handler st info =
     require_via_session ''list credentials'' info (\<lambda>i.
     bindE (tryE (list_credentials st (ai_user i))) (\<lambda>got.
     retE (case got of
         Inl _ \<Rightarrow> write_error 500 ''internal_error'' ''list credentials''
       | Inr infos \<Rightarrow> write_json 200 (JArr (map credential_json infos)))))"

definition revoke_credential_handler :: "'c astore \<Rightarrow> auth_info option \<Rightarrow> string \<Rightarrow> reply io" where
  "revoke_credential_handler st info cred =
     require_via_session ''revoke a credential'' info (\<lambda>i.
     case b64_decode cred of
       None \<Rightarrow> retE (write_error 400 ''invalid_body'' ''malformed credential id'')
     | Some cid \<Rightarrow>
         bindE (tryE (revoke_credential st (ai_user i) cid)) (\<lambda>got.
         retE (case got of
             Inl e \<Rightarrow>
               if is_err e ErrLastCredential
               then write_error 409 ''last_credential'' ''cannot revoke the account's last remaining credential''
               else if is_err e ErrCredentialNotFound then write_error 404 ''not_found'' ''credential not found''
               else write_error 500 ''internal_error'' ''revoke credential''
           | Inr _ \<Rightarrow> write_status 204)))"

subsection \<open>API tokens\<close>

text \<open>
  The lifetime asked for: \<open>None\<close> for a value that is refused. The seconds are an \<open>int64\<close>,
  the product is computed in \<open>int64\<close>.
\<close>

definition lifetime :: "int option \<Rightarrow> int option" where
  "lifetime ttl_seconds =
     (case ttl_seconds of
        None \<Rightarrow> Some 0
      | Some s \<Rightarrow>
          if s \<le> 0 then None
          else if token_ttl_ceiling div seconds \<le> s then Some token_ttl_ceiling
          else Some (wrap64 (s * seconds)))"

definition token_json :: "auth_token \<Rightarrow> string \<Rightarrow> json" where
  "token_json t raw =
     JObj [(''id'', JStr (at_id t)), (''token'', JStr raw), (''createdAt'', JTime (at_created t)),
           (''expiresAt'', JTime (at_expires t))]"

definition issue_token_handler ::
  "'c astore \<Rightarrow> (string \<Rightarrow> int option json_scan) \<Rightarrow> auth_info option \<Rightarrow> request \<Rightarrow> reply io" where
  "issue_token_handler st scan info q =
     require_via_session ''issue a token'' info (\<lambda>i.
     with_body (read_optional_json None scan q) (\<lambda>ttl_seconds.
     case lifetime ttl_seconds of
       None \<Rightarrow> retE (write_error 400 ''invalid_body'' ''ttlSeconds must be a positive number of seconds'')
     | Some ttl \<Rightarrow>
         bindE (tryE (issue_token st (ai_user i) ttl)) (\<lambda>got.
         retE (case got of
             Inl _ \<Rightarrow> write_error 500 ''internal_error'' ''issue token''
           | Inr (tok, raw) \<Rightarrow> write_json 201 (token_json tok raw)))))"

definition revoke_token_handler :: "'c astore \<Rightarrow> auth_info option \<Rightarrow> string \<Rightarrow> reply io" where
  "revoke_token_handler st info token_id =
     require_via_session ''revoke a token'' info (\<lambda>i.
     bindE (tryE (revoke_token st (ai_user i) token_id)) (\<lambda>got.
     retE (case got of
         Inl e \<Rightarrow> if is_err e ErrTokenNotFound then write_error 404 ''not_found'' ''token not found''
                  else write_error 500 ''internal_error'' ''revoke token''
       | Inr _ \<Rightarrow> write_status 204)))"

subsection \<open>Saved forge tokens\<close>

text \<open>\<open>ForgeTokenStore\<close>, and sqlite's methods as one.\<close>

record token_store =
  ts_save :: "string \<Rightarrow> string \<Rightarrow> string \<Rightarrow> saved_token io"
  ts_list :: "saved_token list io"
  ts_delete :: "string \<Rightarrow> unit io"
  ts_token :: "string \<Rightarrow> string \<Rightarrow> string io"

definition sql_token_store :: "aead \<Rightarrow> string \<Rightarrow> token_store" where
  "sql_token_store ae key =
     \<lparr> ts_save = sql_save_forge_token ae key, ts_list = sql_list_forge_tokens,
       ts_delete = sql_delete_forge_token, ts_token = sql_forge_token ae key \<rparr>"

definition saved_token_json :: "saved_token \<Rightarrow> json" where
  "saved_token_json t =
     JObj ([(''id'', JStr (sv_id t)), (''forge'', JStr (sv_forge t))] @
           omit_empty ''forgejoInstanceUrl'' (sv_instance t) @ [(''tokenMasked'', JStr (sv_masked t))])"

record save_token_body =
  sb_forge :: string
  sb_instance :: string
  sb_token :: string

definition valid_forge :: "string \<Rightarrow> bool" where
  "valid_forge forge \<longleftrightarrow> forge = ''github'' \<or> forge = ''forgejo''"

definition list_forge_tokens_handler :: "token_store \<Rightarrow> auth_info option \<Rightarrow> reply io" where
  "list_forge_tokens_handler ts info =
     require_via_session ''manage saved tokens'' info (\<lambda>_.
     bindE (tryE (ts_list ts)) (\<lambda>got.
     retE (case got of
         Inl _ \<Rightarrow> write_error 500 ''internal_error'' ''list saved tokens''
       | Inr tokens \<Rightarrow> write_json 200 (JObj [(''tokens'', JArr (map saved_token_json tokens))]))))"

definition save_forge_token_handler ::
  "token_store \<Rightarrow> (string \<Rightarrow> save_token_body json_scan) \<Rightarrow> auth_info option \<Rightarrow> request \<Rightarrow> reply io" where
  "save_forge_token_handler ts scan info q =
     require_via_session ''manage saved tokens'' info (\<lambda>_.
     with_body (read_json scan q) (\<lambda>b.
     if \<not> valid_forge (sb_forge b) \<or> sb_token b = [] \<or> (sb_forge b = ''forgejo'' \<and> sb_instance b = [])
     then retE (write_error 400 ''invalid_body'' ''forge and token are required, and a Forgejo token needs its instance URL'')
     else if max_token_length < length (sb_token b) \<or> max_instance_url_length < length (sb_instance b)
     then retE (write_error 400 ''invalid_body'' ''token or instance URL is too long'')
     else
       bindE (tryE (ts_save ts (sb_forge b) (sb_instance b) (sb_token b))) (\<lambda>got.
       retE (case got of
           Inl _ \<Rightarrow> write_error 500 ''internal_error'' ''save token''
         | Inr saved \<Rightarrow> write_json 200 (saved_token_json saved)))))"

definition delete_forge_token_handler :: "token_store \<Rightarrow> auth_info option \<Rightarrow> string \<Rightarrow> reply io" where
  "delete_forge_token_handler ts info token_id =
     require_via_session ''manage saved tokens'' info (\<lambda>_.
     bindE (tryE (ts_delete ts token_id)) (\<lambda>got.
     retE (case got of
         Inl e \<Rightarrow> if is_err e ErrSavedTokenNotFound then write_error 404 ''not_found'' ''saved token not found''
                  else write_error 500 ''internal_error'' ''delete saved token''
       | Inr _ \<Rightarrow> write_status 204)))"

text \<open>A request that cannot be carried out: the reply, which the MCP tools turn into a text.\<close>

record api_problem =
  pb_status :: int
  pb_code :: string
  pb_message :: string

definition problem :: "int \<Rightarrow> string \<Rightarrow> string \<Rightarrow> api_problem" where
  "problem status code message = \<lparr> pb_status = status, pb_code = code, pb_message = message \<rparr>"

definition write_problem :: "api_problem \<Rightarrow> reply" where
  "write_problem p = write_error (pb_status p) (pb_code p) (pb_message p)"

text \<open>Results of functions that report a problem: \<open>Inl\<close> the problem.\<close>

definition given_or_saved_token ::
  "token_store option \<Rightarrow> string \<Rightarrow> string \<Rightarrow> string \<Rightarrow> (api_problem + string) io" where
  "given_or_saved_token tokens forge inst given =
     (let none = problem 400 ''no_saved_token'' ''no token given and none saved for this forge'' in
      if given \<noteq> [] then retE (Inr given)
      else case tokens of
        None \<Rightarrow> retE (Inl none)
      | Some ts \<Rightarrow>
          bindE (tryE (ts_token ts forge inst)) (\<lambda>got.
          retE (case got of
              Inr token \<Rightarrow> Inr token
            | Inl e \<Rightarrow> if is_err e ErrSavedTokenNotFound then Inl none
                       else Inl (problem 500 ''internal_error'' ''read saved token''))))"

subsection \<open>Settings\<close>

definition settings_fields :: "settings \<Rightarrow> (string \<times> json) list" where
  "settings_fields s =
     [(''theme'', JStr (sn_theme s)), (''forgeFilter'', JStr (sn_forge s)),
      (''pipelinesHealthFilter'', JStr (sn_health s)), (''pipelinesRepoSelector'', JStr (sn_repo s)),
      (''pipelinesSortOrder'', JStr (sn_sort s)), (''telemetryWindow'', JStr (sn_window s))]"

definition settings_json :: "settings \<Rightarrow> json" where
  "settings_json s = JObj (settings_fields s @ [(''defaults'', JObj (settings_fields default_settings))])"

definition settings_get_handler :: "sstore \<Rightarrow> auth_info option \<Rightarrow> reply io" where
  "settings_get_handler st info =
     require_auth info (\<lambda>i.
     bindE (tryE (settings_get st (ai_user i))) (\<lambda>got.
     retE (case got of
         Inl _ \<Rightarrow> write_error 500 ''internal_error'' ''get settings''
       | Inr s \<Rightarrow> write_json 200 (settings_json s))))"

definition classify_settings_error :: "goerr \<Rightarrow> string \<times> string" where
  "classify_settings_error e =
     (if is_err e ErrInvalidKey \<or> is_err e ErrInvalidValue then (''invalid_body'', error_text e)
      else (''internal_error'', ''update settings''))"

definition settings_patch_handler ::
  "sstore \<Rightarrow> (patch \<Rightarrow> patch) \<Rightarrow> (string \<Rightarrow> patch json_scan) \<Rightarrow> auth_info option \<Rightarrow> request \<Rightarrow> reply io" where
  "settings_patch_handler st ord scan info q =
     require_auth info (\<lambda>i.
     with_body (read_json scan q) (\<lambda>updates.
     bindE (tryE (settings_update st ord (ai_user i) updates)) (\<lambda>got.
     retE (case got of
         Inl e \<Rightarrow> (case classify_settings_error e of (code, message) \<Rightarrow>
                    write_error (if code = ''invalid_body'' then 400 else 500) code message)
       | Inr s \<Rightarrow> write_json 200 (settings_json s)))))"

end
