(* ===== verification/HttpMetrics.thy ===== *)
theory HttpMetrics
  imports Http MetricsService RunServices
begin

text \<open>
  The read handlers behind the dashboard (\<open>pipelines.go\<close>, \<open>run_list.go\<close>, \<open>branches.go\<close>,
  \<open>failure_insights.go\<close>, \<open>flaky_steps.go\<close>, \<open>branch_filter.go\<close>), the quarantine handlers
  (\<open>quarantine.go\<close>) and the trees they answer with. The functions \<open>*_json\<close> are the DTO
  types and their \<open>to...DTO\<close> conversions; the query of each endpoint is a function of its own,
  shared with the MCP tools.
\<close>

subsection \<open>DTOs\<close>

definition health_text :: "health_status \<Rightarrow> string" where
  "health_text h = (case h of HealthHealthy \<Rightarrow> ''healthy'' | HealthUnhealthy \<Rightarrow> ''unhealthy'')"

definition signal_text :: "signal \<Rightarrow> string" where
  "signal_text s = (case s of SignalFailureRate \<Rightarrow> ''failure_rate''
     | SignalDurationRegression \<Rightarrow> ''duration_regression'' | SignalFlakyStep \<Rightarrow> ''flaky_step'')"

definition outcome_label :: "outcome \<Rightarrow> string" where
  "outcome_label x = (case x of OutcomePassed \<Rightarrow> ''passed'' | OutcomeFailed \<Rightarrow> ''failed''
     | OutcomeRunning \<Rightarrow> ''running'' | OutcomeQueued \<Rightarrow> ''queued'' | OutcomeCancelled \<Rightarrow> ''cancelled''
     | OutcomeSkipped \<Rightarrow> ''skipped'' | OutcomeUnknown \<Rightarrow> ''unknown'')"

definition pipeline_fields :: "pipeline \<Rightarrow> (string \<times> json) list" where
  "pipeline_fields p =
     [(''id'', JStr (pl_id p)), (''repoId'', JStr (pl_repo p)), (''name'', JStr (pl_name p)),
      (''healthStatus'', JStr (health_text (pl_health p)))] @
     (if pl_signals p = [] then []
      else [(''triggeredSignals'', JArr (map (\<lambda>s. JStr (signal_text s)) (pl_signals p)))]) @
     omit_nil ''lastRunAt'' JTime (pl_last_run p)"

definition pipeline_list_json :: "pipeline list \<times> bool \<Rightarrow> json" where
  "pipeline_list_json r =
     JObj [(''pipelines'', JArr (map (\<lambda>p. JObj (pipeline_fields p)) (fst r))), (''hasMore'', JBool (snd r))]"

definition trend_json :: "trend \<Rightarrow> json" where
  "trend_json t =
     JObj ([(''timestamps'', JArr (map JTime (tr_timestamps t)))] @ omit_nums ''p50'' (tr_p50 t) @
           omit_nums ''p90'' (tr_p90 t) @ omit_nums ''rate'' (tr_rate t))"

definition pipeline_detail_json :: "pipeline_detail \<Rightarrow> json" where
  "pipeline_detail_json d =
     JObj (pipeline_fields (pd_pipeline d) @
       [(''durationTrend'', trend_json (pd_duration d)), (''failureRateTrend'', trend_json (pd_failure d))])"

definition quarantine_json :: "quarantine \<Rightarrow> json" where
  "quarantine_json q =
     JObj [(''note'', JStr (qn_note q)), (''quarantinedAt'', JTime (qn_at q)), (''expiresAt'', JTime (qn_expires q))]"

definition step_quarantine_json :: "quarantine option \<Rightarrow> json" where
  "step_quarantine_json q =
     JObj ([(''quarantined'', JBool (q \<noteq> None))] @ omit_nil ''quarantine'' quarantine_json q)"

definition step_json :: "step \<Rightarrow> json" where
  "step_json s =
     JObj ([(''id'', JStr (sp_id s)), (''name'', JStr (sp_name s)),
            (''durationContributionSeconds'', JNum (sp_contribution s)), (''queueSeconds'', JNum (sp_queue s)),
            (''execSeconds'', JNum (sp_exec s)), (''failureRate'', JNum (sp_failure_rate s)),
            (''failureCount'', JInt (sp_failure_count s)), (''flaky'', JBool (sp_flaky s)),
            (''quarantined'', JBool (sp_quarantine s \<noteq> None))] @
           omit_nil ''quarantine'' quarantine_json (sp_quarantine s) @ omit_empty ''forgeUrl'' (sp_url s))"

definition flaky_run_json :: "flaky_run \<Rightarrow> json" where
  "flaky_run_json r =
     JObj ([(''runId'', JStr (fr_run r))] @ omit_nil ''startedAt'' JTime (fr_started r) @
           [(''forgeUrl'', JStr (fr_url r))])"

definition run_step_json :: "run_step \<Rightarrow> json" where
  "run_step_json s =
     JObj (omit_empty ''jobId'' (rs_job s) @ [(''name'', JStr (rs_name s)), (''status'', JStr (rs_status s))] @
           omit_empty ''conclusion'' (rs_conclusion s) @
           [(''outcome'', JStr (outcome_label (outcome_of (rs_status s) (rs_conclusion s))))] @
           omit_empty ''forgeUrl'' (rs_url s))"

definition run_detail_json :: "run_detail \<Rightarrow> json" where
  "run_detail_json d =
     JObj ([(''runId'', JStr (rd_run d))] @ omit_nil ''startedAt'' JTime (rd_started d) @
           [(''steps'', JArr (map run_step_json (rd_steps d)))])"

definition steps_group_json :: "steps_group \<Rightarrow> json" where
  "steps_group_json g =
     JObj [(''pipelineId'', JStr (gr_id g)), (''pipelineName'', JStr (gr_name g)), (''repoId'', JStr (gr_repo g)),
           (''steps'', JArr (map step_json (gr_steps g)))]"

definition unhealthy_json :: "steps_group list \<times> bool \<Rightarrow> json" where
  "unhealthy_json r = JObj [(''groups'', JArr (map steps_group_json (fst r))), (''hasMore'', JBool (snd r))]"

definition usage_json :: "usage_entry \<Rightarrow> json" where
  "usage_json u = JObj [(''workflow'', JStr (ue_workflow u)), (''runnerMinutes'', JNum (ue_minutes u))]"

definition run_summary_json :: "run_entry \<Rightarrow> json" where
  "run_summary_json e =
     JObj ([(''id'', JStr (re_id e)), (''pipelineId'', JStr (pipeline_id (re_pipeline e))),
            (''pipelineName'', JStr (pr_name (re_pipeline e))), (''repoId'', JStr (pr_repo (re_pipeline e))),
            (''status'', JStr (re_status e))] @
           omit_empty ''conclusion'' (re_conclusion e) @
           [(''outcome'', JStr (outcome_label (outcome_of (re_status e) (re_conclusion e))))] @
           omit_nil ''startedAt'' JTime (re_started e) @
           omit_nil ''durationSeconds'' JNum (duration_seconds (re_started e) (re_completed e)) @
           omit_empty ''branch'' (re_branch e) @ omit_empty ''sha'' (re_sha e) @
           omit_empty ''message'' (re_message e) @ omit_empty ''actor'' (re_actor e) @
           omit_empty ''forgeUrl'' (re_url e) @
           [(''actions'', JArr (map (\<lambda>a. JStr (action_name a)) (actions_for (re_forge e) (re_status e)))),
            (''steps'', JArr (map run_step_json (re_steps e)))])"

definition run_list_json :: "run_entry list \<times> bool \<Rightarrow> json" where
  "run_list_json r = JObj [(''runs'', JArr (map run_summary_json (fst r))), (''hasMore'', JBool (snd r))]"

definition branch_list_json :: "insight_window \<Rightarrow> branch_count list \<Rightarrow> json" where
  "branch_list_json w branches =
     JObj [(''window'', JStr (insight_label w)),
           (''branches'', JArr (map (\<lambda>b. JObj [(''name'', JStr (bc_name b)), (''runCount'', JInt (bc_count b))]) branches))]"

definition failing_pipeline_json :: "failing_pipeline \<Rightarrow> json" where
  "failing_pipeline_json p =
     JObj [(''pipelineId'', JStr (pipeline_id (fp_pipeline p))), (''pipelineName'', JStr (pr_name (fp_pipeline p))),
           (''repoId'', JStr (pr_repo (fp_pipeline p))), (''runs'', JInt (fp_runs p)), (''failedRuns'', JInt (fp_failed p))]"

definition failure_group_json :: "failure_group \<Rightarrow> json" where
  "failure_group_json g =
     JObj ([(''step'', JStr (fg_step g)), (''category'', JStr (category_text (fg_category g)))] @
           omit_empty ''conclusion'' (fg_conclusion g) @
           [(''occurrences'', JInt (fg_occurrences g)),
            (''pipelines'', JArr (map (\<lambda>r. JObj [(''pipelineId'', JStr (pipeline_id r)),
                                              (''pipelineName'', JStr (pr_name r))]) (fg_pipelines g)))])"

definition failure_insights_json :: "failure_insights \<Rightarrow> json" where
  "failure_insights_json f =
     JObj ([(''window'', JStr (insight_label (fi_window f))), (''totalRuns'', JInt (fi_total f)),
            (''failedRuns'', JInt (fi_failed f))] @
           omit_nil ''passRate'' JNum (fi_pass_rate f) @ omit_nil ''passRateDelta'' JNum (fi_pass_delta f) @
           [(''flakyStepRatio'', JNum (fi_flaky_ratio f))] @
           omit_nil ''mttrSeconds'' (\<lambda>d. JNum (duration_to_seconds d)) (fi_mttr f) @
           [(''stageDistribution'', JArr (map (\<lambda>s. JObj [(''step'', JStr (sf_step s)),
               (''failures'', JInt (sf_failures s)), (''share'', JNum (sf_share s))]) (fi_stages f))),
            (''categoryBreakdown'', JArr (map (\<lambda>c. JObj [(''category'', JStr (category_text (cc_category c))),
               (''occurrences'', JInt (cc_occurrences c)), (''share'', JNum (cc_share c))]) (fi_categories f))),
            (''topFailingPipelines'', JArr (map failing_pipeline_json (fi_top f))),
            (''failureGroups'', JArr (map failure_group_json (fi_groups f)))])"

definition flaky_step_json :: "flaky_step \<Rightarrow> json" where
  "flaky_step_json s =
     JObj ([(''pipelineId'', JStr (pipeline_id (fs_pipeline s))), (''pipelineName'', JStr (pr_name (fs_pipeline s))),
            (''repoId'', JStr (pr_repo (fs_pipeline s))), (''name'', JStr (fs_name s)), (''flakeRate'', JNum (fs_rate s)),
            (''runCount'', JInt (fs_runs s)),
            (''recentOutcomes'', JArr (map (\<lambda>x. JStr (outcome_label x)) (fs_outcomes s))),
            (''quarantined'', JBool (fs_quarantine s \<noteq> None))] @
           omit_nil ''quarantine'' quarantine_json (fs_quarantine s))"

definition flaky_list_json :: "insight_window \<Rightarrow> flaky_step list \<times> bool \<Rightarrow> json" where
  "flaky_list_json w r =
     JObj [(''window'', JStr (insight_label w)), (''steps'', JArr (map flaky_step_json (fst r))), (''hasMore'', JBool (snd r))]"

subsection \<open>Pipelines and runs\<close>

text \<open>The reply to a service result: the error's status, or the body.\<close>

definition answer :: "'a res \<Rightarrow> (goerr \<Rightarrow> reply) \<Rightarrow> ('a \<Rightarrow> json) \<Rightarrow> reply" where
  "answer got err body = (case got of Inl e \<Rightarrow> err e | Inr x \<Rightarrow> write_json 200 (body x))"

definition internal :: "string \<Rightarrow> reply" where
  "internal message = write_error 500 ''internal_error'' message"

definition limit_of :: "request \<Rightarrow> int" where "limit_of q = atoi_ignore (query q ''limit'')"
definition offset_of :: "request \<Rightarrow> int" where "offset_of q = atoi_ignore (query q ''offset'')"

definition list_pipelines_handler :: "mstore \<Rightarrow> request \<Rightarrow> reply io" where
  "list_pipelines_handler st q =
     (case parse_health_filter (query q ''health'') of
        Inl _ \<Rightarrow> retE (write_error 400 ''invalid_health'' ''health must be healthy or unhealthy'')
      | Inr health \<Rightarrow>
          (case parse_pipeline_sort (query q ''sort'') of
             Inl _ \<Rightarrow> retE (write_error 400 ''invalid_sort'' ''sort must be name or lastRun'')
           | Inr order \<Rightarrow>
               bindE (tryE (list_pipelines st (parse_window (query q ''window''))
                 \<lparr> pf_repo = query q ''repoId'', pf_forge = query q ''forge'', pf_health = health, pf_sort = order,
                   pf_limit = limit_of q, pf_offset = offset_of q \<rparr>)) (\<lambda>got.
               retE (answer got (\<lambda>_. internal ''list pipelines'') pipeline_list_json))))"

definition pipeline_not_found :: reply where
  "pipeline_not_found = write_error 404 ''not_found'' ''pipeline not found''"

definition get_pipeline_handler :: "mstore \<Rightarrow> string \<Rightarrow> request \<Rightarrow> reply io" where
  "get_pipeline_handler st i q =
     bindE (tryE (get_pipeline st i (parse_window (query q ''window'')))) (\<lambda>got.
     retE (answer got
       (\<lambda>e. if is_err e ErrPipelineNotFound \<or> is_err e ErrInvalidPipelineID then pipeline_not_found
            else internal ''get pipeline'') pipeline_detail_json))"

definition pipeline_steps_handler :: "mstore \<Rightarrow> string \<Rightarrow> request \<Rightarrow> reply io" where
  "pipeline_steps_handler st i q =
     bindE (tryE (get_pipeline_steps st i (parse_window (query q ''window'')))) (\<lambda>got.
     retE (answer got
       (\<lambda>e. if is_err e ErrInvalidPipelineID then pipeline_not_found else internal ''get pipeline steps'')
       (\<lambda>steps. JArr (map step_json steps))))"

definition flaky_runs_handler :: "mstore \<Rightarrow> string \<Rightarrow> request \<Rightarrow> reply io" where
  "flaky_runs_handler st i q =
     bindE (tryE (list_flaky_runs st i (query q ''step'') (parse_window (query q ''window'')))) (\<lambda>got.
     retE (answer got
       (\<lambda>e. if is_err e ErrInvalidPipelineID then pipeline_not_found else internal ''list flaky runs'')
       (\<lambda>runs. JArr (map flaky_run_json runs))))"

definition run_steps_handler :: "mstore \<Rightarrow> string \<Rightarrow> reply io" where
  "run_steps_handler st run_id =
     bindE (tryE (get_run_steps st run_id)) (\<lambda>got.
     retE (answer got
       (\<lambda>e. if is_err e ErrMetricsRunNotFound then write_error 404 ''not_found'' ''run not found''
            else internal ''get run steps'') run_detail_json))"

definition unhealthy_steps_handler :: "mstore \<Rightarrow> request \<Rightarrow> reply io" where
  "unhealthy_steps_handler st q =
     bindE (tryE (list_unhealthy_steps st (parse_window (query q ''window'')) (limit_of q) (offset_of q))) (\<lambda>got.
     retE (answer got (\<lambda>_. internal ''list unhealthy steps'') unhealthy_json))"

definition max_branch_length :: nat where "max_branch_length = 255"

definition branch_filter :: "request \<Rightarrow> reply + string" where
  "branch_filter q =
     (let branch = query q ''branch'' in
      if max_branch_length < length branch
      then Inl (write_error 400 ''invalid_branch'' ''branch must be at most 255 characters'') else Inr branch)"

definition list_runs_handler :: "mstore \<Rightarrow> request \<Rightarrow> reply io" where
  "list_runs_handler st q =
     (case parse_run_status (query q ''status'') of
        Inl _ \<Rightarrow> retE (write_error 400 ''invalid_status'' ''status must be one of all, failed, running, success'')
      | Inr status \<Rightarrow>
          with_body (branch_filter q) (\<lambda>branch.
          bindE (tryE (list_runs st \<lparr> rf_repo = query q ''repoId'', rf_forge = query q ''forge'', rf_branch = branch,
            rf_status = status, rf_limit = limit_of q, rf_offset = offset_of q \<rparr>)) (\<lambda>got.
          retE (answer got (\<lambda>_. internal ''list runs'') run_list_json))))"

subsection \<open>Telemetry\<close>

definition list_branches_handler :: "mstore \<Rightarrow> request \<Rightarrow> reply io" where
  "list_branches_handler st q =
     (let w = parse_insight_window (query q ''window'') in
      bindE nowE (\<lambda>now.
      bindE (tryE (list_branches st now w \<lparr> if_repo = query q ''repoId'', if_forge = query q ''forge'', if_branch = [] \<rparr>)) (\<lambda>got.
      retE (answer got (\<lambda>_. internal ''list branches'') (branch_list_json w)))))"

definition failure_insights_handler ::
  "mstore \<Rightarrow> orders \<Rightarrow> (string \<Rightarrow> string list) \<Rightarrow> request \<Rightarrow> reply io" where
  "failure_insights_handler st os U q =
     with_body (branch_filter q) (\<lambda>branch.
     bindE nowE (\<lambda>now.
     bindE (tryE (get_failure_insights st os U now (parse_insight_window (query q ''window''))
       \<lparr> if_repo = query q ''repoId'', if_forge = query q ''forge'', if_branch = branch \<rparr>)) (\<lambda>got.
     retE (answer got (\<lambda>_. internal ''compute failure insights'') failure_insights_json))))"

definition flaky_steps_handler :: "mstore \<Rightarrow> orders \<Rightarrow> request \<Rightarrow> reply io" where
  "flaky_steps_handler st os q =
     with_body (branch_filter q) (\<lambda>branch.
     let w = parse_insight_window (query q ''window'') in
     bindE nowE (\<lambda>now.
     bindE (tryE (list_flaky_steps st os now w
       \<lparr> if_repo = query q ''repoId'', if_forge = query q ''forge'', if_branch = branch \<rparr> (limit_of q) (offset_of q))) (\<lambda>got.
     retE (answer got (\<lambda>_. internal ''list flaky steps'') (flaky_list_json w)))))"

subsection \<open>Quarantine\<close>

definition classify_quarantine_error :: "goerr \<Rightarrow> int \<times> string \<times> string" where
  "classify_quarantine_error e =
     (if is_err e ErrPipelineNotFound \<or> is_err e ErrInvalidPipelineID then (404, ''not_found'', ''pipeline not found'')
      else if is_err e ErrQuarantineNoteTooLong then (422, ''note_too_long'', ''a note is at most 500 characters'')
      else (500, ''internal_error'', ''update quarantine''))"

definition quarantine_error :: "goerr \<Rightarrow> reply" where
  "quarantine_error e =
     (case classify_quarantine_error e of (status, code, message) \<Rightarrow> write_error status code message)"

text \<open>The arguments are evaluated before the call: the clock is read first.\<close>

definition quarantine_handler ::
  "mstore \<Rightarrow> (string \<Rightarrow> string json_scan) \<Rightarrow> auth_info option \<Rightarrow> string \<Rightarrow> string \<Rightarrow> request \<Rightarrow> reply io" where
  "quarantine_handler st scan info pid step_name q =
     require_via_session ''quarantine a step'' info (\<lambda>_.
     with_body (read_optional_json [] scan q) (\<lambda>note.
     bindE nowE (\<lambda>now.
     bindE (tryE (quarantine_step st pid step_name note now)) (\<lambda>got.
     retE (answer got quarantine_error (\<lambda>m. step_quarantine_json (Some m)))))))"

definition unquarantine_handler :: "mstore \<Rightarrow> auth_info option \<Rightarrow> string \<Rightarrow> string \<Rightarrow> reply io" where
  "unquarantine_handler st info pid step_name =
     require_via_session ''un-quarantine a step'' info (\<lambda>_.
     bindE (tryE (unquarantine_step st pid step_name)) (\<lambda>got.
     retE (answer got quarantine_error (\<lambda>_. step_quarantine_json None))))"

end
