(* ===== verification/HttpIngest.thy ===== *)
theory HttpIngest
  imports HttpAuth HttpMetrics ForgeClients
begin

text \<open>
  The handlers around ingestion: tracked repositories (\<open>repos.go\<close>), their usage, webhook
  deliveries (\<open>webhooks.go\<close>), run actions (\<open>run_actions.go\<close>), job logs (\<open>job_log.go\<close>) and the
  rate limits by token (\<open>insights.go\<close>).
\<close>

subsection \<open>Repositories\<close>

definition repo_json :: "repo \<Rightarrow> json" where
  "repo_json r =
     JObj ([(''id'', JStr (tr_id r)), (''forge'', JStr (tr_forge r)), (''identifier'', JStr (tr_identifier r))] @
           omit_empty ''forgejoInstanceUrl'' (tr_instance r) @
           [(''tokenMasked'', JStr (tr_masked r)), (''ingestionStatus'', JStr (tr_status r))] @
           omit_empty ''ingestionStatusReason'' (tr_reason r))"

definition repo_list_json :: "repo list \<times> bool \<Rightarrow> json" where
  "repo_list_json r = JObj [(''repos'', JArr (map repo_json (fst r))), (''hasMore'', JBool (snd r))]"

definition list_repos_handler :: "rstore \<Rightarrow> request \<Rightarrow> reply io" where
  "list_repos_handler st q =
     bindE (tryE (is_list st \<lparr> rl_forge = query q ''forge'', rl_limit = limit_of q, rl_offset = offset_of q \<rparr>)) (\<lambda>got.
     retE (answer got (\<lambda>_. internal ''list repos'') repo_list_json))"

definition registration_conflict :: "goerr \<Rightarrow> (string \<times> string) option" where
  "registration_conflict e =
     (if is_err e ErrRepoAlreadyTracked then Some (''already_tracked'', ''this repo is already tracked'')
      else if is_err e ErrRepoArchived then Some (''repo_archived'', ''this repo is archived'')
      else if is_err e ErrRepoFork then Some (''repo_fork'', ''this repo is a fork'')
      else if is_err e ErrRepoMirror then Some (''repo_mirror'', ''this repo is a mirror'')
      else None)"

text \<open>\<open>Registrar\<close> as the handlers see it: \<open>Register\<close> and \<open>Discover\<close>.\<close>

record registrar =
  rg_register :: "new_repo \<Rightarrow> repo io"
  rg_discover :: "string \<Rightarrow> string \<Rightarrow> string \<Rightarrow> string list io"

definition the_registrar :: "rstore \<Rightarrow> clients \<Rightarrow> string \<Rightarrow> registrar" where
  "the_registrar st cs url = \<lparr> rg_register = register st cs url, rg_discover = discover cs \<rparr>"

definition register_error :: "goerr \<Rightarrow> api_problem" where
  "register_error e =
     (case registration_conflict e of
        Some (code, message) \<Rightarrow> problem 409 code message
      | None \<Rightarrow> problem 500 ''internal_error'' ''register repo'')"

definition register_repo ::
  "registrar \<Rightarrow> token_store option \<Rightarrow> new_repo \<Rightarrow> (api_problem + repo) io" where
  "register_repo rg tokens n =
     (if nr_identifier n = [] \<or> \<not> valid_forge (nr_forge n)
      then retE (Inl (problem 400 ''invalid_body'' ''forge and identifier are required''))
      else if max_identifier_length < length (nr_identifier n) \<or> max_token_length < length (nr_token n) \<or>
              max_instance_url_length < length (nr_instance n)
      then retE (Inl (problem 400 ''invalid_body'' ''identifier, token or instance URL is too long''))
      else
        bindE (given_or_saved_token tokens (nr_forge n) (nr_instance n) (nr_token n)) (\<lambda>found.
        case found of
          Inl p \<Rightarrow> retE (Inl p)
        | Inr token \<Rightarrow>
            bindE (tryE (rg_register rg (n\<lparr>nr_token := token\<rparr>))) (\<lambda>got.
            retE (case got of Inl e \<Rightarrow> Inl (register_error e) | Inr r \<Rightarrow> Inr r))))"

definition answer_problem :: "int \<Rightarrow> (api_problem + 'a) \<Rightarrow> ('a \<Rightarrow> json) \<Rightarrow> reply" where
  "answer_problem status got body =
     (case got of Inl p \<Rightarrow> write_problem p | Inr x \<Rightarrow> write_json status (body x))"

definition register_handler ::
  "registrar \<Rightarrow> token_store option \<Rightarrow> (string \<Rightarrow> new_repo json_scan) \<Rightarrow> request \<Rightarrow> reply io" where
  "register_handler rg tokens scan q =
     with_body (read_json scan q) (\<lambda>n.
     bindE (register_repo rg tokens n) (\<lambda>got. retE (answer_problem 201 got repo_json)))"

definition identifiers_json :: "string list \<Rightarrow> json" where
  "identifiers_json ids = JObj [(''identifiers'', JArr (map JStr ids))]"

definition identifiers_handler :: "rstore \<Rightarrow> request \<Rightarrow> reply io" where
  "identifiers_handler st q =
     (let forge = query q ''forge'' in
      if \<not> valid_forge forge then retE (write_error 400 ''invalid_query'' ''forge is required'')
      else
        bindE (tryE (is_identifiers st forge (query q ''forgejoInstanceUrl''))) (\<lambda>got.
        retE (answer got (\<lambda>_. internal ''list repo identifiers'') identifiers_json)))"

record discovery_body =
  db_forge :: string
  db_instance :: string
  db_token :: string

definition discover_repos ::
  "registrar \<Rightarrow> token_store option \<Rightarrow> discovery_body \<Rightarrow> (api_problem + string list) io" where
  "discover_repos rg tokens b =
     (if \<not> valid_forge (db_forge b) then retE (Inl (problem 400 ''invalid_body'' ''forge is required''))
      else if max_token_length < length (db_token b) \<or> max_instance_url_length < length (db_instance b)
      then retE (Inl (problem 400 ''invalid_body'' ''token or instance URL is too long''))
      else
        bindE (given_or_saved_token tokens (db_forge b) (db_instance b) (db_token b)) (\<lambda>found.
        case found of
          Inl p \<Rightarrow> retE (Inl p)
        | Inr token \<Rightarrow>
            bindE (tryE (rg_discover rg (db_forge b) (db_instance b) token)) (\<lambda>got.
            retE (case got of
                Inl e \<Rightarrow> Inl (problem 502 ''forge_error'' (''could not list repositories: '' @ error_text e))
              | Inr repos \<Rightarrow> Inr repos))))"

definition discover_handler ::
  "registrar \<Rightarrow> token_store option \<Rightarrow> (string \<Rightarrow> discovery_body json_scan) \<Rightarrow> request \<Rightarrow> reply io" where
  "discover_handler rg tokens scan q =
     with_body (read_json scan q) (\<lambda>b.
     bindE (discover_repos rg tokens b) (\<lambda>got. retE (answer_problem 200 got (\<lambda>repos. JArr (map JStr repos)))))"

definition tracked_repo :: "rstore \<Rightarrow> string \<Rightarrow> (api_problem + repo) io" where
  "tracked_repo st i =
     bindE (tryE (is_get st i)) (\<lambda>got.
     retE (case got of
         Inl e \<Rightarrow> if is_err e ErrRepoNotFound then Inl (problem 404 ''not_found'' ''repo not found'')
                  else Inl (problem 500 ''internal_error'' ''get repo'')
       | Inr r \<Rightarrow> Inr r))"

definition get_repo_handler :: "rstore \<Rightarrow> string \<Rightarrow> reply io" where
  "get_repo_handler st i = bindE (tracked_repo st i) (\<lambda>got. retE (answer_problem 200 got repo_json))"

definition untrack_repo :: "rstore \<Rightarrow> string \<Rightarrow> (api_problem + unit) io" where
  "untrack_repo st i =
     bindE (tryE (is_delete st i)) (\<lambda>got.
     retE (case got of
         Inl e \<Rightarrow> if is_err e ErrRepoNotFound then Inl (problem 404 ''not_found'' ''repo not found'')
                  else Inl (problem 500 ''internal_error'' ''untrack repo'')
       | Inr _ \<Rightarrow> Inr ()))"

definition untrack_handler :: "rstore \<Rightarrow> string \<Rightarrow> reply io" where
  "untrack_handler st i =
     bindE (untrack_repo st i) (\<lambda>got.
     retE (case got of Inl p \<Rightarrow> write_problem p | Inr _ \<Rightarrow> write_status 204))"

definition usage_handler :: "rstore \<Rightarrow> mstore \<Rightarrow> string \<Rightarrow> request \<Rightarrow> reply io" where
  "usage_handler st ms i q =
     bindE (tracked_repo st i) (\<lambda>found.
     case found of
       Inl p \<Rightarrow> retE (write_problem p)
     | Inr _ \<Rightarrow>
         bindE (tryE (get_repo_usage ms i (parse_window (query q ''window'')))) (\<lambda>got.
         retE (answer got (\<lambda>_. internal ''get repo usage'') (\<lambda>usage. JArr (map usage_json usage)))))"

subsection \<open>Webhooks\<close>

definition invalid_signature :: reply where
  "invalid_signature = write_error 401 ''invalid_signature'' ''signature verification failed''"

text \<open>
  \<open>receive\<close>. \<open>full_name\<close> is \<open>json.Unmarshal\<close> of the body into the repository's name: an
  error, or the name, empty when the body has none.
\<close>

definition receive ::
  "runstore \<Rightarrow> (string \<Rightarrow> string \<Rightarrow> string) \<Rightarrow> (string \<Rightarrow> string res) \<Rightarrow> string \<Rightarrow> string \<Rightarrow> string \<Rightarrow>
   (repo \<Rightarrow> string \<Rightarrow> string \<Rightarrow> unit io) \<Rightarrow> request \<Rightarrow> reply io" where
  "receive rn hmac full_name forge signature_header event_header process q =
     (if rq_end q = BodyCut then retE payload_too_large
      else if rq_end q = BodyFailed then retE (write_error 400 ''invalid_body'' ''could not read request body'')
      else case full_name (rq_body q) of
        Inl _ \<Rightarrow> retE invalid_signature
      | Inr name \<Rightarrow>
          bindE (tryE (rn_by_identifier rn forge name)) (\<lambda>found.
          case found of
            Inl _ \<Rightarrow> retE invalid_signature
          | Inr r \<Rightarrow>
              if \<not> verify_signature hmac (tr_secret r) (rq_body q) (header q signature_header)
              then retE invalid_signature
              else
                bindE (tryE (process r (header q event_header) (rq_body q))) (\<lambda>done'.
                retE (case done' of
                    Inl _ \<Rightarrow> internal ''process webhook event''
                  | Inr _ \<Rightarrow> write_status 202))))"

record webhook_decoders =
  wd_full_name :: "string \<Rightarrow> string res"
  wd_run :: "string \<Rightarrow> workflow_run_event res"
  wd_job :: "string \<Rightarrow> workflow_job_event res"

definition github_webhook ::
  "runstore \<Rightarrow> (string \<Rightarrow> string \<Rightarrow> string) \<Rightarrow> webhook_decoders \<Rightarrow> request \<Rightarrow> reply io" where
  "github_webhook rn hmac dec =
     receive rn hmac (wd_full_name dec) ''github'' ''X-Hub-Signature-256'' ''X-GitHub-Event''
       (process_github_event (wd_run dec) (wd_job dec) rn)"

definition forgejo_webhook ::
  "runstore \<Rightarrow> (string \<Rightarrow> string \<Rightarrow> string) \<Rightarrow> webhook_decoders \<Rightarrow> (repo \<Rightarrow> unit io) \<Rightarrow> request \<Rightarrow> reply io" where
  "forgejo_webhook rn hmac dec reconcile =
     receive rn hmac (wd_full_name dec) ''forgejo'' ''X-Forgejo-Signature'' ''X-Forgejo-Event''
       (\<lambda>r event _. process_forgejo_event reconcile r event)"

subsection \<open>Run actions and job logs\<close>

definition classify_run_action_error :: "goerr \<Rightarrow> api_problem" where
  "classify_run_action_error e =
     (if is_err e ErrRunNotFound then problem 404 ''not_found'' ''run not found''
      else if is_err e ErrNotActionable then problem 409 ''not_actionable'' ''the run's state doesn't allow this''
      else if is_err e ErrActionForbidden
      then problem 403 ''forbidden'' ''the saved token needs Actions write permission to do this''
      else if is_err e ErrActionUnsupported then problem 501 ''unsupported'' ''this forge has no API for this action''
      else if is_err e ErrActionUnreachable then problem 502 ''unreachable'' ''the forge didn't answer''
      else problem 500 ''internal_error'' ''act on run'')"

definition run_action_handler :: "(string \<Rightarrow> unit io) \<Rightarrow> auth_info option \<Rightarrow> string \<Rightarrow> reply io" where
  "run_action_handler act info run_id =
     require_via_session ''act on a run'' info (\<lambda>_.
     bindE (tryE (act run_id)) (\<lambda>got.
     retE (case got of
         Inr _ \<Rightarrow> write_status 202
       | Inl e \<Rightarrow> write_problem (classify_run_action_error e))))"

definition reason_text :: "log_reason \<Rightarrow> string" where
  "reason_text r = (case r of LogAvailable \<Rightarrow> [] | LogUnsupported \<Rightarrow> ''unsupported'' | LogExpired \<Rightarrow> ''expired''
     | LogForbidden \<Rightarrow> ''forbidden'' | LogUnreachable \<Rightarrow> ''unreachable'')"

definition job_log_json :: "log_result \<Rightarrow> json" where
  "job_log_json r =
     JObj ([(''available'', JBool (lo_available r))] @ omit_empty ''reason'' (reason_text (lo_reason r)) @
           [(''lines'', JArr (map JStr (lo_lines r))), (''truncated'', JBool (lo_truncated r)),
            (''forgeUrl'', JStr (lo_url r))])"

text \<open>The \<open>lines\<close> parameter: absent is \<open>0\<close>, anything but a number from 1 to 1000 is refused.\<close>

definition log_lines_param :: "string \<Rightarrow> int option" where
  "log_lines_param raw =
     (if raw = [] then Some 0
      else case atoi raw of
        None \<Rightarrow> None
      | Some n \<Rightarrow> if n < 1 \<or> max_log_lines < n then None else Some n)"

definition job_log_handler ::
  "(string \<Rightarrow> string \<Rightarrow> int \<Rightarrow> log_result io) \<Rightarrow> string \<Rightarrow> string \<Rightarrow> request \<Rightarrow> reply io" where
  "job_log_handler tail run_id job_id q =
     (case log_lines_param (query q ''lines'') of
        None \<Rightarrow> retE (write_error 400 ''invalid_lines'' ''lines must be a whole number from 1 to 1000'')
      | Some n \<Rightarrow>
          bindE (tryE (tail run_id job_id n)) (\<lambda>got.
          retE (answer got
            (\<lambda>e. if is_err e ErrJobNotFound then write_error 404 ''not_found'' ''job not found''
                 else internal ''get job log'') job_log_json)))"

subsection \<open>Rate limits by token\<close>

record token_group =
  tg_masked :: string
  tg_identifiers :: "string list"
  tg_status :: "rate_limit option"

text \<open>\<open>attachStatus\<close>: the first status found for the group's token stays.\<close>

definition attach_status :: "(string \<Rightarrow> rate_limit option io) option \<Rightarrow> string \<Rightarrow> token_group \<Rightarrow> token_group io" where
  "attach_status limits token g =
     (case limits of
        None \<Rightarrow> retE g
      | Some limit_for \<Rightarrow>
          if tg_status g \<noteq> None then retE g
          else bindE (limit_for token) (\<lambda>s. retE (g\<lparr>tg_status := s\<rparr>)))"

text \<open>One list, in first-seen order, for the code's \<open>order\<close> and \<open>byToken\<close>.\<close>

definition group_repo ::
  "rstore \<Rightarrow> (string \<Rightarrow> rate_limit option io) option \<Rightarrow> repo \<Rightarrow> (string \<times> token_group) list \<Rightarrow>
   (string \<times> token_group) list io" where
  "group_repo st limits r groups =
     (if tr_forge r \<noteq> ''github'' then retE groups
      else
        bindE (tryE (is_token st (tr_id r))) (\<lambda>got.
        case got of
          Inl _ \<Rightarrow> retE groups
        | Inr token \<Rightarrow>
            let fresh = \<lparr> tg_masked = tr_masked r, tg_identifiers = [], tg_status = None \<rparr>;
                g = (case map_of groups token of None \<Rightarrow> fresh | Some g \<Rightarrow> g);
                g = g\<lparr>tg_identifiers := tg_identifiers g @ [tr_identifier r]\<rparr>
            in bindE (attach_status limits token g) (\<lambda>g'. retE (map_upsert token g' (\<lambda>_. g') groups))))"

fun group_by_token ::
  "rstore \<Rightarrow> (string \<Rightarrow> rate_limit option io) option \<Rightarrow> repo list \<Rightarrow> (string \<times> token_group) list \<Rightarrow>
   (string \<times> token_group) list io" where
  "group_by_token st limits [] groups = retE groups"
| "group_by_token st limits (r # rs) groups =
     bindE (group_repo st limits r groups) (\<lambda>groups'. group_by_token st limits rs groups')"

definition rate_limit_json :: "rate_limit \<Rightarrow> json" where
  "rate_limit_json l =
     JObj [(''limit'', JInt (rt_limit l)), (''remaining'', JInt (rt_remaining l)), (''used'', JInt (rt_used l)),
           (''resetAt'', JTime (rt_reset l))]"

definition token_usage_json :: "string \<times> token_group \<Rightarrow> json" where
  "token_usage_json e = (case e of (_, g) \<Rightarrow>
     JObj ([(''tokenMasked'', JStr (tg_masked g)), (''repos'', JArr (map JStr (tg_identifiers g)))] @
           omit_nil ''status'' rate_limit_json (tg_status g)))"

definition token_usage :: "rstore \<Rightarrow> (string \<Rightarrow> rate_limit option io) option \<Rightarrow> json list io" where
  "token_usage st limits =
     bindE (wrapE ''list repos'' (is_list st \<lparr> rl_forge = [], rl_limit = 0, rl_offset = 0 \<rparr>)) (\<lambda>(repos, _).
     bindE (group_by_token st limits repos []) (\<lambda>groups. retE (map token_usage_json groups)))"

definition rate_limit_handler :: "rstore \<Rightarrow> (string \<Rightarrow> rate_limit option io) option \<Rightarrow> reply io" where
  "rate_limit_handler st limits =
     bindE (tryE (token_usage st limits)) (\<lambda>got.
     retE (answer got (\<lambda>_. internal ''list repos'') JArr))"

end
