(* ===== verification/Mcp.thy ===== *)
theory Mcp
  imports HttpIngest
begin

text \<open>
  The MCP tools (\<open>mcp.go\<close> and its siblings): one case per tool over the same services as the
  HTTP handlers. The SDK, which reads a call off a request, checks it against the tool's schema
  and writes the answer, is a parameter; a tool gives the text of its error or its result.
\<close>

subsection \<open>Calls\<close>

record list_pipelines_input =
  lp_repo_id :: string
  lp_forge :: string
  lp_health :: string
  lp_sort :: string
  lp_window :: string
  lp_limit :: int
  lp_offset :: int

record list_runs_input =
  ri_repo_id :: string
  ri_forge :: string
  ri_branch :: string
  ri_status :: string
  ri_limit :: int
  ri_offset :: int

text \<open>The scope of the insight tools: \<open>failureInsightsInput\<close> and its likes.\<close>

record insight_input =
  ii_repo_id :: string
  ii_forge :: string
  ii_branch :: string
  ii_window :: string

datatype tool_call =
    ListPipelines list_pipelines_input
  | GetPipeline string string
  | ListPipelineSteps string string
  | ListPipelineFlakyRuns string string string
  | GetRepoUsage string string
  | ListUnhealthySteps string int int
  | GetFailureInsights insight_input
  | ListRuns list_runs_input
  | GetRunSteps string
  | ListBranches insight_input
  | ListFlakySteps insight_input int int
  | GetJobLog string string int
  | GetVersion
  | ListRepos string int int
  | GetRepo string
  | ListRepoIdentifiers string string
  | GetGitHubRateLimit
  | GetSettings
  | UpdateSettings patch
  | RerunRun string
  | CancelRun string
  | QuarantineStep string string string
  | UnquarantineStep string string
  | RegisterRepo new_repo
  | DiscoverRepos discovery_body
  | UntrackRepo string

text \<open>\<open>mcpHandler\<close>. A service that can be missing is an option.\<close>

record mcp_handler =
  mh_metrics :: mstore
  mh_orders :: orders
  mh_words :: "string \<Rightarrow> string list"
  mh_repos :: rstore
  mh_logs :: "(string \<Rightarrow> string \<Rightarrow> int \<Rightarrow> log_result io) option"
  mh_version :: string
  mh_limits :: "(string \<Rightarrow> rate_limit option io) option"
  mh_settings :: "sstore option"
  mh_patch_order :: "patch \<Rightarrow> patch"
  mh_actions :: "((string \<Rightarrow> unit io) \<times> (string \<Rightarrow> unit io)) option"
  mh_registrar :: "registrar option"
  mh_tokens :: "token_store option"

type_synonym tool_result = "string + json"

definition tool_answer :: "'a res \<Rightarrow> (goerr \<Rightarrow> string) \<Rightarrow> ('a \<Rightarrow> json) \<Rightarrow> tool_result io" where
  "tool_answer got err body = retE (case got of Inl e \<Rightarrow> Inl (err e) | Inr x \<Rightarrow> Inr (body x))"

definition failed :: "string \<Rightarrow> goerr \<Rightarrow> string" where
  "failed what e = what @ '': '' @ error_text e"

definition about :: "sentinel \<Rightarrow> string \<Rightarrow> string" where
  "about s detail = sentinel_text s @ '': '' @ detail"

definition tool_error :: "string \<Rightarrow> string \<Rightarrow> string" where
  "tool_error code message = code @ '': '' @ message"

definition problem_error :: "api_problem \<Rightarrow> string" where
  "problem_error p = tool_error (pb_code p) (pb_message p)"

definition invalid_tool_input :: "string \<Rightarrow> string" where
  "invalid_tool_input detail = ''invalid tool input: '' @ detail"

definition require_tool_session :: "auth_info option \<Rightarrow> string \<Rightarrow> tool_result io \<Rightarrow> tool_result io" where
  "require_tool_session info what act =
     (if via_session info then act
      else retE (Inl (tool_error ''unauthenticated'' (session_required_message what))))"

subsection \<open>Reads\<close>

definition tool_list_pipelines :: "mcp_handler \<Rightarrow> list_pipelines_input \<Rightarrow> tool_result io" where
  "tool_list_pipelines h i =
     (case parse_health_filter (lp_health i) of
        Inl e \<Rightarrow> retE (Inl (failed ''list pipelines'' e))
      | Inr health \<Rightarrow>
          (case parse_pipeline_sort (lp_sort i) of
             Inl e \<Rightarrow> retE (Inl (failed ''list pipelines'' e))
           | Inr order \<Rightarrow>
               bindE (tryE (list_pipelines (mh_metrics h) (parse_window (lp_window i))
                 \<lparr> pf_repo = lp_repo_id i, pf_forge = lp_forge i, pf_health = health, pf_sort = order,
                   pf_limit = lp_limit i, pf_offset = lp_offset i \<rparr>)) (\<lambda>got.
               tool_answer got (failed ''list pipelines'') pipeline_list_json)))"

definition tool_get_pipeline :: "mcp_handler \<Rightarrow> string \<Rightarrow> string \<Rightarrow> tool_result io" where
  "tool_get_pipeline h pid window =
     bindE (tryE (get_pipeline (mh_metrics h) pid (parse_window window))) (\<lambda>got.
     tool_answer got
       (\<lambda>e. if is_err e ErrPipelineNotFound \<or> is_err e ErrInvalidPipelineID
            then about ErrPipelineNotFound pid else failed ''get pipeline'' e) pipeline_detail_json)"

definition tool_pipeline_steps :: "mcp_handler \<Rightarrow> string \<Rightarrow> string \<Rightarrow> tool_result io" where
  "tool_pipeline_steps h pid window =
     bindE (tryE (get_pipeline_steps (mh_metrics h) pid (parse_window window))) (\<lambda>got.
     tool_answer got
       (\<lambda>e. if is_err e ErrInvalidPipelineID then about ErrInvalidPipelineID pid
            else failed ''get pipeline steps'' e)
       (\<lambda>steps. JObj [(''steps'', JArr (map step_json steps))]))"

definition tool_flaky_runs :: "mcp_handler \<Rightarrow> string \<Rightarrow> string \<Rightarrow> string \<Rightarrow> tool_result io" where
  "tool_flaky_runs h pid step_name window =
     bindE (tryE (list_flaky_runs (mh_metrics h) pid step_name (parse_window window))) (\<lambda>got.
     tool_answer got
       (\<lambda>e. if is_err e ErrInvalidPipelineID then about ErrInvalidPipelineID pid
            else failed ''list flaky runs'' e)
       (\<lambda>runs. JObj [(''runs'', JArr (map flaky_run_json runs))]))"

definition tool_repo_usage :: "mcp_handler \<Rightarrow> string \<Rightarrow> string \<Rightarrow> tool_result io" where
  "tool_repo_usage h repo_id window =
     bindE (tracked_repo (mh_repos h) repo_id) (\<lambda>found.
     case found of
       Inl p \<Rightarrow> retE (Inl (problem_error p))
     | Inr _ \<Rightarrow>
         bindE (tryE (get_repo_usage (mh_metrics h) repo_id (parse_window window))) (\<lambda>got.
         tool_answer got (failed ''get repo usage'') (\<lambda>usage. JObj [(''usage'', JArr (map usage_json usage))])))"

definition tool_unhealthy_steps :: "mcp_handler \<Rightarrow> string \<Rightarrow> int \<Rightarrow> int \<Rightarrow> tool_result io" where
  "tool_unhealthy_steps h window limit offset =
     bindE (tryE (list_unhealthy_steps (mh_metrics h) (parse_window window) limit offset)) (\<lambda>got.
     tool_answer got (failed ''list unhealthy steps'') unhealthy_json)"

definition tool_failure_insights :: "mcp_handler \<Rightarrow> insight_input \<Rightarrow> tool_result io" where
  "tool_failure_insights h i =
     bindE nowE (\<lambda>now.
     bindE (tryE (get_failure_insights (mh_metrics h) (mh_orders h) (mh_words h) now (parse_insight_window (ii_window i))
       \<lparr> if_repo = ii_repo_id i, if_forge = ii_forge i, if_branch = ii_branch i \<rparr>)) (\<lambda>got.
     tool_answer got (failed ''get failure insights'') failure_insights_json))"

definition tool_list_runs :: "mcp_handler \<Rightarrow> list_runs_input \<Rightarrow> tool_result io" where
  "tool_list_runs h i =
     (case parse_run_status (ri_status i) of
        Inl e \<Rightarrow> retE (Inl (failed ''list runs: status must be one of all, failed, running, success'' e))
      | Inr status \<Rightarrow>
          bindE (tryE (list_runs (mh_metrics h) \<lparr> rf_repo = ri_repo_id i, rf_forge = ri_forge i,
            rf_branch = ri_branch i, rf_status = status, rf_limit = ri_limit i, rf_offset = ri_offset i \<rparr>)) (\<lambda>got.
          tool_answer got (failed ''list runs'') run_list_json))"

definition tool_run_steps :: "mcp_handler \<Rightarrow> string \<Rightarrow> tool_result io" where
  "tool_run_steps h run_id =
     bindE (tryE (get_run_steps (mh_metrics h) run_id)) (\<lambda>got.
     tool_answer got
       (\<lambda>e. if is_err e ErrMetricsRunNotFound then about ErrMetricsRunNotFound run_id
            else failed ''get run steps'' e) run_detail_json)"

definition tool_job_log :: "mcp_handler \<Rightarrow> string \<Rightarrow> string \<Rightarrow> int \<Rightarrow> tool_result io" where
  "tool_job_log h run_id job_id lines =
     (if lines \<noteq> 0 \<and> (lines < 1 \<or> max_log_lines < lines)
      then retE (Inl (invalid_tool_input (''lines must be from 1 to '' @ itoa max_log_lines)))
      else case mh_logs h of
        None \<Rightarrow> retE (Inl ''job logs are not available'')
      | Some tail \<Rightarrow>
          bindE (tryE (tail run_id job_id lines)) (\<lambda>got.
          tool_answer got
            (\<lambda>e. if is_err e ErrJobNotFound then about ErrJobNotFound (''run '' @ run_id @ '', job '' @ job_id)
                 else failed ''get job log'' e) job_log_json))"

definition tool_list_branches :: "mcp_handler \<Rightarrow> insight_input \<Rightarrow> tool_result io" where
  "tool_list_branches h i =
     (let w = parse_insight_window (ii_window i) in
      bindE nowE (\<lambda>now.
      bindE (tryE (list_branches (mh_metrics h) now w
        \<lparr> if_repo = ii_repo_id i, if_forge = ii_forge i, if_branch = [] \<rparr>)) (\<lambda>got.
      tool_answer got (failed ''list branches'') (branch_list_json w))))"

definition tool_flaky_steps :: "mcp_handler \<Rightarrow> insight_input \<Rightarrow> int \<Rightarrow> int \<Rightarrow> tool_result io" where
  "tool_flaky_steps h i limit offset =
     (let w = parse_insight_window (ii_window i) in
      bindE nowE (\<lambda>now.
      bindE (tryE (list_flaky_steps (mh_metrics h) (mh_orders h) now w
        \<lparr> if_repo = ii_repo_id i, if_forge = ii_forge i, if_branch = ii_branch i \<rparr> limit offset)) (\<lambda>got.
      tool_answer got (failed ''list flaky steps'') (flaky_list_json w))))"

definition tool_version :: "mcp_handler \<Rightarrow> tool_result io" where
  "tool_version h = retE (Inr (JObj [(''version'', JStr (mh_version h))]))"

definition tool_list_repos :: "mcp_handler \<Rightarrow> string \<Rightarrow> int \<Rightarrow> int \<Rightarrow> tool_result io" where
  "tool_list_repos h forge limit offset =
     bindE (tryE (is_list (mh_repos h) \<lparr> rl_forge = forge, rl_limit = limit, rl_offset = offset \<rparr>)) (\<lambda>got.
     tool_answer got (failed ''list repos'') repo_list_json)"

definition problem_answer :: "(api_problem + 'a) \<Rightarrow> ('a \<Rightarrow> json) \<Rightarrow> tool_result io" where
  "problem_answer got body = retE (case got of Inl p \<Rightarrow> Inl (problem_error p) | Inr x \<Rightarrow> Inr (body x))"

definition tool_get_repo :: "mcp_handler \<Rightarrow> string \<Rightarrow> tool_result io" where
  "tool_get_repo h i = bindE (tracked_repo (mh_repos h) i) (\<lambda>got. problem_answer got repo_json)"

definition tool_repo_identifiers :: "mcp_handler \<Rightarrow> string \<Rightarrow> string \<Rightarrow> tool_result io" where
  "tool_repo_identifiers h forge inst =
     (if \<not> valid_forge forge then retE (Inl (invalid_tool_input ''forge is required''))
      else
        bindE (tryE (is_identifiers (mh_repos h) forge inst)) (\<lambda>got.
        tool_answer got (failed ''list repo identifiers'') identifiers_json))"

definition tool_rate_limit :: "mcp_handler \<Rightarrow> tool_result io" where
  "tool_rate_limit h =
     bindE (tryE (token_usage (mh_repos h) (mh_limits h))) (\<lambda>got.
     tool_answer got (failed ''get github rate limit'') (\<lambda>ts. JObj [(''tokens'', JArr ts)]))"

subsection \<open>Settings\<close>

definition settings_unavailable :: string where
  "settings_unavailable = invalid_tool_input ''settings are not available''"

definition tool_get_settings :: "mcp_handler \<Rightarrow> auth_info option \<Rightarrow> tool_result io" where
  "tool_get_settings h info =
     (case (info, mh_settings h) of
        (Some i, Some st) \<Rightarrow>
          bindE (tryE (settings_get st (ai_user i))) (\<lambda>got. tool_answer got (failed ''get settings'') settings_json)
      | _ \<Rightarrow> retE (Inl settings_unavailable))"

definition tool_update_settings :: "mcp_handler \<Rightarrow> auth_info option \<Rightarrow> patch \<Rightarrow> tool_result io" where
  "tool_update_settings h info updates =
     (case (info, mh_settings h) of
        (Some i, Some st) \<Rightarrow>
          bindE (tryE (settings_update st (mh_patch_order h) (ai_user i) updates)) (\<lambda>got.
          tool_answer got (\<lambda>e. case classify_settings_error e of (code, message) \<Rightarrow> tool_error code message) settings_json)
      | _ \<Rightarrow> retE (Inl settings_unavailable))"

text \<open>
  \<open>settingsUpdateSchema\<close>: for each key the values of its enumeration, if it has one (\<open>None\<close>
  is null), and the limit on its length; other keys are not allowed.
\<close>

record property_schema =
  ps_enum :: "string option list option"
  ps_max_length :: "nat option"

definition property_schema :: "string \<Rightarrow> property_schema" where
  "property_schema key =
     \<lparr> ps_enum = (let allowed = allowed_values key in
                  if allowed = [] then None else Some (map Some allowed @ [None])),
       ps_max_length = (if key = ''pipelinesRepoSelector'' then Some max_repo_selector_length else None) \<rparr>"

definition settings_schema :: "(string \<times> property_schema) list" where
  "settings_schema = map (\<lambda>key. (key, property_schema key)) setting_keys"

text \<open>JSON Schema: \<open>enum\<close> lists the values, \<open>maxLength\<close> counts the characters of a string.\<close>

definition property_accepts :: "property_schema \<Rightarrow> string option \<Rightarrow> bool" where
  "property_accepts ps value \<longleftrightarrow>
     (case ps_enum ps of None \<Rightarrow> True | Some vs \<Rightarrow> value \<in> set vs) \<and>
     (case (ps_max_length ps, value) of (Some n, Some v) \<Rightarrow> rune_count v \<le> n | _ \<Rightarrow> True)"

definition schema_accepts :: "(string \<times> property_schema) list \<Rightarrow> patch \<Rightarrow> bool" where
  "schema_accepts schema updates =
     list_all (\<lambda>(key, value). case map_of schema key of None \<Rightarrow> False | Some ps \<Rightarrow> property_accepts ps value) updates"

subsection \<open>Writes\<close>

definition tool_run_action ::
  "mcp_handler \<Rightarrow> auth_info option \<Rightarrow> run_action \<Rightarrow> string \<Rightarrow> tool_result io" where
  "tool_run_action h info action run_id =
     (case mh_actions h of
        None \<Rightarrow> retE (Inl ''run actions are not available'')
      | Some (do_rerun, do_cancel) \<Rightarrow>
          require_tool_session info ''act on a run''
            (bindE (tryE ((if action = ActionRerun then do_rerun else do_cancel) run_id)) (\<lambda>got.
             tool_answer got (\<lambda>e. problem_error (classify_run_action_error e))
               (\<lambda>_. JObj [(''runId'', JStr run_id), (''action'', JStr (action_name action)), (''accepted'', JBool True)]))))"

definition check_step_input :: "string \<Rightarrow> string \<Rightarrow> tool_result io \<Rightarrow> tool_result io" where
  "check_step_input pid step_name act =
     (if pid = [] \<or> step_name = [] then retE (Inl (tool_error ''invalid_input'' ''pipelineId and step are required''))
      else act)"

definition quarantine_tool_error :: "goerr \<Rightarrow> string" where
  "quarantine_tool_error e = (case classify_quarantine_error e of (_, code, message) \<Rightarrow> tool_error code message)"

definition tool_quarantine :: "mcp_handler \<Rightarrow> auth_info option \<Rightarrow> string \<Rightarrow> string \<Rightarrow> string \<Rightarrow> tool_result io" where
  "tool_quarantine h info pid step_name note' =
     require_tool_session info ''quarantine a step''
       (check_step_input pid step_name
         (bindE nowE (\<lambda>now.
          bindE (tryE (quarantine_step (mh_metrics h) pid step_name note' now)) (\<lambda>got.
          tool_answer got quarantine_tool_error (\<lambda>m. step_quarantine_json (Some m))))))"

definition tool_unquarantine :: "mcp_handler \<Rightarrow> auth_info option \<Rightarrow> string \<Rightarrow> string \<Rightarrow> tool_result io" where
  "tool_unquarantine h info pid step_name =
     require_tool_session info ''un-quarantine a step''
       (check_step_input pid step_name
         (bindE (tryE (unquarantine_step (mh_metrics h) pid step_name)) (\<lambda>got.
          tool_answer got quarantine_tool_error (\<lambda>_. step_quarantine_json None))))"

definition writes_unavailable :: string where
  "writes_unavailable = ''repo registration is not available''"

definition tool_register :: "mcp_handler \<Rightarrow> new_repo \<Rightarrow> tool_result io" where
  "tool_register h n =
     (case mh_registrar h of
        None \<Rightarrow> retE (Inl writes_unavailable)
      | Some rg \<Rightarrow> bindE (register_repo rg (mh_tokens h) n) (\<lambda>got. problem_answer got repo_json))"

definition tool_discover :: "mcp_handler \<Rightarrow> discovery_body \<Rightarrow> tool_result io" where
  "tool_discover h b =
     (case mh_registrar h of
        None \<Rightarrow> retE (Inl writes_unavailable)
      | Some rg \<Rightarrow> bindE (discover_repos rg (mh_tokens h) b) (\<lambda>got. problem_answer got identifiers_json))"

definition tool_untrack :: "mcp_handler \<Rightarrow> string \<Rightarrow> tool_result io" where
  "tool_untrack h i =
     bindE (untrack_repo (mh_repos h) i) (\<lambda>got.
     problem_answer got (\<lambda>_. JObj [(''repoId'', JStr i), (''untracked'', JBool True)]))"

subsection \<open>The table of tools\<close>

fun call_tool :: "mcp_handler \<Rightarrow> auth_info option \<Rightarrow> tool_call \<Rightarrow> tool_result io" where
  "call_tool h info (ListPipelines i) = tool_list_pipelines h i"
| "call_tool h info (GetPipeline pid window) = tool_get_pipeline h pid window"
| "call_tool h info (ListPipelineSteps pid window) = tool_pipeline_steps h pid window"
| "call_tool h info (ListPipelineFlakyRuns pid step_name window) = tool_flaky_runs h pid step_name window"
| "call_tool h info (GetRepoUsage i window) = tool_repo_usage h i window"
| "call_tool h info (ListUnhealthySteps window limit offset) = tool_unhealthy_steps h window limit offset"
| "call_tool h info (GetFailureInsights i) = tool_failure_insights h i"
| "call_tool h info (ListRuns i) = tool_list_runs h i"
| "call_tool h info (GetRunSteps run_id) = tool_run_steps h run_id"
| "call_tool h info (ListBranches i) = tool_list_branches h i"
| "call_tool h info (ListFlakySteps i limit offset) = tool_flaky_steps h i limit offset"
| "call_tool h info (GetJobLog run_id job_id lines) = tool_job_log h run_id job_id lines"
| "call_tool h info GetVersion = tool_version h"
| "call_tool h info (ListRepos forge limit offset) = tool_list_repos h forge limit offset"
| "call_tool h info (GetRepo i) = tool_get_repo h i"
| "call_tool h info (ListRepoIdentifiers forge inst) = tool_repo_identifiers h forge inst"
| "call_tool h info GetGitHubRateLimit = tool_rate_limit h"
| "call_tool h info GetSettings = tool_get_settings h info"
| "call_tool h info (UpdateSettings updates) = tool_update_settings h info updates"
| "call_tool h info (RerunRun run_id) = tool_run_action h info ActionRerun run_id"
| "call_tool h info (CancelRun run_id) = tool_run_action h info ActionCancel run_id"
| "call_tool h info (QuarantineStep pid step_name note') = tool_quarantine h info pid step_name note'"
| "call_tool h info (UnquarantineStep pid step_name) = tool_unquarantine h info pid step_name"
| "call_tool h info (RegisterRepo n) = tool_register h n"
| "call_tool h info (DiscoverRepos b) = tool_discover h b"
| "call_tool h info (UntrackRepo i) = tool_untrack h i"

text \<open>
  \<open>newMCPHandler\<close>. The SDK answers a request itself (a listing, an error, a call its schema
  refuses) or finds a call in it and encodes the result.
\<close>

record mcp_sdk =
  sk_read :: "request \<Rightarrow> reply + tool_call"
  sk_write :: "request \<Rightarrow> tool_result \<Rightarrow> reply"

definition mcp_endpoint :: "mcp_sdk \<Rightarrow> mcp_handler \<Rightarrow> auth_info option \<Rightarrow> request \<Rightarrow> reply io" where
  "mcp_endpoint sdk h info q =
     (case sk_read sdk q of
        Inl r \<Rightarrow> retE r
      | Inr call \<Rightarrow> bindE (call_tool h info call) (\<lambda>res. retE (sk_write sdk q res)))"

end
