(* ===== verification/StaticFiles.thy ===== *)
theory StaticFiles
  imports Http
begin

text \<open>
  The dashboard's files (\<open>static.go\<close>) and its route list (\<open>routes.go\<close>). The file system, the
  table of MIME types, SHA-256 and \<open>http.ServeContent\<close> (conditional and range requests) are
  parameters; the cache of \<open>assetLoader\<close> keeps what cannot change and is left out.
\<close>

subsection \<open>Paths\<close>

text \<open>\<open>path.Clean\<close> of a rooted path, without the slash \<open>TrimPrefix\<close> takes off again.\<close>

fun clean_segments :: "string list \<Rightarrow> string list \<Rightarrow> string list" where
  "clean_segments stack [] = rev stack"
| "clean_segments stack (s # ss) =
     (if s = [] \<or> s = ''.'' then clean_segments stack ss
      else if s = ''..'' then clean_segments (tl stack) ss
      else clean_segments (s # stack) ss)"

fun join_with :: "string \<Rightarrow> string list \<Rightarrow> string" where
  "join_with sep [] = []"
| "join_with sep [s] = s"
| "join_with sep (s # t # ss) = s @ sep @ join_with sep (t # ss)"

definition clean_name :: "string \<Rightarrow> string" where
  "clean_name path = join_with ''/'' (clean_segments [] (split_on (CHR ''/'') path))"

definition path_ext :: "string \<Rightarrow> string" where
  "path_ext name =
     (let base = rev (takeWhile (\<lambda>c. c \<noteq> CHR ''/'') (rev name));
          ext = rev (takeWhile (\<lambda>c. c \<noteq> CHR ''.'') (rev base))
      in if CHR ''.'' \<in> set base then CHR ''.'' # ext else [])"

subsection \<open>The route list\<close>

definition segments :: "string \<Rightarrow> string list" where
  "segments p = (let t = trim_char (CHR ''/'') p in if t = [] then [] else split_on (CHR ''/'') t)"

definition segment_matches :: "string \<Rightarrow> string \<Rightarrow> bool" where
  "segment_matches want part \<longleftrightarrow>
     part \<noteq> [] \<and> ((has_prefix want ''['' \<and> has_suffix want '']'') \<or> part = want)"

definition routes_match :: "string list list \<Rightarrow> string \<Rightarrow> bool" where
  "routes_match patterns name =
     (let parts = segments name in
      list_ex (\<lambda>p. length p = length parts \<and> list_all2 segment_matches p parts) patterns)"

record file_system =
  fs_stat :: "string \<Rightarrow> bool option"
  fs_read :: "string \<Rightarrow> string option"

definition load_routes :: "(string \<Rightarrow> string list option) \<Rightarrow> file_system option \<Rightarrow> string list list option" where
  "load_routes unmarshal assets =
     (case assets of
        None \<Rightarrow> None
      | Some fs \<Rightarrow>
          (case fs_read fs ''routes.json'' of
             None \<Rightarrow> None
           | Some bytes \<Rightarrow> map_option (map segments) (unmarshal bytes)))"

subsection \<open>Content negotiation\<close>

definition accepts_encoding :: "string \<Rightarrow> string \<Rightarrow> bool" where
  "accepts_encoding hdr coding =
     (case find (\<lambda>part. map lower_char (trim_space (fst (cut (CHR '';'') (trim_space part)))) = coding)
        (split_on (CHR '','') hdr) of
        None \<Rightarrow> False
      | Some part \<Rightarrow>
          (case cut (CHR '';'') (trim_space part) of (_, params, _) \<Rightarrow>
             filter (\<lambda>c. c \<noteq> CHR '' '') (trim_space params) \<noteq> ''q=0''))"

definition encodings :: "(string \<times> string) list" where
  "encodings = [(''br'', ''.br''), (''gzip'', ''.gz'')]"

definition negotiate :: "file_system \<Rightarrow> string \<Rightarrow> string \<Rightarrow> string \<times> string" where
  "negotiate fs name accept =
     (case find (\<lambda>e. accepts_encoding accept (fst e) \<and> fs_stat fs (name @ snd e) \<noteq> None) encodings of
        None \<Rightarrow> (name, [])
      | Some e \<Rightarrow> (name @ snd e, fst e))"

subsection \<open>Replies\<close>

definition immutable_prefix :: string where "immutable_prefix = ''_app/immutable/''"
definition immutable_cache :: string where "immutable_cache = ''public, max-age=31536000, immutable''"
definition revalidate_cache :: string where "revalidate_cache = ''no-cache''"

text \<open>What the library decides: the MIME type of an extension, SHA-256, and \<open>ServeContent\<close>.\<close>

record static_lib =
  sl_mime :: "string \<Rightarrow> string"
  sl_sha256 :: "string \<Rightarrow> string"
  sl_serve :: "request \<Rightarrow> (string \<times> string) list \<Rightarrow> string \<Rightarrow> reply"

definition put_header :: "string \<Rightarrow> string \<Rightarrow> (string \<times> string) list \<Rightarrow> (string \<times> string) list" where
  "put_header k v hs = (k, v) # filter (\<lambda>h. fst h \<noteq> k) hs"

definition etag_of :: "static_lib \<Rightarrow> string \<Rightarrow> string" where
  "etag_of lib bytes = [CHR 0x22] @ hex_encode (take 8 (sl_sha256 lib bytes)) @ [CHR 0x22]"

definition asset_headers :: "static_lib \<Rightarrow> string \<Rightarrow> string \<Rightarrow> string \<Rightarrow> (string \<times> string) list" where
  "asset_headers lib name encoding etag =
     (let hs = [(''Cache-Control'', if has_prefix name immutable_prefix then immutable_cache else revalidate_cache),
                (''Etag'', etag), (''Vary'', ''Accept-Encoding'')];
          content_type = sl_mime lib (path_ext name);
          hs = (if content_type \<noteq> [] then put_header ''Content-Type'' content_type hs else hs)
      in if encoding \<noteq> [] then put_header ''Content-Encoding'' encoding hs else hs)"

text \<open>\<open>http.Error\<close>.\<close>

definition http_error :: "(string \<times> string) list \<Rightarrow> string \<Rightarrow> int \<Rightarrow> reply" where
  "http_error hs text status =
     \<lparr> ry_status = status,
       ry_headers = put_header ''X-Content-Type-Options'' ''nosniff''
         (put_header ''Content-Type'' ''text/plain; charset=utf-8'' hs),
       ry_cookies = [], ry_body = Text (text @ [CHR 0x0A]) \<rparr>"

record error_page =
  ep_files :: "string list"
  ep_text :: string
  ep_cache :: string

definition error_page_of :: "int \<Rightarrow> error_page" where
  "error_page_of status =
     (if status = 404
      then \<lparr> ep_files = [''index.html'', ''404.html''], ep_text = ''Page not found'', ep_cache = revalidate_cache \<rparr>
      else if status = 500
      then \<lparr> ep_files = [''500.html''], ep_text = ''Something went wrong'', ep_cache = ''no-store'' \<rparr>
      else \<lparr> ep_files = [], ep_text = [], ep_cache = [] \<rparr>)"

fun serve_page :: "static_lib \<Rightarrow> file_system \<Rightarrow> request \<Rightarrow> int \<Rightarrow> error_page \<Rightarrow> string list \<Rightarrow> reply" where
  "serve_page lib fs q status page [] =
     http_error [(''Cache-Control'', ep_cache page)] (ep_text page) status"
| "serve_page lib fs q status page (name # names) =
     (case negotiate fs name (header q ''Accept-Encoding'') of (served, encoding) \<Rightarrow>
        case fs_read fs served of
          None \<Rightarrow> serve_page lib fs q status page names
        | Some bytes \<Rightarrow>
            \<lparr> ry_status = status,
              ry_headers = put_header ''Cache-Control'' (ep_cache page)
                (filter (\<lambda>h. fst h \<noteq> ''Etag'') (asset_headers lib name encoding (etag_of lib bytes))),
              ry_cookies = [],
              ry_body = (if rq_method q = ''HEAD'' then NoContent else Text bytes) \<rparr>)"

definition serve_error :: "static_lib \<Rightarrow> file_system \<Rightarrow> request \<Rightarrow> int \<Rightarrow> reply" where
  "serve_error lib fs q status =
     (let page = error_page_of status in serve_page lib fs q status page (ep_files page))"

definition no_such_endpoint :: reply where
  "no_such_endpoint = write_error 404 ''not_found'' ''no such endpoint''"

text \<open>A file, served by name or in the copy the client accepts.\<close>

definition serve_file :: "static_lib \<Rightarrow> file_system \<Rightarrow> request \<Rightarrow> string \<Rightarrow> reply" where
  "serve_file lib fs q name =
     (case negotiate fs name (header q ''Accept-Encoding'') of (served, encoding) \<Rightarrow>
        case fs_read fs served of
          None \<Rightarrow> serve_error lib fs q 500
        | Some bytes \<Rightarrow> sl_serve lib q (asset_headers lib name encoding (etag_of lib bytes)) bytes)"

definition static_handler :: "static_lib \<Rightarrow> file_system \<Rightarrow> string list list option \<Rightarrow> request \<Rightarrow> reply" where
  "static_handler lib fs routes q =
     (if has_prefix (rq_path q) ''/api/'' then no_such_endpoint
      else let name = clean_name (rq_path q) in
        if fs_stat fs name = Some False then serve_file lib fs q name
        else if has_prefix name ''_app/''
        then http_error [(''Cache-Control'', revalidate_cache)] ''404 page not found'' 404
        else case routes of
          None \<Rightarrow> serve_file lib fs q ''index.html''
        | Some patterns \<Rightarrow>
            if routes_match patterns name then serve_file lib fs q ''index.html''
            else serve_error lib fs q 404)"

subsection \<open>Lemmas\<close>

lemma segments_clean [simp]: "segments [] = []"
  by (simp add: segments_def trim_char_def trim_left_char_def trim_right_char_def)

text \<open>A cleaned name never climbs out of the assets and names no empty segment.\<close>

lemma clean_segments_ok:
  "list_all (\<lambda>s. s \<noteq> [] \<and> \<not> dot_segment s) stack \<Longrightarrow>
   list_all (\<lambda>s. s \<noteq> [] \<and> \<not> dot_segment s) (clean_segments stack ss)"
proof (induction stack ss rule: clean_segments.induct)
  case (1 stack)
  then show ?case by (simp add: list_all_iff)
next
  case (2 stack s ss)
  then show ?case by (cases stack) (simp_all add: dot_segment_def)
qed

end
