(* ===== verification/Server.thy ===== *)
theory Server
  imports Mcp StaticFiles
begin

text \<open>
  The whole server (\<open>server.go\<close>): its dependencies, the route table of \<open>New\<close>, the dispatch to
  the handlers and the chain of middleware around them.
\<close>

subsection \<open>Dependencies\<close>

text \<open>\<open>Deps\<close>. A dependency that the code allows to be \<open>nil\<close> is an option.\<close>

record ('c, 's) deps =
  dp_registrar :: registrar
  dp_repos :: rstore
  dp_runs :: runstore
  dp_reconcile :: "repo \<Rightarrow> unit io"
  dp_metrics :: mstore
  dp_tokens :: "token_store option"
  dp_job_logs :: "(string \<Rightarrow> string \<Rightarrow> int \<Rightarrow> log_result io) option"
  dp_run_actions :: "((string \<Rightarrow> unit io) \<times> (string \<Rightarrow> unit io)) option"
  dp_webauthn :: "('c, 's) webauthn"
  dp_auth :: "'c astore"
  dp_settings :: sstore
  dp_limits :: "(string \<Rightarrow> rate_limit option io) option"
  dp_ready :: "unit io option"
  dp_ready_ttl :: int
  dp_draining :: bool
  dp_version :: string
  dp_assets :: "file_system option"

text \<open>
  What the server takes from the libraries: HMAC, the JSON decoders of the request bodies, the
  orders of map iteration, the words of a step name, the file server and the MCP SDK.
\<close>

record platform =
  pt_hmac :: "string \<Rightarrow> string \<Rightarrow> string"
  pt_webhooks :: webhook_decoders
  pt_ttl :: "string \<Rightarrow> int option json_scan"
  pt_save_token :: "string \<Rightarrow> save_token_body json_scan"
  pt_patch :: "string \<Rightarrow> patch json_scan"
  pt_note :: "string \<Rightarrow> string json_scan"
  pt_repo :: "string \<Rightarrow> new_repo json_scan"
  pt_discovery :: "string \<Rightarrow> discovery_body json_scan"
  pt_orders :: orders
  pt_words :: "string \<Rightarrow> string list"
  pt_patch_order :: "patch \<Rightarrow> patch"
  pt_static :: static_lib
  pt_routes :: "string \<Rightarrow> string list option"
  pt_sdk :: mcp_sdk

definition mcp_of :: "platform \<Rightarrow> ('c, 's) deps \<Rightarrow> mcp_handler" where
  "mcp_of pt dp =
     \<lparr> mh_metrics = dp_metrics dp, mh_orders = pt_orders pt, mh_words = pt_words pt, mh_repos = dp_repos dp,
       mh_logs = dp_job_logs dp, mh_version = dp_version dp, mh_limits = dp_limits dp,
       mh_settings = Some (dp_settings dp), mh_patch_order = pt_patch_order pt, mh_actions = dp_run_actions dp,
       mh_registrar = Some (dp_registrar dp), mh_tokens = dp_tokens dp \<rparr>"

subsection \<open>Routes\<close>

datatype endpoint =
    EHealthz | EReadyz | EVersion
  | EListRepos | ERegisterRepo | EIdentifiers | EDiscover | EGetRepo | EUntrack | EUsage
  | EListPipelines | EGetPipeline | EPipelineSteps | EFlakyRuns | EQuarantine | EUnquarantine
  | ERunSteps | EJobLog | ERerun | ECancel | EUnhealthySteps
  | ERateLimit | EFailureInsights | EBranches | EFlakySteps
  | EListForgeTokens | ESaveForgeToken | EDeleteForgeToken | EListRuns
  | ERegisterOptions | ERegister | ELoginOptions | ELogin | ELogout
  | EIssueToken | ERevokeToken
  | EAddCredentialOptions | EAddCredential | EListCredentials | ERevokeCredential
  | ESettings | EPatchSettings
  | EMcp | EGithubWebhook | EForgejoWebhook
  | EStatic

definition get :: "string list \<Rightarrow> endpoint \<Rightarrow> endpoint route" where
  "get segs e = (Some ''GET'', map Lit segs, e)"

definition post :: "string list \<Rightarrow> endpoint \<Rightarrow> endpoint route" where
  "post segs e = (Some ''POST'', map Lit segs, e)"

definition repo_routes :: "endpoint route list" where
  "repo_routes =
     [get [''api'', ''repos''] EListRepos,
      post [''api'', ''repos''] ERegisterRepo,
      get [''api'', ''repos'', ''identifiers''] EIdentifiers,
      post [''api'', ''repos'', ''discover''] EDiscover,
      (Some ''GET'', [Lit ''api'', Lit ''repos'', Wild ''repoId''], EGetRepo),
      (Some ''DELETE'', [Lit ''api'', Lit ''repos'', Wild ''repoId''], EUntrack),
      (Some ''GET'', [Lit ''api'', Lit ''repos'', Wild ''repoId'', Lit ''usage''], EUsage)]"

definition pipeline_routes :: "endpoint route list" where
  "pipeline_routes =
     [get [''api'', ''pipelines''] EListPipelines,
      (Some ''GET'', [Lit ''api'', Lit ''pipelines'', Wild ''pipelineId''], EGetPipeline),
      (Some ''GET'', [Lit ''api'', Lit ''pipelines'', Wild ''pipelineId'', Lit ''steps''], EPipelineSteps),
      (Some ''GET'', [Lit ''api'', Lit ''pipelines'', Wild ''pipelineId'', Lit ''flaky-runs''], EFlakyRuns)]"

definition quarantine_routes :: "endpoint route list" where
  "quarantine_routes =
     (let path = [Lit ''api'', Lit ''pipelines'', Wild ''pipelineId'', Lit ''steps'', Wild ''step'', Lit ''quarantine'']
      in [(Some ''PUT'', path, EQuarantine), (Some ''DELETE'', path, EUnquarantine)])"

definition job_log_routes :: "('c, 's) deps \<Rightarrow> endpoint route list" where
  "job_log_routes dp =
     (case dp_job_logs dp of
        None \<Rightarrow> []
      | Some _ \<Rightarrow> [(Some ''GET'', [Lit ''api'', Lit ''runs'', Wild ''runId'', Lit ''jobs'', Wild ''jobId'', Lit ''log''], EJobLog)])"

definition run_action_routes :: "('c, 's) deps \<Rightarrow> endpoint route list" where
  "run_action_routes dp =
     (case dp_run_actions dp of
        None \<Rightarrow> []
      | Some _ \<Rightarrow> [(Some ''POST'', [Lit ''api'', Lit ''runs'', Wild ''runId'', Lit ''rerun''], ERerun),
                  (Some ''POST'', [Lit ''api'', Lit ''runs'', Wild ''runId'', Lit ''cancel''], ECancel)])"

definition telemetry_routes :: "endpoint route list" where
  "telemetry_routes =
     [get [''api'', ''insights'', ''failures''] EFailureInsights,
      get [''api'', ''branches''] EBranches,
      get [''api'', ''steps'', ''flaky''] EFlakySteps]"

definition forge_token_routes :: "('c, 's) deps \<Rightarrow> endpoint route list" where
  "forge_token_routes dp =
     (case dp_tokens dp of
        None \<Rightarrow> []
      | Some _ \<Rightarrow> [get [''api'', ''forge-tokens''] EListForgeTokens,
                  (Some ''PUT'', [Lit ''api'', Lit ''forge-tokens''], ESaveForgeToken),
                  (Some ''DELETE'', [Lit ''api'', Lit ''forge-tokens'', Wild ''tokenId''], EDeleteForgeToken)])"

definition auth_routes :: "endpoint route list" where
  "auth_routes =
     [post [''api'', ''auth'', ''register'', ''options''] ERegisterOptions,
      post [''api'', ''auth'', ''register''] ERegister,
      post [''api'', ''auth'', ''login'', ''options''] ELoginOptions,
      post [''api'', ''auth'', ''login''] ELogin,
      post [''api'', ''auth'', ''logout''] ELogout,
      post [''api'', ''auth'', ''tokens''] EIssueToken,
      (Some ''DELETE'', [Lit ''api'', Lit ''auth'', Lit ''tokens'', Wild ''tokenId''], ERevokeToken),
      post [''api'', ''auth'', ''credentials'', ''options''] EAddCredentialOptions,
      post [''api'', ''auth'', ''credentials''] EAddCredential,
      get [''api'', ''auth'', ''credentials''] EListCredentials,
      (Some ''DELETE'', [Lit ''api'', Lit ''auth'', Lit ''credentials'', Wild ''credentialId''], ERevokeCredential)]"

text \<open>
  The table, in the order \<open>New\<close> registers it. The first match decides: where two patterns of
  the table match one request the literal one, which \<open>ServeMux\<close> prefers, stands first. The
  pattern \<open>/\<close> matches what is left.
\<close>

definition routes :: "('c, 's) deps \<Rightarrow> endpoint route list" where
  "routes dp =
     [(None, [Lit ''healthz''], EHealthz), (None, [Lit ''readyz''], EReadyz),
      get [''api'', ''version''] EVersion] @
     repo_routes @ pipeline_routes @ quarantine_routes @
     [(Some ''GET'', [Lit ''api'', Lit ''runs'', Wild ''runId'', Lit ''steps''], ERunSteps)] @
     job_log_routes dp @ run_action_routes dp @
     [get [''api'', ''steps'', ''unhealthy''] EUnhealthySteps,
      get [''api'', ''insights'', ''github-rate-limit''] ERateLimit] @
     telemetry_routes @ forge_token_routes dp @
     [get [''api'', ''runs''] EListRuns] @ auth_routes @
     [get [''api'', ''settings''] ESettings,
      (Some ''PATCH'', [Lit ''api'', Lit ''settings''], EPatchSettings),
      (None, [Lit ''api'', Lit ''mcp''], EMcp),
      post [''webhooks'', ''github''] EGithubWebhook,
      post [''webhooks'', ''forgejo''] EForgejoWebhook]"

definition route_of :: "('c, 's) deps \<Rightarrow> request \<Rightarrow> endpoint \<times> (string \<times> string) list" where
  "route_of dp q =
     (case find_route (routes dp) (rq_method q) (map unescape (rq_raw q)) of
        Some m \<Rightarrow> m
      | None \<Rightarrow> (EStatic, []))"

subsection \<open>Dispatch\<close>

definition static_endpoint :: "platform \<Rightarrow> ('c, 's) deps \<Rightarrow> request \<Rightarrow> reply io" where
  "static_endpoint pt dp q =
     (case dp_assets dp of
        None \<Rightarrow> if has_prefix (rq_path q) ''/api/'' then retE no_such_endpoint else panicE
      | Some fs \<Rightarrow> retE (static_handler (pt_static pt) fs (load_routes (pt_routes pt) (dp_assets dp)) q))"

text \<open>The routes that are mounted only beside their service find it here.\<close>

definition with_tokens :: "('c, 's) deps \<Rightarrow> (token_store \<Rightarrow> reply io) \<Rightarrow> reply io" where
  "with_tokens dp f = (case dp_tokens dp of None \<Rightarrow> panicE | Some ts \<Rightarrow> f ts)"

definition with_actions ::
  "('c, 's) deps \<Rightarrow> ((string \<Rightarrow> unit io) \<times> (string \<Rightarrow> unit io) \<Rightarrow> reply io) \<Rightarrow> reply io" where
  "with_actions dp f = (case dp_run_actions dp of None \<Rightarrow> panicE | Some acts \<Rightarrow> f acts)"

definition with_job_logs ::
  "('c, 's) deps \<Rightarrow> ((string \<Rightarrow> string \<Rightarrow> int \<Rightarrow> log_result io) \<Rightarrow> reply io) \<Rightarrow> reply io" where
  "with_job_logs dp f = (case dp_job_logs dp of None \<Rightarrow> panicE | Some tail \<Rightarrow> f tail)"

fun account_endpoint ::
  "platform \<Rightarrow> ('c, 's) deps \<Rightarrow> endpoint \<Rightarrow> (string \<Rightarrow> string) \<Rightarrow> handler" where
  "account_endpoint pt dp ERegisterOptions v info q = register_options (dp_webauthn dp) (dp_auth dp)"
| "account_endpoint pt dp ERegister v info q = register_passkey (dp_webauthn dp) (dp_auth dp) q"
| "account_endpoint pt dp ELoginOptions v info q = login_options (dp_webauthn dp) (dp_auth dp)"
| "account_endpoint pt dp ELogin v info q = login_passkey (dp_webauthn dp) (dp_auth dp) q"
| "account_endpoint pt dp ELogout v info q = logout_handler (dp_auth dp) q"
| "account_endpoint pt dp EIssueToken v info q = issue_token_handler (dp_auth dp) (pt_ttl pt) info q"
| "account_endpoint pt dp ERevokeToken v info q = revoke_token_handler (dp_auth dp) info (v ''tokenId'')"
| "account_endpoint pt dp EAddCredentialOptions v info q = add_credential_options (dp_webauthn dp) (dp_auth dp) info"
| "account_endpoint pt dp EAddCredential v info q = add_credential (dp_webauthn dp) (dp_auth dp) info q"
| "account_endpoint pt dp EListCredentials v info q = list_credentials_handler (dp_auth dp) info"
| "account_endpoint pt dp ERevokeCredential v info q =
     revoke_credential_handler (dp_auth dp) info (v ''credentialId'')"
| "account_endpoint pt dp ESettings v info q = settings_get_handler (dp_settings dp) info"
| "account_endpoint pt dp EPatchSettings v info q =
     settings_patch_handler (dp_settings dp) (pt_patch_order pt) (pt_patch pt) info q"
| "account_endpoint pt dp EListForgeTokens v info q =
     with_tokens dp (\<lambda>ts. list_forge_tokens_handler ts info)"
| "account_endpoint pt dp ESaveForgeToken v info q =
     with_tokens dp (\<lambda>ts. save_forge_token_handler ts (pt_save_token pt) info q)"
| "account_endpoint pt dp EDeleteForgeToken v info q =
     with_tokens dp (\<lambda>ts. delete_forge_token_handler ts info (v ''tokenId''))"
| "account_endpoint pt dp EMcp v info q = mcp_endpoint (pt_sdk pt) (mcp_of pt dp) info q"
| "account_endpoint pt dp _ v info q = static_endpoint pt dp q"

fun endpoint_handler ::
  "platform \<Rightarrow> ('c, 's) deps \<Rightarrow> endpoint \<Rightarrow> (string \<Rightarrow> string) \<Rightarrow> handler" where
  "endpoint_handler pt dp EHealthz v info q = healthz"
| "endpoint_handler pt dp EReadyz v info q = readyz (dp_ready dp) (dp_ready_ttl dp) (dp_draining dp)"
| "endpoint_handler pt dp EVersion v info q = version_handler (dp_version dp)"
| "endpoint_handler pt dp EListRepos v info q = list_repos_handler (dp_repos dp) q"
| "endpoint_handler pt dp ERegisterRepo v info q =
     register_handler (dp_registrar dp) (dp_tokens dp) (pt_repo pt) q"
| "endpoint_handler pt dp EIdentifiers v info q = identifiers_handler (dp_repos dp) q"
| "endpoint_handler pt dp EDiscover v info q =
     discover_handler (dp_registrar dp) (dp_tokens dp) (pt_discovery pt) q"
| "endpoint_handler pt dp EGetRepo v info q = get_repo_handler (dp_repos dp) (v ''repoId'')"
| "endpoint_handler pt dp EUntrack v info q = untrack_handler (dp_repos dp) (v ''repoId'')"
| "endpoint_handler pt dp EUsage v info q = usage_handler (dp_repos dp) (dp_metrics dp) (v ''repoId'') q"
| "endpoint_handler pt dp EListPipelines v info q = list_pipelines_handler (dp_metrics dp) q"
| "endpoint_handler pt dp EGetPipeline v info q = get_pipeline_handler (dp_metrics dp) (v ''pipelineId'') q"
| "endpoint_handler pt dp EPipelineSteps v info q = pipeline_steps_handler (dp_metrics dp) (v ''pipelineId'') q"
| "endpoint_handler pt dp EFlakyRuns v info q = flaky_runs_handler (dp_metrics dp) (v ''pipelineId'') q"
| "endpoint_handler pt dp EQuarantine v info q =
     quarantine_handler (dp_metrics dp) (pt_note pt) info (v ''pipelineId'') (v ''step'') q"
| "endpoint_handler pt dp EUnquarantine v info q =
     unquarantine_handler (dp_metrics dp) info (v ''pipelineId'') (v ''step'')"
| "endpoint_handler pt dp ERunSteps v info q = run_steps_handler (dp_metrics dp) (v ''runId'')"
| "endpoint_handler pt dp EJobLog v info q =
     with_job_logs dp (\<lambda>tail. job_log_handler tail (v ''runId'') (v ''jobId'') q)"
| "endpoint_handler pt dp ERerun v info q =
     with_actions dp (\<lambda>acts. run_action_handler (fst acts) info (v ''runId''))"
| "endpoint_handler pt dp ECancel v info q =
     with_actions dp (\<lambda>acts. run_action_handler (snd acts) info (v ''runId''))"
| "endpoint_handler pt dp EUnhealthySteps v info q = unhealthy_steps_handler (dp_metrics dp) q"
| "endpoint_handler pt dp ERateLimit v info q = rate_limit_handler (dp_repos dp) (dp_limits dp)"
| "endpoint_handler pt dp EFailureInsights v info q =
     failure_insights_handler (dp_metrics dp) (pt_orders pt) (pt_words pt) q"
| "endpoint_handler pt dp EBranches v info q = list_branches_handler (dp_metrics dp) q"
| "endpoint_handler pt dp EFlakySteps v info q = flaky_steps_handler (dp_metrics dp) (pt_orders pt) q"
| "endpoint_handler pt dp EListRuns v info q = list_runs_handler (dp_metrics dp) q"
| "endpoint_handler pt dp EGithubWebhook v info q = github_webhook (dp_runs dp) (pt_hmac pt) (pt_webhooks pt) q"
| "endpoint_handler pt dp EForgejoWebhook v info q =
     forgejo_webhook (dp_runs dp) (pt_hmac pt) (pt_webhooks pt) (dp_reconcile dp) q"
| "endpoint_handler pt dp e v info q = account_endpoint pt dp e v info q"

text \<open>A path that is not clean is sent to its clean form (with its query) and reaches no handler.\<close>

definition clean_path :: "string list \<Rightarrow> string" where
  "clean_path raw =
     (let segs = clean_segments [] raw; p = path_of segs
      in if segs = [] then ''/'' else if raw \<noteq> [] \<and> last raw = [] then p @ ''/'' else p)"

definition redirect :: "string \<Rightarrow> reply" where
  "redirect location = (write_status 301)\<lparr>ry_headers := [(''Location'', location)]\<rparr>"

definition mux :: "platform \<Rightarrow> ('c, 's) deps \<Rightarrow> handler" where
  "mux pt dp info q =
     (if rq_method q \<noteq> ''CONNECT'' \<and> \<not> clean_raw (rq_raw q) then retE (redirect (clean_path (rq_raw q)))
      else case route_of dp q of (e, vs) \<Rightarrow> endpoint_handler pt dp e (value_of vs) info q)"

definition server :: "platform \<Rightarrow> ('c, 's) deps \<Rightarrow> request \<Rightarrow> (reply \<times> log_record option) io" where
  "server pt dp = noindex (request_logger (limit_bodies (require_session (dp_auth dp) (mux pt dp))))"

end
