(* ===== verification/MainProgram.thy ===== *)
theory MainProgram
  imports Server MetricsStore AuthStore Crypto
begin

text \<open>
  The program around the server (\<open>cmd/pipeline-analytics/main.go\<close>, \<open>internal/config\<close>,
  \<open>internal/db\<close>): the configuration and its validation, the check of the data directory, the
  wiring of the stores, services and forge clients into the server's dependencies, the
  readiness probe, the health check command and the order of a shutdown.
\<close>

subsection \<open>Configuration\<close>

record config =
  cf_addr :: string
  cf_db :: string
  cf_callback :: string
  cf_key :: string
  cf_interval :: int
  cf_drain :: int
  cf_shutdown :: int
  cf_level :: int

datatype config_error =
    AddrRequired | DBPathRequired | CallbackURLRequired | EncryptionKeyInvalid
  | ReconcileIntervalNonPositive | DrainPeriodNegative | ShutdownTimeoutNonPositive
  | KeyNotHex | LogLevelInvalid

definition validate :: "config \<Rightarrow> config_error option" where
  "validate c =
     (if cf_addr c = [] then Some AddrRequired
      else if cf_db c = [] then Some DBPathRequired
      else if cf_callback c = [] then Some CallbackURLRequired
      else if length (cf_key c) \<noteq> 32 then Some EncryptionKeyInvalid
      else if cf_interval c \<le> 0 then Some ReconcileIntervalNonPositive
      else if cf_drain c < 0 then Some DrainPeriodNegative
      else if cf_shutdown c \<le> 0 then Some ShutdownTimeoutNonPositive
      else None)"

text \<open>
  The values viper finds (flag, environment, default) and \<open>slog\<close>'s parser of a level are given.
\<close>

record raw_config =
  rc_addr :: string
  rc_db :: string
  rc_callback :: string
  rc_key :: string
  rc_interval :: int
  rc_drain :: int
  rc_shutdown :: int
  rc_level :: string

definition load_config :: "(string \<Rightarrow> int option) \<Rightarrow> raw_config \<Rightarrow> config_error + config" where
  "load_config level raw =
     (case hex_decode (rc_key raw) of
        None \<Rightarrow> Inl KeyNotHex
      | Some key \<Rightarrow>
          (case level (rc_level raw) of
             None \<Rightarrow> Inl LogLevelInvalid
           | Some l \<Rightarrow>
               let c = \<lparr> cf_addr = rc_addr raw, cf_db = rc_db raw, cf_callback = rc_callback raw, cf_key = key,
                         cf_interval = rc_interval raw, cf_drain = rc_drain raw, cf_shutdown = rc_shutdown raw,
                         cf_level = l \<rparr>
               in (case validate c of Some e \<Rightarrow> Inl e | None \<Rightarrow> Inr c)))"

text \<open>The defaults of the flags of \<open>serve\<close>.\<close>

definition default_flags :: raw_config where
  "default_flags =
     \<lparr> rc_addr = '':8080'', rc_db = ''pipeline-analytics.db'', rc_callback = [], rc_key = [],
       rc_interval = hours, rc_drain = 4 * seconds, rc_shutdown = 5 * seconds, rc_level = ''info'' \<rparr>"

subsection \<open>The data directory\<close>

text \<open>What the operating system answers \<open>CheckDir\<close>, in the order it asks.\<close>

datatype stat_result = StatMissing | StatError | StatDir | StatFile

record os_answers =
  os_stat :: "string \<Rightarrow> stat_result"
  os_create :: "string \<Rightarrow> string option"
  os_close :: "string \<Rightarrow> bool"
  os_remove :: "string \<Rightarrow> bool"

datatype dir_error =
    DirMissing string | CheckFailedFor string | NotDirectory string | NotWritable string
  | CloseFailed string | RemoveFailed string

text \<open>\<open>dir_of\<close> is \<open>filepath.Dir\<close>; \<open>os_remove\<close> counts a file that is gone already as removed.\<close>

definition check_dir :: "(string \<Rightarrow> string) \<Rightarrow> os_answers \<Rightarrow> string \<Rightarrow> dir_error option" where
  "check_dir dir_of os path =
     (if path = '':memory:'' \<or> path = [] then None
      else let dir = dir_of path in
        case os_stat os dir of
          StatMissing \<Rightarrow> Some (DirMissing dir)
        | StatError \<Rightarrow> Some (CheckFailedFor dir)
        | StatFile \<Rightarrow> Some (NotDirectory dir)
        | StatDir \<Rightarrow>
            (case os_create os dir of
               None \<Rightarrow> Some (NotWritable dir)
             | Some name \<Rightarrow>
                 if \<not> os_close os name then Some (CloseFailed dir)
                 else if \<not> os_remove os name then Some (RemoveFailed dir)
                 else None))"

subsection \<open>Wiring\<close>

text \<open>\<open>dbReady\<close> reads the schema table.\<close>

definition db_ready :: "unit io" where
  "db_ready = bindE (wrapE ''read database schema'' (query_rowE (\<lambda>_. Some ()))) (\<lambda>_. retE ())"

definition sql_action_ports :: "aead \<Rightarrow> string \<Rightarrow> action_ports" where
  "sql_action_ports ae key = \<lparr> ap_run = sql_run_by_id, ap_repo = sql_get_repo, ap_token = sql_repo_token ae key \<rparr>"

definition sql_log_ports :: "aead \<Rightarrow> string \<Rightarrow> log_ports" where
  "sql_log_ports ae key = \<lparr> lp_locate = sql_locate_job, lp_repo = sql_get_repo, lp_token = sql_repo_token ae key \<rparr>"

text \<open>
  \<open>buildHandler\<close>: one sqlite store behind registrar, reconciler, webhooks, run actions, job
  logs and forge tokens; the stores of metrics, accounts and settings beside it.
\<close>

definition build_deps ::
  "aead \<Rightarrow> (string \<Rightarrow> string) \<Rightarrow> ('c, 's) webauthn \<Rightarrow> (patch \<Rightarrow> patch) \<Rightarrow> github_client \<Rightarrow> forgejo_client \<Rightarrow>
   config \<Rightarrow> bool \<Rightarrow> string \<Rightarrow> file_system \<Rightarrow> ('c, 's) deps" where
  "build_deps ae sha wa ord g f c draining version assets =
     (let key = cf_key c; st = sql_rstore ae key; cs = forge_clients g f;
          ports = sql_action_ports ae key; actors = run_actors g
      in \<lparr> dp_registrar = the_registrar st cs (cf_callback c),
           dp_repos = st, dp_runs = sql_runstore,
           dp_reconcile = reconcile_repo st sql_runstore cs,
           dp_metrics = sql_mstore,
           dp_tokens = Some (sql_token_store ae key),
           dp_job_logs = Some (log_tail_of (sql_log_ports ae key) (log_readers g)),
           dp_run_actions = Some (rerun ports actors, cancel ports actors),
           dp_webauthn = wa, dp_auth = sql_astore wa sha,
           dp_settings = sql_sstore ord,
           dp_limits = Some rate_limit_for,
           dp_ready = Some db_ready, dp_ready_ttl = 0, dp_draining = draining,
           dp_version = version, dp_assets = Some assets \<rparr>)"

subsection \<open>Health check and shutdown\<close>

text \<open>
  The \<open>healthcheck\<close> command: the port of the configured address, then one request to
  \<open>/readyz\<close>. \<open>split\<close> is \<open>net.SplitHostPort\<close> and \<open>ask\<close> the request's status, if it is answered.
\<close>

definition healthcheck :: "(string \<Rightarrow> string option) \<Rightarrow> (string \<Rightarrow> int option) \<Rightarrow> string \<Rightarrow> bool" where
  "healthcheck split ask addr =
     (case split (if addr = [] then '':8080'' else addr) of
        None \<Rightarrow> False
      | Some port \<Rightarrow> ask (''http://127.0.0.1:'' @ port @ ''/readyz'') = Some 200)"

text \<open>
  \<open>serveUntilDone\<close>: either the server stops by itself, with its error unless it was closed, or
  the context is done and the server leaves in order.
\<close>

datatype serve_event = ServeEnds "string option" | ContextDone

datatype shutdown_action = SetDraining | SleepFor int | ShutdownWithin int

definition serve_until_done ::
  "config \<Rightarrow> (int \<Rightarrow> string option) \<Rightarrow> serve_event \<Rightarrow> shutdown_action list \<times> string option" where
  "serve_until_done c shut ev =
     (case ev of
        ServeEnds e \<Rightarrow> ([], map_option (\<lambda>m. ''serve: '' @ m) e)
      | ContextDone \<Rightarrow>
          ([SetDraining, SleepFor (cf_drain c), ShutdownWithin (cf_shutdown c)],
           map_option (\<lambda>m. ''shutdown: '' @ m) (shut (cf_shutdown c))))"

subsection \<open>Lemmas\<close>

lemma validate_None:
  "validate c = None \<longleftrightarrow>
     cf_addr c \<noteq> [] \<and> cf_db c \<noteq> [] \<and> cf_callback c \<noteq> [] \<and> length (cf_key c) = 32 \<and>
     0 < cf_interval c \<and> 0 \<le> cf_drain c \<and> 0 < cf_shutdown c"
  by (auto simp: validate_def)

text \<open>Every configuration that loads has a key the cipher accepts.\<close>

lemma load_config_key: "load_config level raw = Inr c \<Longrightarrow> length (cf_key c) = 32"
  by (auto simp: load_config_def Let_def validate_None split: option.splits)

end
