(* ===== verification/ServerGate.thy ===== *)
theory ServerGate
  imports Server AuthOps
begin

text \<open>
  What the gate in front of the handlers guarantees: which endpoints an anonymous request can
  reach, what happens to the others, and what an API token cannot do.
\<close>

subsection \<open>Patterns\<close>

lemma match_lit [simp]:
  "match_pats (Lit l # ps) segs = Some vs \<longleftrightarrow> (\<exists>ss. segs = l # ss \<and> match_pats ps ss = Some vs)"
  by (cases segs) auto

lemma match_wild [simp]:
  "match_pats (Wild x # ps) segs = Some vs \<longleftrightarrow>
     (\<exists>s ss vs'. segs = s # ss \<and> s \<noteq> [] \<and> s \<noteq> ''/'' \<and> match_pats ps ss = Some vs' \<and> vs = (x, s) # vs')"
  by (cases segs) auto

lemma match_end [simp]: "match_pats [] segs = Some vs \<longleftrightarrow> segs = [] \<and> vs = []"
  by (cases segs) auto

text \<open>A property of a route that holds of every path the route matches.\<close>

definition on_match :: "(endpoint \<Rightarrow> string list \<Rightarrow> bool) \<Rightarrow> endpoint route \<Rightarrow> bool" where
  "on_match P rt \<longleftrightarrow> (case rt of (m, ps, e) \<Rightarrow> \<forall>segs vs. match_pats ps segs = Some vs \<longrightarrow> P e segs)"

lemma find_route_matches:
  assumes "find_route rs m segs = Some (e, vs)" and "list_all (on_match P) rs"
  shows "P e segs"
  using assms
  by (induction rs m segs rule: find_route.induct) (auto simp: on_match_def split: if_splits option.splits)

subsection \<open>Public endpoints\<close>

definition public_endpoints :: "endpoint set" where
  "public_endpoints =
     {EHealthz, EReadyz, EVersion, ERegisterOptions, ERegister, ELoginOptions, ELogin, ELogout,
      EGithubWebhook, EForgejoWebhook, EStatic}"

definition gated_path :: "endpoint \<Rightarrow> string list \<Rightarrow> bool" where
  "gated_path e segs \<longleftrightarrow> e \<in> public_endpoints \<or> \<not> is_public_path (path_of segs)"

lemmas route_defs = routes_def get_def post_def repo_routes_def pipeline_routes_def quarantine_routes_def
  job_log_routes_def run_action_routes_def telemetry_routes_def forge_token_routes_def auth_routes_def

text \<open>The areas of the API behind the gate, and the two of the account that are gated as well.\<close>

definition gated_areas :: "string list" where
  "gated_areas = [''repos'', ''pipelines'', ''runs'', ''steps'', ''insights'', ''branches'', ''forge-tokens'',
     ''settings'', ''mcp'']"

lemma area_gated: "a \<in> set gated_areas \<Longrightarrow> \<not> is_public_path (path_of (''api'' # a # ss))"
  by (auto simp: gated_areas_def path_of_def is_public_path_def)

lemma account_gated:
  "a = ''tokens'' \<or> a = ''credentials'' \<Longrightarrow>
   \<not> is_public_path (path_of [''api'', ''auth'', a]) \<and> \<not> is_public_path (path_of (''api'' # ''auth'' # a # s # ss))"
  by (auto simp: path_of_def is_public_path_def)

lemma public_on_match: "e \<in> public_endpoints \<Longrightarrow> on_match gated_path (m, ps, e)"
  by (simp add: on_match_def gated_path_def)

lemma area_on_match: "a \<in> set gated_areas \<Longrightarrow> on_match gated_path (m, Lit ''api'' # Lit a # ps, e)"
  by (auto simp: on_match_def gated_path_def area_gated)

lemma account_on_match:
  assumes "a = ''tokens'' \<or> a = ''credentials''"
  shows "on_match gated_path (m, [Lit ''api'', Lit ''auth'', Lit a], e)"
    and "on_match gated_path (m, Lit ''api'' # Lit ''auth'' # Lit a # Lit l # ps, e)"
    and "on_match gated_path (m, Lit ''api'' # Lit ''auth'' # Lit a # Wild x # ps, e)"
  using account_gated [OF assms] by (auto simp: on_match_def gated_path_def)

lemma routes_gated: "list_all (on_match gated_path) (routes dp)"
  unfolding route_defs Let_def
  by (simp add: area_on_match account_on_match public_on_match gated_areas_def public_endpoints_def
      split: option.split)

lemma route_public:
  assumes "route_of dp q = (e, vs)" and "is_public_path (rq_path q)"
  shows "e \<in> public_endpoints"
proof (cases "find_route (routes dp) (rq_method q) (map unescape (rq_raw q))")
  case None
  with assms(1) show ?thesis by (simp add: route_of_def public_endpoints_def)
next
  case (Some m)
  with assms(1) have "gated_path e (map unescape (rq_raw q))"
    using find_route_matches [OF _ routes_gated] by (simp add: route_of_def)
  with assms(2) show ?thesis by (simp add: gated_path_def rq_path_def)
qed

subsection \<open>Who asks\<close>

text \<open>
  No session: the cookie names none in the table, or one whose time is over whenever the clock
  is read. No token: likewise for the bearer token's hash, or it is revoked.
\<close>

definition no_session :: "request \<Rightarrow> world \<Rightarrow> bool" where
  "no_session q w \<longleftrightarrow>
     (\<forall>sid u t. map_of (rq_cookies q) session_cookie_name = Some sid \<longrightarrow> find_session sid (w_db w) = Some (u, t) \<longrightarrow>
       (\<forall>n. t < e_clock (w_env w) n))"

definition no_token :: "(string \<Rightarrow> string) \<Rightarrow> request \<Rightarrow> world \<Rightarrow> bool" where
  "no_token sha q w \<longleftrightarrow>
     (\<forall>tok u t revoked. bearer_token q = Some tok \<longrightarrow> find_token (sha tok) (w_db w) = Some (u, t, revoked) \<longrightarrow>
       revoked \<noteq> None \<or> (\<forall>n. t < e_clock (w_env w) n))"

text \<open>Of a world nothing but its position counts for the two: they stay true while nothing is written.\<close>

definition same_state :: "world \<Rightarrow> world \<Rightarrow> bool" where
  "same_state w w' \<longleftrightarrow> w_db w' = w_db w \<and> w_env w' = w_env w"

lemma same_state_refl [simp]: "same_state w w"
  by (simp add: same_state_def)

lemma same_state_step [simp]: "same_state w (step_world w)"
  by (simp add: same_state_def)

lemma same_state_trans: "same_state w w1 \<Longrightarrow> same_state w1 w2 \<Longrightarrow> same_state w w2"
  by (simp add: same_state_def)

lemma no_session_same: "same_state w w' \<Longrightarrow> no_session q w' = no_session q w"
  by (simp add: no_session_def same_state_def)

lemma no_token_same: "same_state w w' \<Longrightarrow> no_token sha q w' = no_token sha q w"
  by (simp add: no_token_def same_state_def)

lemma max_bytes_same [simp]:
  "rq_path (max_bytes l q) = rq_path q" "rq_method (max_bytes l q) = rq_method q" "rq_raw (max_bytes l q) = rq_raw q"
  "rq_cookies (max_bytes l q) = rq_cookies q" "rq_headers (max_bytes l q) = rq_headers q"
  by (simp_all add: max_bytes_def rq_path_def)

lemma max_bytes_identity [simp]:
  "bearer_token (max_bytes l q) = bearer_token q" "no_session (max_bytes l q) = no_session q"
  "no_token sha (max_bytes l q) = no_token sha q" "route_of dp (max_bytes l q) = route_of dp q"
  by (simp_all add: bearer_token_def header_def no_session_def no_token_def route_of_def fun_eq_iff)

lemma session_query:
  assumes "sql_session sid w = (r, w')"
  shows "same_state w w' \<and> (\<forall>u. r = Inr u \<longrightarrow> (\<exists>t n. find_session sid (w_db w) = Some (u, t) \<and> \<not> t < e_clock (w_env w) n))
    \<and> r \<noteq> Inl GoPanic"
  using assms
  by (auto simp: sql_session_def bindE_def wrapE_def query_rowE_def nowE_def retE_def throwE_def same_state_def wrap_error_def
      split: fault.splits option.splits if_splits)

lemma token_query:
  assumes "sql_token_user sha tok w = (r, w')"
  shows "same_state w w' \<and> (\<forall>u. r = Inr u \<longrightarrow> (\<exists>t n. find_token (sha tok) (w_db w) = Some (u, t, None) \<and> \<not> t < e_clock (w_env w) n))
    \<and> r \<noteq> Inl GoPanic"
  using assms
  by (auto simp: sql_token_user_def bindE_def wrapE_def query_rowE_def nowE_def retE_def throwE_def same_state_def wrap_error_def
      split: fault.splits option.splits if_splits)

lemma session_identity_none:
  assumes "no_session q w" and "session_identity (sql_astore wa sha) q w = (r, w')"
  shows "r = Inr None \<and> same_state w w'"
proof (cases "map_of (rq_cookies q) session_cookie_name")
  case None
  with assms(2) show ?thesis by (simp add: session_identity_def)
next
  case (Some sid)
  obtain r1 w1 where q1: "sql_session sid w = (r1, w1)" by fastforce
  have "isl r1" using session_query [OF q1] assms(1) Some by (cases r1) (fastforce simp: no_session_def)+
  then show ?thesis
    using assms(2) Some q1 session_query [OF q1]
    by (auto simp: session_identity_def sql_astore_def bindE_def tryE_def isl_def)
qed

lemma session_identity_some:
  assumes "session_identity (sql_astore wa sha) q w = (r, w')"
  shows "\<exists>i. r = Inr i \<and> same_state w w'"
proof (cases "map_of (rq_cookies q) session_cookie_name")
  case None
  with assms show ?thesis by (simp add: session_identity_def)
next
  case (Some sid)
  obtain r1 w1 where q1: "sql_session sid w = (r1, w1)" by fastforce
  then show ?thesis
    using assms Some session_query [OF q1] by (auto simp: session_identity_def sql_astore_def bindE_def tryE_def)
qed

lemma token_identity_some:
  assumes "token_identity (sql_astore wa sha) q w = (r, w')"
  shows "\<exists>i. r = Inr i \<and> same_state w w' \<and> \<not> via_session i \<and> (no_token sha q w \<longrightarrow> i = None)"
proof (cases "bearer_token q")
  case None
  with assms show ?thesis by (simp add: token_identity_def via_session_def)
next
  case (Some tok)
  obtain r1 w1 where q1: "sql_token_user sha tok w = (r1, w1)" by fastforce
  have "no_token sha q w \<Longrightarrow> isl r1"
    using token_query [OF q1] Some by (cases r1) (fastforce simp: no_token_def)+
  then show ?thesis
    using assms Some q1 token_query [OF q1]
    by (auto simp: token_identity_def sql_astore_def bindE_def tryE_def via_session_def isl_def split: sum.splits)
qed

subsection \<open>The chain\<close>

lemma gate_cases:
  assumes run: "require_session (sql_astore wa sha) serve q w = (r, w')"
    and gated: "\<not> is_public_path (rq_path q)" and anon: "no_session q w"
  shows "(r = Inr unauthenticated \<and> same_state w w') \<or>
    (\<not> no_token sha q w \<and> (\<exists>i w1. same_state w w1 \<and> \<not> ai_via_session i \<and> serve (Some i) q w1 = (r, w')))"
proof -
  obtain r1 w1 where s: "session_identity (sql_astore wa sha) q w = (r1, w1)" by fastforce
  note none = session_identity_none [OF anon s]
  obtain r2 w2 where t: "token_identity (sql_astore wa sha) q w1 = (r2, w2)" by fastforce
  obtain i where i: "r2 = Inr i" "same_state w1 w2" "\<not> via_session i" "no_token sha q w1 \<longrightarrow> i = None"
    using token_identity_some [OF t] by auto
  have same: "same_state w w2" using none i(2) same_state_trans by blast
  show ?thesis
  proof (cases i)
    case None
    then show ?thesis using run gated s none t i(1) same by (simp add: require_session_def bindE_def)
  next
    case (Some info)
    then have "serve (Some info) q w2 = (r, w')"
      using run gated s none t i(1) by (simp add: require_session_def bindE_def)
    moreover have "\<not> no_token sha q w"
      using Some i(4) none no_token_same [of w w1] by auto
    ultimately show ?thesis using Some i(3) same by (auto simp: via_session_def)
  qed
qed

definition mark_noindex :: "reply \<Rightarrow> reply" where
  "mark_noindex r = r\<lparr>ry_headers := (''X-Robots-Tag'', ''noindex, nofollow'') # ry_headers r\<rparr>"

lemma mark_noindex_status [simp]: "ry_status (mark_noindex r) = ry_status r" "ry_body (mark_noindex r) = ry_body r"
  by (simp_all add: mark_noindex_def)

text \<open>The two outer layers write nothing and pass on what the inner ones say.\<close>

definition passed_on :: "reply res \<Rightarrow> (reply \<times> log_record option) res \<Rightarrow> bool" where
  "passed_on r1 r \<longleftrightarrow>
     (case r1 of Inl e \<Rightarrow> r = Inl e | Inr rep \<Rightarrow> \<exists>l. r = Inr (mark_noindex rep, l))"

lemma server_run:
  assumes "server pt dp q w = (r, w')"
  shows "\<exists>w1 r1 w2. same_state w w1 \<and> same_state w2 w' \<and> passed_on r1 r \<and>
    limit_bodies (require_session (dp_auth dp) (mux pt dp)) q w1 = (r1, w2)"
proof -
  let ?inner = "limit_bodies (require_session (dp_auth dp) (mux pt dp)) q"
  have outer: "noindex (request_logger (limit_bodies (require_session (dp_auth dp) (mux pt dp)))) q w = (r, w')"
    using assms by (simp add: server_def)
  show ?thesis
  proof (cases "rq_path q = ''/healthz'' \<or> rq_path q = ''/readyz''")
    case True
    obtain r1 w2 where "?inner w = (r1, w2)" by fastforce
    then show ?thesis
      using outer True
      by (intro exI [of _ w] exI [of _ r1] exI [of _ w2])
        (auto simp: noindex_def request_logger_def bindE_def retE_def passed_on_def mark_noindex_def
          split: sum.splits)
  next
    case False
    obtain r1 w2 where "?inner (step_world w) = (r1, w2)" by fastforce
    then show ?thesis
      using outer False
      by (intro exI [of _ "step_world w"] exI [of _ r1] exI [of _ w2])
        (auto simp: noindex_def request_logger_def bindE_def nowE_def retE_def passed_on_def mark_noindex_def
          split: sum.splits)
  qed
qed

lemma passed_on_Inr [simp]: "passed_on (Inr rep) r \<longleftrightarrow> (\<exists>l. r = Inr (mark_noindex rep, l))"
  by (simp add: passed_on_def)

subsection \<open>What a token cannot do\<close>

definition session_only :: "endpoint set" where
  "session_only =
     {EIssueToken, ERevokeToken, EAddCredentialOptions, EAddCredential, EListCredentials, ERevokeCredential,
      EListForgeTokens, ESaveForgeToken, EDeleteForgeToken, EQuarantine, EUnquarantine, ERerun, ECancel}"

fun session_only_call :: "tool_call \<Rightarrow> bool" where
  "session_only_call (RerunRun _) = True"
| "session_only_call (CancelRun _) = True"
| "session_only_call (QuarantineStep _ _ _) = True"
| "session_only_call (UnquarantineStep _ _) = True"
| "session_only_call _ = False"

text \<open>The routes that are mounted beside an optional service are matched only if it is there.\<close>

definition mounted :: "('c, 's) deps \<Rightarrow> endpoint \<Rightarrow> string list \<Rightarrow> bool" where
  "mounted dp e segs \<longleftrightarrow>
     (e \<in> {EListForgeTokens, ESaveForgeToken, EDeleteForgeToken} \<longrightarrow> dp_tokens dp \<noteq> None) \<and>
     (e \<in> {ERerun, ECancel} \<longrightarrow> dp_run_actions dp \<noteq> None) \<and> (e = EJobLog \<longrightarrow> dp_job_logs dp \<noteq> None)"

lemma routes_mounted: "list_all (on_match (mounted dp)) (routes dp)"
  by (simp add: route_defs Let_def on_match_def mounted_def split: option.split)

lemma route_mounted: "route_of dp q = (e, vs) \<Longrightarrow> mounted dp e (map unescape (rq_raw q))"
  using find_route_matches [OF _ routes_mounted, of dp "rq_method q" "map unescape (rq_raw q)" e vs]
  by (auto simp: route_of_def mounted_def split: option.splits)

lemma session_only_gated:
  assumes "route_of dp q = (e, vs)" and "e \<in> session_only \<or> e = EMcp"
  shows "\<not> is_public_path (rq_path q)"
  using route_public [OF assms(1)] assms(2) by (auto simp: session_only_def public_endpoints_def)

lemma via_session_refuses:
  "\<not> ai_via_session i \<Longrightarrow> require_via_session what (Some i) f = retE (session_required what)"
  by (simp add: require_via_session_def)

lemmas session_handlers = issue_token_handler_def revoke_token_handler_def add_credential_options_def
  add_credential_def list_credentials_handler_def revoke_credential_handler_def list_forge_tokens_handler_def
  save_forge_token_handler_def delete_forge_token_handler_def quarantine_handler_def unquarantine_handler_def
  run_action_handler_def

lemma session_only_refuses:
  assumes e: "e \<in> session_only" and m: "mounted dp e segs" and i: "\<not> ai_via_session i"
  shows "\<exists>what. endpoint_handler pt dp e v (Some i) q = retE (session_required what)"
  using e m unfolding session_only_def insert_iff empty_iff mounted_def with_tokens_def with_actions_def
  by (elim disjE FalseE)
    (auto simp: session_handlers via_session_refuses [OF i] with_tokens_def with_actions_def)

lemma session_only_tool_refuses:
  assumes "session_only_call call" and "\<not> ai_via_session i"
  shows "\<exists>msg. call_tool h (Some i) call = retE (Inl msg)"
  using assms
  by (cases call) (auto simp: tool_run_action_def tool_quarantine_def tool_unquarantine_def require_tool_session_def
      via_session_def split: option.split)

lemma mux_no_session:
  assumes route: "route_of dp q = (e, vs)" and only: "e \<in> session_only" and i: "\<not> ai_via_session i"
  shows "\<exists>rep. mux pt dp (Some i) q = retE rep \<and> ry_status rep \<in> {301, 401}"
proof (cases "rq_method q \<noteq> ''CONNECT'' \<and> \<not> clean_raw (rq_raw q)")
  case True
  then show ?thesis by (auto simp: mux_def [abs_def] redirect_def write_status_def)
next
  case False
  obtain what where "endpoint_handler pt dp e (value_of vs) (Some i) q = retE (session_required what)"
    using session_only_refuses [OF only route_mounted [OF route] i] by blast
  then show ?thesis
    using False route by (auto simp: mux_def session_required_def write_error_def write_json_def)
qed

lemma mux_tool_no_session:
  assumes route: "route_of dp q = (EMcp, vs)" and call: "sk_read (pt_sdk pt) q = Inr call"
    and only: "session_only_call call" and i: "\<not> ai_via_session i"
  shows "\<exists>rep. mux pt dp (Some i) q = retE rep"
proof (cases "rq_method q \<noteq> ''CONNECT'' \<and> \<not> clean_raw (rq_raw q)")
  case True
  then show ?thesis by (auto simp: mux_def)
next
  case False
  obtain msg where "call_tool (mcp_of pt dp) (Some i) call = retE (Inl msg)"
    using session_only_tool_refuses [OF only i] by blast
  then show ?thesis
    using False route call by (auto simp: mux_def mcp_endpoint_def bindE_def retE_def fun_eq_iff)
qed

end
