(* ===== verification/ServerInv.thy ===== *)
theory ServerInv
  imports MainProgram ServerGate IngestionOps
begin

text \<open>
  Integrity of the whole database under every request. The contract the server has with its
  dependencies is a locale: every operation a handler may call keeps the invariant, and from
  this every request does. The SQLite stores and the forge clients are interpreted in it with
  the conjunction of the invariants of ingestion, accounts and settings; each store leaves the
  tables of the others alone.
\<close>

subsection \<open>Handlers over any stores\<close>

text \<open>
  \<open>good\<close> is what the settings store relies on of a patch, which the decoders give: a Go map has
  each key once.
\<close>

definition sound_platform :: "(patch \<Rightarrow> bool) \<Rightarrow> (patch \<Rightarrow> patch) \<Rightarrow> platform \<Rightarrow> bool" where
  "sound_platform good ord pt \<longleftrightarrow> pt_patch_order pt = ord \<and>
     (\<forall>body ups. pt_patch pt body = JsonValue ups \<longrightarrow> good ups) \<and>
     (\<forall>q ups. sk_read (pt_sdk pt) q = Inr (UpdateSettings ups) \<longrightarrow> good ups)"

locale server_stores =
  ingest: ingest_store "dp_repos dp" "dp_runs dp" inv +
  auth: auth_guard "dp_auth dp" ceremonies inv +
  marks: metrics_store "dp_metrics dp" inv mark_map
  for dp :: "('c, 's) deps" and inv :: "db \<Rightarrow> bool"
    and ceremonies :: "db \<Rightarrow> string \<Rightarrow> (string \<times> gotime) option"
    and mark_map :: "db \<Rightarrow> quarantine_key \<Rightarrow> quarantine option" +
  fixes ord :: "patch \<Rightarrow> patch" and good :: "patch \<Rightarrow> bool"
  assumes keeps_registrar: "keeps inv (rg_register (dp_registrar dp) n)"
      "keeps inv (rg_discover (dp_registrar dp) forge inst token)"
    and keeps_reconcile: "keeps inv (dp_reconcile dp r)"
    and keeps_tokens: "dp_tokens dp = Some ts \<Longrightarrow> keeps inv (ts_save ts forge inst token)"
      "dp_tokens dp = Some ts \<Longrightarrow> keeps inv (ts_list ts)" "dp_tokens dp = Some ts \<Longrightarrow> keeps inv (ts_delete ts i)"
      "dp_tokens dp = Some ts \<Longrightarrow> keeps inv (ts_token ts forge inst)"
    and keeps_logs: "dp_job_logs dp = Some tail \<Longrightarrow> keeps inv (tail i j k)"
    and keeps_actions: "dp_run_actions dp = Some acts \<Longrightarrow> keeps inv (fst acts i)"
      "dp_run_actions dp = Some acts \<Longrightarrow> keeps inv (snd acts i)"
    and keeps_limits: "dp_limits dp = Some limit_for \<Longrightarrow> keeps inv (limit_for token)"
    and keeps_ready: "dp_ready dp = Some check \<Longrightarrow> keeps inv check"
    and keeps_settings: "keeps inv (settings_get (dp_settings dp) user)"
      "good ups \<Longrightarrow> keeps inv (settings_update (dp_settings dp) ord user ups)"
begin

lemma keeps_require_via_session [keeps_intros]:
  "(\<And>i. keeps inv (f i)) \<Longrightarrow> keeps inv (require_via_session what info f)"
  by (simp add: require_via_session_def keeps_retE split: option.split)

lemma keeps_require_auth [keeps_intros]: "(\<And>i. keeps inv (f i)) \<Longrightarrow> keeps inv (require_auth info f)"
  by (simp add: require_auth_def keeps_retE split: option.split)

lemma keeps_with_body [keeps_intros]: "(\<And>b. got = Inr b \<Longrightarrow> keeps inv (f b)) \<Longrightarrow> keeps inv (with_body got f)"
  by (simp add: with_body_def keeps_retE split: sum.split)

lemma keeps_require_tool_session [keeps_intros]:
  "keeps inv act \<Longrightarrow> keeps inv (require_tool_session info what act)"
  by (simp add: require_tool_session_def keeps_retE)

lemma keeps_check_step_input [keeps_intros]: "keeps inv act \<Longrightarrow> keeps inv (check_step_input p s act)"
  by (simp add: check_step_input_def keeps_retE)

lemma keeps_answers [keeps_intros]:
  "keeps inv (tool_answer got e b)" "keeps inv (problem_answer got' b')"
  by (simp_all add: tool_answer_def problem_answer_def keeps_retE)

lemma keeps_writes_of_marks:
  "keeps inv (quarantine_step (dp_metrics dp) i name note now)"
  "keeps inv (unquarantine_step (dp_metrics dp) i name)"
  unfolding quarantine_step_def unquarantine_step_def
  by (auto intro!: keeps_intros marks.keeps_known_pipeline marks.keeps_inv_quarantine marks.keeps_inv_unquarantine)

lemmas operations = ingest.reads ingest.writes auth.service_keeps auth.keeps_list_credentials
  marks.service_reads keeps_writes_of_marks keeps_registrar keeps_reconcile keeps_settings(1)

subsubsection \<open>Accounts, forge tokens and settings\<close>

lemma keeps_passkeys:
  "keeps inv (register_options wa (dp_auth dp))" "keeps inv (register_passkey wa (dp_auth dp) q)"
  "keeps inv (login_options wa (dp_auth dp))" "keeps inv (login_passkey wa (dp_auth dp) q)"
  "keeps inv (logout_handler (dp_auth dp) q)"
  unfolding register_options_def register_passkey_def login_options_def login_passkey_def logout_handler_def
  by (auto intro!: keeps_intros operations split: option.split)

lemma keeps_credentials:
  "keeps inv (add_credential_options wa (dp_auth dp) info)" "keeps inv (add_credential wa (dp_auth dp) info q)"
  "keeps inv (list_credentials_handler (dp_auth dp) info)"
  "keeps inv (revoke_credential_handler (dp_auth dp) info cred)"
  "keeps inv (issue_token_handler (dp_auth dp) scan info q)" "keeps inv (revoke_token_handler (dp_auth dp) info t)"
  unfolding add_credential_options_def add_credential_def list_credentials_handler_def
    revoke_credential_handler_def issue_token_handler_def revoke_token_handler_def
  by (auto intro!: keeps_intros operations split: option.split)

lemma keeps_forge_token_handlers:
  assumes "dp_tokens dp = Some ts"
  shows "keeps inv (list_forge_tokens_handler ts info)" "keeps inv (save_forge_token_handler ts scan info q)"
    "keeps inv (delete_forge_token_handler ts info t)"
  unfolding list_forge_tokens_handler_def save_forge_token_handler_def delete_forge_token_handler_def
  by (auto intro!: keeps_intros keeps_tokens assms)

lemma keeps_given_or_saved: "keeps inv (given_or_saved_token (dp_tokens dp) forge inst given)"
  unfolding given_or_saved_token_def Let_def by (auto intro!: keeps_intros keeps_tokens split: option.split)

lemma keeps_settings_handlers:
  assumes "\<And>body ups. scan body = JsonValue ups \<Longrightarrow> good ups"
  shows "keeps inv (settings_get_handler (dp_settings dp) info)"
    "keeps inv (settings_patch_handler (dp_settings dp) ord scan info q)"
proof -
  show "keeps inv (settings_get_handler (dp_settings dp) info)"
    unfolding settings_get_handler_def by (intro keeps_intros operations)
  have "good ups" if "read_json scan q = Inr ups" for ups
    using that assms by (auto simp: read_json_def split: json_scan.splits)
  then show "keeps inv (settings_patch_handler (dp_settings dp) ord scan info q)"
    unfolding settings_patch_handler_def by (intro keeps_intros keeps_settings(2))
qed

subsubsection \<open>Repositories, webhooks, runs\<close>

lemma keeps_repo_functions:
  "keeps inv (register_repo (dp_registrar dp) (dp_tokens dp) n)"
  "keeps inv (discover_repos (dp_registrar dp) (dp_tokens dp) b)"
  "keeps inv (tracked_repo (dp_repos dp) i)" "keeps inv (untrack_repo (dp_repos dp) i)"
  unfolding register_repo_def discover_repos_def tracked_repo_def untrack_repo_def
  by (auto intro!: keeps_intros operations keeps_given_or_saved split: sum.split)

lemma keeps_repo_handlers:
  "keeps inv (list_repos_handler (dp_repos dp) q)"
  "keeps inv (register_handler (dp_registrar dp) (dp_tokens dp) scan q)"
  "keeps inv (identifiers_handler (dp_repos dp) q)"
  "keeps inv (discover_handler (dp_registrar dp) (dp_tokens dp) scan' q)"
  "keeps inv (get_repo_handler (dp_repos dp) i)" "keeps inv (untrack_handler (dp_repos dp) i)"
  "keeps inv (usage_handler (dp_repos dp) (dp_metrics dp) i q)"
  unfolding list_repos_handler_def register_handler_def identifiers_handler_def discover_handler_def
    get_repo_handler_def untrack_handler_def usage_handler_def Let_def
  by (auto intro!: keeps_intros operations keeps_repo_functions split: sum.split)

lemma keeps_receive:
  assumes "\<And>r e b. keeps inv (process r e b)"
  shows "keeps inv (receive (dp_runs dp) hmac dec forge sh eh process q)"
  unfolding receive_def by (auto intro!: keeps_intros operations assms split: sum.split)

lemma keeps_webhooks:
  "keeps inv (github_webhook (dp_runs dp) hmac dec q)"
  "keeps inv (forgejo_webhook (dp_runs dp) hmac dec (dp_reconcile dp) q)"
  unfolding github_webhook_def forgejo_webhook_def process_forgejo_event_def
  by (auto intro!: keeps_receive ingest.webhook_keeps keeps_intros keeps_reconcile)

lemma keeps_run_action: "(\<And>i. keeps inv (act i)) \<Longrightarrow> keeps inv (run_action_handler act info run_id)"
  unfolding run_action_handler_def by (intro keeps_intros)

lemma keeps_job_log: "(\<And>i j k. keeps inv (tail i j k)) \<Longrightarrow> keeps inv (job_log_handler tail run_id job_id q)"
  unfolding job_log_handler_def by (auto intro!: keeps_intros split: option.split)

lemma keeps_group_by_token: "keeps inv (group_by_token (dp_repos dp) (dp_limits dp) rs groups)"
proof (induction rs arbitrary: groups)
  case (Cons r rs)
  have "keeps inv (attach_status (dp_limits dp) token g)" for token g
    unfolding attach_status_def by (auto intro!: keeps_intros keeps_limits split: option.split)
  then have "keeps inv (group_repo (dp_repos dp) (dp_limits dp) r groups)" for groups
    unfolding group_repo_def Let_def by (auto intro!: keeps_intros operations split: sum.split)
  with Cons.IH show ?case by (auto intro!: keeps_intros)
qed (simp add: keeps_retE)

lemma keeps_token_usage: "keeps inv (token_usage (dp_repos dp) (dp_limits dp))"
  unfolding token_usage_def by (auto intro!: keeps_intros operations keeps_group_by_token)

subsubsection \<open>Metrics\<close>

lemma keeps_metrics_handlers:
  "keeps inv (list_pipelines_handler (dp_metrics dp) q)" "keeps inv (get_pipeline_handler (dp_metrics dp) i q)"
  "keeps inv (pipeline_steps_handler (dp_metrics dp) i q)" "keeps inv (flaky_runs_handler (dp_metrics dp) i q)"
  "keeps inv (run_steps_handler (dp_metrics dp) i)" "keeps inv (unhealthy_steps_handler (dp_metrics dp) q)"
  "keeps inv (list_runs_handler (dp_metrics dp) q)" "keeps inv (list_branches_handler (dp_metrics dp) q)"
  "keeps inv (failure_insights_handler (dp_metrics dp) os U q)" "keeps inv (flaky_steps_handler (dp_metrics dp) os q)"
  unfolding list_pipelines_handler_def get_pipeline_handler_def pipeline_steps_handler_def flaky_runs_handler_def
    run_steps_handler_def unhealthy_steps_handler_def list_runs_handler_def list_branches_handler_def
    failure_insights_handler_def flaky_steps_handler_def Let_def
  by (auto intro!: keeps_intros operations split: sum.split)

lemma keeps_quarantine_handlers:
  "keeps inv (quarantine_handler (dp_metrics dp) scan info i s q)"
  "keeps inv (unquarantine_handler (dp_metrics dp) info i s)"
  unfolding quarantine_handler_def unquarantine_handler_def by (intro keeps_intros operations)+

lemma keeps_probes: "keeps inv healthz" "keeps inv (readyz (dp_ready dp) ttl draining)" "keeps inv (version_handler v)"
proof -
  have last: "keeps inv last_probe" by (simp add: keeps_def last_probe_def)
  have "keeps inv (run_probe check)" if "dp_ready dp = Some check" for check
    unfolding run_probe_def Let_def by (intro keeps_intros keeps_ready that)
  then have "keeps inv (probe check ttl)" if "dp_ready dp = Some check" for check ttl
    unfolding probe_def using that by (auto intro!: keeps_intros last split: option.split)
  then show "keeps inv (readyz (dp_ready dp) ttl draining)"
    unfolding readyz_def Let_def healthz_def by (auto intro!: keeps_intros split: option.split)
  show "keeps inv healthz" "keeps inv (version_handler v)"
    by (simp_all add: healthz_def version_handler_def keeps_retE)
qed

subsubsection \<open>Tools\<close>

lemma keeps_read_tools:
  assumes h: "h = mcp_of pt dp"
  shows "keeps inv (tool_list_pipelines h i1)" "keeps inv (tool_get_pipeline h s1 s2)"
    "keeps inv (tool_pipeline_steps h s1 s2)" "keeps inv (tool_flaky_runs h s1 s2 s3)"
    "keeps inv (tool_repo_usage h s1 s2)" "keeps inv (tool_unhealthy_steps h s1 n m)"
    "keeps inv (tool_failure_insights h i2)" "keeps inv (tool_list_runs h i3)" "keeps inv (tool_run_steps h s1)"
    "keeps inv (tool_list_branches h i2)" "keeps inv (tool_flaky_steps h i2 n m)"
    "keeps inv (tool_version h)" "keeps inv (tool_list_repos h s1 n m)" "keeps inv (tool_get_repo h s1)"
    "keeps inv (tool_repo_identifiers h s1 s2)" "keeps inv (tool_rate_limit h)" "keeps inv (tool_get_settings h info)"
  unfolding h tool_list_pipelines_def tool_get_pipeline_def tool_pipeline_steps_def tool_flaky_runs_def
    tool_repo_usage_def tool_unhealthy_steps_def tool_failure_insights_def tool_list_runs_def tool_run_steps_def
    tool_list_branches_def tool_flaky_steps_def tool_version_def tool_list_repos_def tool_get_repo_def
    tool_repo_identifiers_def tool_rate_limit_def tool_get_settings_def mcp_of_def Let_def
  by (auto intro!: keeps_intros operations keeps_repo_functions keeps_token_usage split: sum.split option.split)

lemma keeps_job_log_tool: "keeps inv (tool_job_log (mcp_of pt dp) i j n)"
  unfolding tool_job_log_def mcp_of_def by (auto intro!: keeps_intros keeps_logs split: option.split)

lemma keeps_write_tools:
  assumes h: "h = mcp_of pt dp"
  shows "keeps inv (tool_run_action h info action run_id)" "keeps inv (tool_quarantine h info s1 s2 s3)"
    "keeps inv (tool_unquarantine h info s1 s2)" "keeps inv (tool_register h n)" "keeps inv (tool_discover h b)"
    "keeps inv (tool_untrack h s1)"
  using keeps_actions
  unfolding h tool_run_action_def tool_quarantine_def tool_unquarantine_def tool_register_def tool_discover_def
    tool_untrack_def mcp_of_def
  by (auto intro!: keeps_intros operations keeps_repo_functions split: option.split prod.split)

lemma keeps_update_tool:
  assumes "good ups" and "pt_patch_order pt = ord"
  shows "keeps inv (tool_update_settings (mcp_of pt dp) info ups)"
  unfolding tool_update_settings_def mcp_of_def
  by (auto intro!: keeps_intros keeps_settings(2) simp: assms split: option.split)

lemma keeps_call_tool:
  assumes "\<And>ups. call = UpdateSettings ups \<Longrightarrow> good ups" and "pt_patch_order pt = ord"
  shows "keeps inv (call_tool (mcp_of pt dp) info call)"
  using assms by (cases call) (auto intro: keeps_read_tools keeps_write_tools keeps_job_log_tool keeps_update_tool)

subsubsection \<open>The server\<close>

lemma keeps_static: "keeps inv (static_endpoint pt dp q)"
  unfolding static_endpoint_def by (auto intro!: keeps_intros split: option.split)

lemma keeps_mcp: "sound_platform good ord pt \<Longrightarrow> keeps inv (mcp_endpoint (pt_sdk pt) (mcp_of pt dp) info q)"
  unfolding mcp_endpoint_def
  by (auto intro!: keeps_intros keeps_call_tool simp: sound_platform_def split: sum.split)

lemma keeps_account_endpoint:
  assumes "sound_platform good ord pt"
  shows "keeps inv (account_endpoint pt dp e v info q)"
proof -
  have scan: "good ups" if "pt_patch pt body = JsonValue ups" for body ups
    using assms that by (simp add: sound_platform_def)
  have order: "pt_patch_order pt = ord" using assms by (simp add: sound_platform_def)
  have tokens: "keeps inv (with_tokens dp f)" if "\<And>ts. dp_tokens dp = Some ts \<Longrightarrow> keeps inv (f ts)" for f
    using that by (simp add: with_tokens_def keeps_panicE split: option.split)
  show ?thesis
    by (cases e) (simp_all add: keeps_passkeys keeps_credentials keeps_mcp [OF assms] keeps_static tokens
        keeps_forge_token_handlers order keeps_settings_handlers [OF scan])
qed

lemma keeps_optional_handlers:
  "keeps inv (with_actions dp (\<lambda>acts. run_action_handler (fst acts) info i))"
  "keeps inv (with_actions dp (\<lambda>acts. run_action_handler (snd acts) info i))"
  "keeps inv (with_job_logs dp (\<lambda>tail. job_log_handler tail i j q))"
  by (cases "dp_run_actions dp"; cases "dp_job_logs dp";
      simp add: with_actions_def with_job_logs_def keeps_panicE keeps_run_action keeps_actions keeps_job_log keeps_logs)+

lemma keeps_rate_limit: "keeps inv (rate_limit_handler (dp_repos dp) (dp_limits dp))"
  unfolding rate_limit_handler_def by (intro keeps_intros keeps_token_usage)

lemma keeps_endpoint:
  assumes "sound_platform good ord pt"
  shows "keeps inv (endpoint_handler pt dp e v info q)"
  by (cases e) (simp_all del: account_endpoint.simps add: keeps_account_endpoint [OF assms] keeps_repo_handlers
      keeps_metrics_handlers keeps_quarantine_handlers keeps_webhooks keeps_probes keeps_optional_handlers
      keeps_rate_limit)

lemma keeps_mux: "sound_platform good ord pt \<Longrightarrow> keeps inv (mux pt dp info q)"
  unfolding mux_def by (auto intro!: keeps_intros keeps_endpoint split: prod.split)

lemma keeps_identities: "keeps inv (session_identity (dp_auth dp) q)" "keeps inv (token_identity (dp_auth dp) q)"
  unfolding session_identity_def token_identity_def by (auto intro!: keeps_intros auth.reads split: option.split)

lemma keeps_server:
  assumes "sound_platform good ord pt"
  shows "keeps inv (server pt dp q)"
proof -
  have "keeps inv (require_session (dp_auth dp) (mux pt dp) q)" for q
    unfolding require_session_def
    by (auto intro!: keeps_intros keeps_identities keeps_mux assms split: option.split)
  then have "keeps inv (limit_bodies (require_session (dp_auth dp) (mux pt dp)) q)" for q
    unfolding limit_bodies_def Let_def by (auto intro!: keeps_intros)
  then show ?thesis
    unfolding server_def noindex_def request_logger_def by (auto intro!: keeps_intros split: prod.split)
qed

end

end
