(* ===== verification/Frames.thy ===== *)
theory Frames
  imports IngestionOps AuthOps HttpIngest MainProgram
begin

text \<open>
  Each store writes its own tables: ingestion, the saved forge tokens and the marks leave the
  tables of accounts and settings alone, the account store and the settings leave the tables
  of ingestion alone, and the account store the settings. What one store keeps of the
  database's integrity the others therefore keep too.
\<close>

subsection \<open>The parts\<close>

definition ingest_part ::
  "db \<Rightarrow> repo_row list \<times> run_row list \<times> job_row list \<times> step_row list \<times> quarantine_row list \<times> forge_token_row list" where
  "ingest_part d = (t_repos d, t_runs d, t_jobs d, t_steps d, t_quarantines d, t_forge_tokens d)"

definition account_part ::
  "db \<Rightarrow> user_row list \<times> credential_row list \<times> ceremony_row list \<times> session_row list \<times> api_token_row list" where
  "account_part d = (t_users d, t_credentials d, t_ceremonies d, t_sessions d, t_api_tokens d)"

lemma keeps_part:
  assumes "\<And>x. keeps (\<lambda>d. part d = x) m" and "\<And>d d'. part d' = part d \<Longrightarrow> P d \<Longrightarrow> P d'"
  shows "keeps P m"
  unfolding keeps_def
proof (intro allI impI)
  fix w :: world assume "P (w_db w)"
  moreover have "part (w_db (snd (m w))) = part (w_db w)" using keepsD [OF assms(1)] by blast
  ultimately show "P (w_db (snd (m w)))" using assms(2) by blast
qed

lemma ingest_inv_part: "ingest_part d' = ingest_part d \<Longrightarrow> ingest_inv ae key d \<Longrightarrow> ingest_inv ae key d'"
  by (simp add: ingest_part_def ingest_inv_def run_tables_ok_def forge_tokens_ok_def rows_sound_def)

text \<open>The settings part of the accounts' integrity is read off the settings table.\<close>

lemma auth_inv_part:
  assumes "account_part d' = account_part d" and "account_tables_ok d'" and "auth_inv d" shows "auth_inv d'"
  using assms by (simp add: account_part_def auth_inv_def)

lemma auth_inv_both:
  "(account_part d', t_settings d') = (account_part d, t_settings d) \<Longrightarrow> auth_inv d \<Longrightarrow> auth_inv d'"
  by (simp add: account_part_def auth_inv_def account_tables_ok_def)

lemma stored_valid_part: "t_settings d' = t_settings d \<Longrightarrow> stored_valid d \<Longrightarrow> stored_valid d'"
  by (simp add: stored_valid_def settings_view_def settings_data_def)

subsection \<open>The account store\<close>

abbreviation not_accounts where
  "not_accounts d \<equiv> (ingest_part d, t_settings d)"

lemma account_statements:
  "insert_user u d = Inr d' \<Longrightarrow> not_accounts d' = not_accounts d"
  "upsert_credential c d = Some (d', n) \<Longrightarrow> not_accounts d' = not_accounts d"
  "delete_credential v cid d = Some (d', n) \<Longrightarrow> not_accounts d' = not_accounts d"
  "insert_ceremony ce d = Inr d' \<Longrightarrow> not_accounts d' = not_accounts d"
  "delete_ceremony i d = Some (d', n) \<Longrightarrow> not_accounts d' = not_accounts d"
  "insert_session s d = Inr d' \<Longrightarrow> not_accounts d' = not_accounts d"
  "delete_session_row i d = Some (d', n) \<Longrightarrow> not_accounts d' = not_accounts d"
  "insert_token t d = Inr d' \<Longrightarrow> not_accounts d' = not_accounts d"
  "mark_revoked v i now d = Some (d', n) \<Longrightarrow> not_accounts d' = not_accounts d"
  by (auto simp: insert_user_def upsert_credential_def delete_credential_def insert_ceremony_def
      delete_ceremony_def insert_session_def delete_session_row_def insert_token_def mark_revoked_def
      ingest_part_def Let_def split: if_splits)

lemma keeps_not_accounts:
  "keeps (\<lambda>d. not_accounts d = x) (sql_create_user handle name)"
  "keeps (\<lambda>d. not_accounts d = x) (sql_put_credential wa user cred)"
  "keeps (\<lambda>d. not_accounts d = x) (sql_put_labeled wa user cred label)"
  "keeps (\<lambda>d. not_accounts d = x) (sql_revoke_credential user cid)"
  "keeps (\<lambda>d. not_accounts d = x) (sql_save_ceremony i data t)"
  "keeps (\<lambda>d. not_accounts d = x) (sql_take_ceremony i)"
  "keeps (\<lambda>d. not_accounts d = x) (sql_create_session user)"
  "keeps (\<lambda>d. not_accounts d = x) (sql_delete_session i)"
  "keeps (\<lambda>d. not_accounts d = x) (sql_create_token sha user ttl)"
  "keeps (\<lambda>d. not_accounts d = x) (sql_revoke_token user i)"
  unfolding sql_create_user_def create_user_check_def create_user_insert_def count_users_def
    sql_put_credential_def sql_put_labeled_def sql_save_ceremony_def sql_take_ceremony_def
    sql_create_session_def sql_delete_session_def sql_create_token_def sql_revoke_token_def
    sql_revoke_credential_def Let_def
  by ((rule keeps_intros keeps_execE keeps_insertE | erule account_statements [THEN trans]
        | (split option.split prod.split if_split, intro allI impI conjI) | assumption)+)

subsection \<open>Ingestion, forge tokens and marks\<close>

abbreviation not_ingested where
  "not_ingested d \<equiv> (account_part d, t_settings d)"

lemma ingest_statements:
  "insert_repo r d = Inr d' \<Longrightarrow> not_ingested d' = not_ingested d"
  "update_repo i f d = Some (d', n) \<Longrightarrow> not_ingested d' = not_ingested d"
  "set_status_row i s reason d = Some (d', n) \<Longrightarrow> not_ingested d' = not_ingested d"
  "delete_repo_rows i d = Some (d', n) \<Longrightarrow> not_ingested d' = not_ingested d"
  "upsert_forge_token t d = Inr (d', y) \<Longrightarrow> not_ingested d' = not_ingested d"
  "delete_forge_token_row i d = Some (d', n) \<Longrightarrow> not_ingested d' = not_ingested d"
  "update_run_row i rx d = Some (d', n) \<Longrightarrow> not_ingested d' = not_ingested d"
  "insert_run rr d = Inr d' \<Longrightarrow> not_ingested d' = not_ingested d"
  "update_job_row i jx d = Some (d', n) \<Longrightarrow> not_ingested d' = not_ingested d"
  "insert_job jr d = Inr d' \<Longrightarrow> not_ingested d' = not_ingested d"
  "clear_steps i d = Some (d', n) \<Longrightarrow> not_ingested d' = not_ingested d"
  "insert_step sr d = Inr d' \<Longrightarrow> not_ingested d' = not_ingested d"
  "upsert_quarantine q d = Some (d', n) \<Longrightarrow> not_ingested d' = not_ingested d"
  "delete_quarantine k d = Some (d', n) \<Longrightarrow> not_ingested d' = not_ingested d"
  by (auto simp: insert_repo_def update_repo_def set_status_row_def delete_repo_rows_def upsert_forge_token_def
      delete_forge_token_row_def update_run_row_def insert_run_def update_job_row_def insert_job_def
      clear_steps_def insert_step_def upsert_quarantine_def delete_quarantine_def account_part_def Let_def
      split: if_splits option.splits)

lemma keeps_not_ingested:
  "keeps (\<lambda>d. not_ingested d = x) (sql_create_repo ae key n)"
  "keeps (\<lambda>d. not_ingested d = x) (sql_delete_repo i)"
  "keeps (\<lambda>d. not_ingested d = x) (sql_set_status i s reason)"
  "keeps (\<lambda>d. not_ingested d = x) (sql_set_etag i e)"
  "keeps (\<lambda>d. not_ingested d = x) (sql_upsert_run rx)"
  "keeps (\<lambda>d. not_ingested d = x) (sql_upsert_job jx)"
  "keeps (\<lambda>d. not_ingested d = x) (sql_replace_steps j ss)"
  "keeps (\<lambda>d. not_ingested d = x) (sql_save_forge_token ae key forge inst token)"
  "keeps (\<lambda>d. not_ingested d = x) (sql_delete_forge_token i)"
  "keeps (\<lambda>d. not_ingested d = x) (sql_quarantine_step k note now)"
  "keeps (\<lambda>d. not_ingested d = x) (sql_unquarantine_step k)"
  unfolding sql_create_repo_def sql_delete_repo_def sql_set_status_def sql_set_etag_def sql_upsert_run_def
    sql_upsert_job_def sql_replace_steps_def sql_insert_step_def sql_save_forge_token_def
    sql_delete_forge_token_def sql_quarantine_step_def sql_unquarantine_step_def find_id_def random_hex_def
    rand_bytes_def Let_def
  by ((rule keeps_intros keeps_encrypt keeps_exec_some keeps_execE keeps_insertE keeps_returningE
        | erule ingest_statements [THEN trans]
        | (split option.split prod.split if_split sum.split, intro allI impI conjI) | assumption)+)

interpretation ingest_frame: ingest_store "sql_rstore ae key" sql_runstore "\<lambda>d. not_ingested d = x" for ae key x
  by unfold_locales (blast intro: sql_ingest.reads
    | simp add: sql_rstore_def sql_runstore_def keeps_not_ingested)+

end
