(* ===== verification/Integrity.thy ===== *)
theory Integrity
  imports ServerInv Frames
begin

text \<open>
  The program as it is wired keeps the integrity of its database under every request: the
  contract of the server's dependencies, interpreted on the SQLite stores and forge clients.
\<close>

subsection \<open>The stores together\<close>

definition server_inv :: "aead \<Rightarrow> string \<Rightarrow> db \<Rightarrow> bool" where
  "server_inv ae key d \<longleftrightarrow> ingest_inv ae key d \<and> auth_inv d \<and> stored_valid d"

lemma server_inv_from_ingest:
  assumes "keeps (ingest_inv ae key) m" and "\<And>x. keeps (\<lambda>d. not_ingested d = x) m"
  shows "keeps (server_inv ae key) m"
  unfolding server_inv_def [abs_def]
  by (intro keeps_conj assms keeps_part [of not_ingested, OF assms(2)])
    (auto intro: auth_inv_both stored_valid_part)

lemma server_inv_from_auth:
  assumes "keeps auth_inv m" and "\<And>x. keeps (\<lambda>d. not_accounts d = x) m"
  shows "keeps (server_inv ae key) m"
  unfolding server_inv_def [abs_def]
  by (intro keeps_conj assms keeps_part [of not_accounts, OF assms(2)])
    (auto intro: ingest_inv_part stored_valid_part)

lemma upsert_settings_part:
  "upsert_settings user data t d = Some (d', n) \<Longrightarrow> (ingest_part d', account_part d') = (ingest_part d, account_part d)"
  by (auto simp: upsert_settings_def ingest_part_def account_part_def split: if_splits)

lemma keeps_rest_of_settings:
  "keeps (\<lambda>d. (ingest_part d, account_part d) = x) (settings_update (sql_sstore o1) o2 user ups)"
  unfolding settings_update_def sql_sstore_def sql_settings_patch_def Let_def sstore.simps
  by ((rule keeps_intros keeps_execE | erule upsert_settings_part [THEN trans] | assumption)+)

lemma server_inv_settings:
  assumes "permuting o1" and "permuting o2" and "distinct (map fst ups)"
  shows "keeps (server_inv ae key) (settings_update (sql_sstore o1) o2 user ups)"
  unfolding keeps_def
proof (intro allI impI)
  fix w :: world assume inv: "server_inv ae key (w_db w)"
  let ?m = "settings_update (sql_sstore o1) o2 user ups" and ?d = "w_db (snd (settings_update (sql_sstore o1) o2 user ups w))"
  have ok: "account_tables_ok (w_db w)" and valid: "stored_valid (w_db w)"
    using inv by (simp_all add: server_inv_def auth_inv_def)
  have rest: "(ingest_part ?d, account_part ?d) = (ingest_part (w_db w), account_part (w_db w))"
    using keepsD [OF keeps_rest_of_settings, of w] by blast
  have "account_tables_ok ?d" using keepsD [OF sql_settings.update_keeps ok] .
  then show "server_inv ae key ?d"
    using inv rest update_stays_valid [OF ok valid assms] auth_inv_part ingest_inv_part
    unfolding server_inv_def by blast
qed

subsection \<open>Operations that only read\<close>

lemma row_reads: "keeps P (sql_get_repo i)" "keeps P (sql_repo_token ae key i)" "keeps P (sql_run_by_id i)"
    "keeps P (sql_locate_job i j)" "keeps P (sql_forge_token ae key forge inst)" "keeps P sql_list_forge_tokens"
    "keeps P db_ready"
  unfolding sql_get_repo_def sql_repo_token_def sql_run_by_id_def sql_locate_job_def sql_forge_token_def
    sql_list_forge_tokens_def db_ready_def
  by (auto intro!: keeps_intros split: option.split)

lemma keeps_post: "keeps P (post_run_action g req path)"
  unfolding post_run_action_def
  by (auto intro!: keeps_intros keeps_record_rate_limit split: http_outcome.split)

lemma keeps_run_act: "keeps P (run_act (sql_action_ports ae key) (run_actors g) i action)"
proof -
  have "keeps P (ra_rerun a req) \<and> keeps P (ra_cancel a req)" if "run_actors g forge = Some a" for forge a req
    using that by (auto simp: run_actors_def github_actor_def github_rerun_def github_cancel_def keeps_post split: if_splits)
  then show ?thesis
    unfolding run_act_def sql_action_ports_def action_ports.simps Let_def
    by (auto intro!: keeps_intros row_reads split: sum.split option.split)
qed

lemma keeps_log_tail: "keeps P (log_tail_of (sql_log_ports ae key) (log_readers g) i j n)"
proof -
  have "keeps P (github_job_log g req)" for req
    unfolding github_job_log_def
    by (auto intro!: keeps_intros keeps_record_rate_limit split: http_outcome.split)
  then have "keeps P (rd req)" if "log_readers g forge = Some rd" for forge rd req
    using that by (auto simp: log_readers_def forgejo_job_log_def keeps_throwE split: if_splits)
  then show ?thesis
    unfolding log_tail_of_def sql_log_ports_def log_ports.simps
    by (auto intro!: keeps_intros row_reads split: sum.split option.split)
qed

lemma keeps_discover: "keeps P (discover (forge_clients g f) forge inst token)"
  unfolding discover_def
  by (auto intro!: keeps_intros split: option.split dest: quiet_clients simp: quiet_client_def)

lemma keeps_limit: "keeps P (rate_limit_for token)"
  by (simp add: keeps_def rate_limit_for_def)

subsection \<open>The server as it is wired\<close>

abbreviation good_patch :: "(patch \<Rightarrow> patch) \<Rightarrow> (patch \<Rightarrow> patch) \<Rightarrow> patch \<Rightarrow> bool" where
  "good_patch o1 o2 ups \<equiv> permuting o1 \<and> permuting o2 \<and> distinct (map fst ups)"

lemma ingest_server_inv:
  "keeps (server_inv ae key) (is_create (sql_rstore ae key) n)" "keeps (server_inv ae key) (is_delete (sql_rstore ae key) i)"
  "keeps (server_inv ae key) (is_set_status (sql_rstore ae key) i s reason)"
  "keeps (server_inv ae key) (is_set_etag (sql_rstore ae key) i e)"
  "keeps (server_inv ae key) (rn_upsert_run sql_runstore x)" "keeps (server_inv ae key) (rn_upsert_job sql_runstore y)"
  "keeps (server_inv ae key) (rn_replace_steps sql_runstore j ss)"
  by (intro server_inv_from_ingest sql_ingest.writes ingest_frame.writes)+

lemma other_server_inv:
  "keeps (server_inv ae key) (sql_save_forge_token ae key forge inst token)"
  "keeps (server_inv ae key) (sql_delete_forge_token i)"
  "keeps (server_inv ae key) (ms_quarantine sql_mstore k note now)"
  "keeps (server_inv ae key) (ms_unquarantine sql_mstore k)"
  by (intro server_inv_from_ingest keeps_save_token keeps_delete_token keeps_marks keeps_not_ingested
    | simp add: sql_mstore_def keeps_not_ingested)+

interpretation sql_whole: ingest_store "sql_rstore ae key" sql_runstore "server_inv ae key" for ae key
  by unfold_locales (blast intro: sql_ingest.reads | rule ingest_server_inv)+

interpretation sql_accounts: auth_guard "sql_astore wa sha" ceremony_map "server_inv ae key" for wa sha ae key
  by unfold_locales
    (intro server_inv_from_auth sql_auth.keeps_inv; simp add: sql_astore_def keeps_not_accounts)+

lemma server_inv_tables: "server_inv ae key d \<Longrightarrow> run_tables_ok d"
  by (simp add: server_inv_def ingest_inv_def)

interpretation sql_figures: metrics_store sql_mstore "server_inv ae key" quarantine_marks for ae key
  by unfold_locales
    (blast intro: sql.reads | erule (1) sql.runs_in_window
      | (rule sql.active_is sql.quarantine_is sql.unquarantine_is, erule server_inv_tables, assumption)
      | erule sql.failed_write | rule other_server_inv)+

lemma build_deps_parts [simp]:
  "dp_repos (build_deps ae sha wa o1 g f c dr v a) = sql_rstore ae (cf_key c)"
  "dp_runs (build_deps ae sha wa o1 g f c dr v a) = sql_runstore"
  "dp_metrics (build_deps ae sha wa o1 g f c dr v a) = sql_mstore"
  "dp_auth (build_deps ae sha wa o1 g f c dr v a) = sql_astore wa sha"
  "dp_settings (build_deps ae sha wa o1 g f c dr v a) = sql_sstore o1"
  "dp_tokens (build_deps ae sha wa o1 g f c dr v a) = Some (sql_token_store ae (cf_key c))"
  "dp_limits (build_deps ae sha wa o1 g f c dr v a) = Some rate_limit_for"
  "dp_ready (build_deps ae sha wa o1 g f c dr v a) = Some db_ready"
  "dp_registrar (build_deps ae sha wa o1 g f c dr v a) =
     the_registrar (sql_rstore ae (cf_key c)) (forge_clients g f) (cf_callback c)"
  "dp_reconcile (build_deps ae sha wa o1 g f c dr v a) =
     reconcile_repo (sql_rstore ae (cf_key c)) sql_runstore (forge_clients g f)"
  "dp_job_logs (build_deps ae sha wa o1 g f c dr v a) =
     Some (log_tail_of (sql_log_ports ae (cf_key c)) (log_readers g))"
  "dp_run_actions (build_deps ae sha wa o1 g f c dr v a) =
     Some (rerun (sql_action_ports ae (cf_key c)) (run_actors g), cancel (sql_action_ports ae (cf_key c)) (run_actors g))"
  by (simp_all add: build_deps_def Let_def)

interpretation wired: server_stores "build_deps ae sha wa o1 g f c dr v a" "server_inv ae (cf_key c)"
  ceremony_map quarantine_marks o2 "good_patch o1 o2" for ae sha wa o1 g f c dr v a o2
proof (intro server_stores.intro server_stores_axioms.intro, unfold build_deps_parts)
  show "ingest_store (sql_rstore ae (cf_key c)) sql_runstore (server_inv ae (cf_key c))"
    by (rule sql_whole.ingest_store_axioms)
  show "auth_guard (sql_astore wa sha) ceremony_map (server_inv ae (cf_key c))"
    by (rule sql_accounts.auth_guard_axioms)
  show "metrics_store sql_mstore (server_inv ae (cf_key c)) quarantine_marks"
    by (rule sql_figures.metrics_store_axioms)
next
  fix n forge inst token r i
  show "keeps (server_inv ae (cf_key c))
     (rg_register (the_registrar (sql_rstore ae (cf_key c)) (forge_clients g f) (cf_callback c)) n)"
    by (simp add: the_registrar_def) (intro sql_whole.register_keeps, erule quiet_clients)
  show "keeps (server_inv ae (cf_key c))
     (rg_discover (the_registrar (sql_rstore ae (cf_key c)) (forge_clients g f) (cf_callback c)) forge inst token)"
    by (simp add: the_registrar_def keeps_discover)
  show "keeps (server_inv ae (cf_key c)) (reconcile_repo (sql_rstore ae (cf_key c)) sql_runstore (forge_clients g f) r)"
    by (intro sql_whole.reconcile_keeps, erule quiet_clients)
next
  fix user ups
  show "keeps (server_inv ae (cf_key c)) (settings_get (sql_sstore o1) user)"
    by (rule sql_settings.get_keeps)
  show "keeps (server_inv ae (cf_key c)) (settings_update (sql_sstore o1) o2 user ups)" if "good_patch o1 o2 ups"
    using that by (intro server_inv_settings) simp_all
qed (auto simp: sql_token_store_def rerun_def cancel_def keeps_run_act keeps_log_tail keeps_limit
    intro: other_server_inv row_reads)

end
