(* ===== verification/ServerOps.thy ===== *)
theory ServerOps
  imports Integrity
begin

text \<open>
  The server end to end: the stores and services wired by \<open>buildHandler\<close>, behind the chain of
  \<open>New\<close>. What a request without a session can and cannot do, which webhook deliveries count,
  and the integrity of the database under every request.
\<close>

subsection \<open>An example\<close>

definition demo_config :: config where
  "demo_config = \<lparr> cf_addr = '':8080'', cf_db = ''p.db'', cf_callback = ''https://x'', cf_key = demo_key,
     cf_interval = 1, cf_drain = 0, cf_shutdown = 1, cf_level = 0 \<rparr>"

abbreviation demo_deps :: "(string, string) deps" where
  "demo_deps \<equiv> build_deps demo_aead (\<lambda>x. x) demo_wa (\<lambda>x. x) demo_github demo_forgejo demo_config False ''v1''
     \<lparr> fs_stat = \<lambda>_. None, fs_read = \<lambda>_. None \<rparr>"

definition demo_platform :: platform where
  "demo_platform =
     \<lparr> pt_hmac = \<lambda>secret body. take 2 secret @ body,
       pt_webhooks = \<lparr> wd_full_name = \<lambda>_. Inr ''o/n'', wd_run = \<lambda>_. Inr demo_event,
         wd_job = \<lambda>_. Inl (Driver []) \<rparr>,
       pt_ttl = \<lambda>_. JsonMore True, pt_save_token = \<lambda>_. JsonBad, pt_patch = \<lambda>_. JsonValue [(''theme'', Some ''dark'')],
       pt_note = \<lambda>_. JsonValue [], pt_repo = \<lambda>_. JsonValue demo_new, pt_discovery = \<lambda>_. JsonBad,
       pt_orders = insertion_orders,
       pt_words = \<lambda>s. [s], pt_patch_order = \<lambda>x. x,
       pt_static = \<lparr> sl_mime = \<lambda>_. [], sl_sha256 = id, sl_serve = \<lambda>_ _ _. write_status 200 \<rparr>,
       pt_routes = \<lambda>_. None,
       pt_sdk = \<lparr> sk_read = \<lambda>_. Inr GetVersion, sk_write = \<lambda>_ _. write_status 200 \<rparr> \<rparr>"

definition demo_request :: "string \<Rightarrow> string list \<Rightarrow> (string \<times> string) list \<Rightarrow> string \<Rightarrow> request" where
  "demo_request method segs headers body =
     \<lparr> rq_method = method, rq_raw = segs, rq_query = [], rq_headers = headers, rq_cookies = [],
       rq_length = int (length body), rq_body = body, rq_end = BodyEnd \<rparr>"

lemma tracked_server_inv: "server_inv demo_aead demo_key (w_db tracked)"
proof -
  have "ingest_inv demo_aead demo_key (w_db tracked)" by (rule tracked_inv)
  moreover have "auth_inv (w_db tracked)" by code_simp
  moreover have "stored_valid (w_db tracked)"
    by (simp add: stored_valid_def settings_view_def settings_data_def tracked_def tracked_db_def empty_db_def)
  ultimately show ?thesis by (simp add: server_inv_def)
qed

lemma demo_sound: "sound_platform (\<lambda>ups. distinct (map fst ups)) (\<lambda>x. x) demo_platform"
  by (auto simp: sound_platform_def demo_platform_def)

subsection \<open>Integrity\<close>

text \<open>
  C1: no request can break the database. Whatever is asked of the server as it is wired, by
  whoever, with whatever faults, clock, random source and answers of the forges: keys stay
  unique and references stay sound, there stays at most one account, sessions and tokens keep
  their bounded lives, every stored token still opens under the server's key, and every stored
  setting stays an allowed value. The libraries must permute the maps they iterate over, and
  give patches with each key once.
\<close>

theorem server_keeps_integrity:
  assumes "permuting o1" and "permuting o2"
    and "sound_platform (\<lambda>ups. distinct (map fst ups)) o2 pt"
    and "server_inv ae (cf_key c) (w_db w)"
  shows "server_inv ae (cf_key c) (w_db (snd (server pt (build_deps ae sha wa o1 g f c dr v a) q w)))"
proof -
  have "sound_platform (good_patch o1 o2) o2 pt" using assms(1-3) by (simp add: sound_platform_def)
  from keepsD [OF wired.keeps_server [OF this] assms(4)] show ?thesis .
qed

theorem server_keeps_integrity_witness:
  "server_inv demo_aead demo_key (w_db (snd (server demo_platform demo_deps
     (demo_request ''DELETE'' [''api'', ''repos'', ''id''] [(''Authorization'', ''Bearer id'')] []) tracked)))"
  using server_keeps_integrity [of "\<lambda>x. x" "\<lambda>x. x" demo_platform demo_aead demo_config tracked] tracked_server_inv demo_sound
  by (simp add: permuting_def demo_config_def)

subsection \<open>The gate\<close>

text \<open>
  C2: Take any request that names no live session and carries no usable API token, in any state
  and whatever faults happen. On a path behind the gate it is answered 401, or 413 when its
  declared length is over the limit, no handler runs and nothing is written. On any other path
  the route table sends it to one of the public endpoints: the probes, the version, the
  ceremonies of login and registration, logout, the webhook receivers, the static files.
\<close>

theorem gate_spec:
  assumes auth: "dp_auth dp = sql_astore wa sha"
    and anon: "no_session q w" "no_token sha q w"
    and run: "server pt dp q w = (r, w')"
  shows "(if is_public_path (rq_path q) then fst (route_of dp q) \<in> public_endpoints
    else w_db w' = w_db w \<and>
      (\<exists>l. r = Inr (mark_noindex (if body_limit_for q < rq_length q then payload_too_large else unauthenticated), l)))"
proof (cases "is_public_path (rq_path q)")
  case True
  then show ?thesis using route_public [of dp q] by (simp add: prod_eq_iff)
next
  case False
  obtain w1 r1 w2 where s: "same_state w w1" "same_state w2 w'" "passed_on r1 r"
    and inner: "limit_bodies (require_session (dp_auth dp) (mux pt dp)) q w1 = (r1, w2)"
    using server_run [OF run] by blast
  show ?thesis
  proof (cases "body_limit_for q < rq_length q")
    case True
    with inner s False show ?thesis by (auto simp: limit_bodies_def same_state_def)
  next
    case small: False
    let ?q = "max_bytes (body_limit_for q) q"
    have "require_session (sql_astore wa sha) (mux pt dp) ?q w1 = (r1, w2)"
      using inner small auth by (simp add: limit_bodies_def)
    moreover have "no_session ?q w1" "no_token sha ?q w1"
      using anon s(1) by (simp_all add: no_session_same no_token_same)
    ultimately have "r1 = Inr unauthenticated \<and> same_state w1 w2"
      using gate_cases [of wa sha "mux pt dp" ?q w1 r1 w2] False by auto
    then show ?thesis using s small False by (auto simp: same_state_def)
  qed
qed

theorem gate_spec_witness:
  "let r = server demo_platform demo_deps (demo_request ''DELETE'' [''api'', ''repos'', ''id''] [] []) tracked
   in w_db (snd r) = tracked_db \<and> (\<exists>l. fst r = Inr (mark_noindex unauthenticated, l))"
proof -
  let ?q = "demo_request ''DELETE'' [''api'', ''repos'', ''id''] [] []"
  have anon: "no_session ?q tracked" "no_token (\<lambda>x. x) ?q tracked"
    by (simp_all add: no_session_def no_token_def demo_request_def find_session_def find_token_def
        tracked_def tracked_db_def empty_db_def)
  have "\<not> is_public_path (rq_path ?q)" "\<not> body_limit_for ?q < rq_length ?q" by code_simp+
  moreover obtain r w' where run: "server demo_platform demo_deps ?q tracked = (r, w')" by fastforce
  ultimately show ?thesis
    using gate_spec [OF build_deps_parts(4) anon run] by (simp add: tracked_def)
qed

text \<open>
  C3: A request without a live session, whatever API token it carries, cannot use the endpoints
  that mint or revoke credentials, keep forge tokens, quarantine steps or act on runs, nor the
  MCP tools that do the latter two: nothing is written, the endpoints answer 401 (or 301 for an
  unclean path, 413 for an oversized body), and no handler fails.
\<close>

theorem token_cannot_escalate:
  assumes auth: "dp_auth dp = sql_astore wa sha"
    and anon: "no_session q w"
    and route: "route_of dp q = (e, vs)"
    and only: "e \<in> session_only \<or>
      (e = EMcp \<and> (\<exists>call. sk_read (pt_sdk pt) (max_bytes (body_limit_for q) q) = Inr call \<and> session_only_call call))"
    and run: "server pt dp q w = (r, w')"
  shows "w_db w' = w_db w \<and>
    (\<exists>rep l. r = Inr (rep, l) \<and> (e \<in> session_only \<longrightarrow> ry_status rep \<in> {301, 401, 413}))"
proof -
  let ?q = "max_bytes (body_limit_for q) q"
  have gated: "\<not> is_public_path (rq_path q)" using session_only_gated [OF route] only by blast
  obtain w1 r1 w2 where s: "same_state w w1" "same_state w2 w'" "passed_on r1 r"
    and inner: "limit_bodies (require_session (dp_auth dp) (mux pt dp)) q w1 = (r1, w2)"
    using server_run [OF run] by blast
  have still: "\<exists>rep. mux pt dp (Some i) ?q = retE rep \<and> (e \<in> session_only \<longrightarrow> ry_status rep \<in> {301, 401})"
    if "\<not> ai_via_session i" for i
    using only mux_no_session [of dp ?q e vs i pt] mux_tool_no_session [of dp ?q vs pt _ i] route that
    by (auto simp: session_only_def)
  have "same_state w1 w2 \<and> (\<exists>rep. r1 = Inr rep \<and> (e \<in> session_only \<longrightarrow> ry_status rep \<in> {301, 401, 413}))"
  proof (cases "body_limit_for q < rq_length q")
    case True
    with inner show ?thesis by (auto simp: limit_bodies_def payload_too_large_def write_error_def write_json_def)
  next
    case False
    have req: "require_session (sql_astore wa sha) (mux pt dp) ?q w1 = (r1, w2)"
      using inner False auth by (simp add: limit_bodies_def)
    have "no_session ?q w1" using anon s(1) by (simp add: no_session_same)
    then show ?thesis
      using gate_cases [OF req] gated still
      by (fastforce simp: unauthenticated_def write_error_def write_json_def)
  qed
  then show ?thesis using s by (auto simp: same_state_def)
qed

definition tokened :: world where
  "tokened = snd (issue_token demo_st ''id'' hours registered)"

theorem token_cannot_escalate_witness:
  "let r = server demo_platform demo_deps
     (demo_request ''PUT'' [''api'', ''pipelines'', ''p'', ''steps'', ''s'', ''quarantine'']
       [(''Authorization'', ''Bearer id'')] []) tokened
   in find_token ''id'' (w_db tokened) \<noteq> None \<and> w_db (snd r) = w_db tokened \<and>
     (\<exists>rep l. fst r = Inr (rep, l) \<and> ry_status rep \<in> {301, 401, 413})"
proof -
  let ?q = "demo_request ''PUT'' [''api'', ''pipelines'', ''p'', ''steps'', ''s'', ''quarantine'']
    [(''Authorization'', ''Bearer id'')] []"
  have anon: "no_session ?q tokened" by (simp add: no_session_def demo_request_def)
  have e: "fst (route_of demo_deps ?q) = EQuarantine" by code_simp
  have live: "find_token ''id'' (w_db tokened) \<noteq> None" by code_simp
  obtain vs where route: "route_of demo_deps ?q = (EQuarantine, vs)" using e by (cases "route_of demo_deps ?q") simp
  have only: "EQuarantine \<in> session_only \<or> (EQuarantine = EMcp \<and> (\<exists>call.
      sk_read (pt_sdk demo_platform) (max_bytes (body_limit_for ?q) ?q) = Inr call \<and> session_only_call call))"
    by (simp add: session_only_def)
  obtain r w' where run: "server demo_platform demo_deps ?q tokened = (r, w')" by fastforce
  have "EQuarantine \<in> session_only" by (simp add: session_only_def)
  then show ?thesis
    using live token_cannot_escalate [OF build_deps_parts(4) anon route only run] run by simp
qed

subsection \<open>Webhooks\<close>

text \<open>
  What authenticates a delivery: of the repositories tracked with the sender's forge and the
  name in the payload, the first one's secret verifies the signature of the body.
\<close>

definition delivery_forge :: "endpoint \<Rightarrow> string" where
  "delivery_forge e = (if e = EGithubWebhook then ''github'' else ''forgejo'')"

definition signature_header :: "endpoint \<Rightarrow> string" where
  "signature_header e = (if e = EGithubWebhook then ''X-Hub-Signature-256'' else ''X-Forgejo-Signature'')"

definition delivered_to :: "string \<Rightarrow> string \<Rightarrow> db \<Rightarrow> repo_row option" where
  "delivered_to forge name d = find (\<lambda>r. rp_forge r = forge \<and> rp_identifier r = name) (t_repos d)"

definition signed_delivery :: "platform \<Rightarrow> endpoint \<Rightarrow> request \<Rightarrow> db \<Rightarrow> bool" where
  "signed_delivery pt e q d \<longleftrightarrow>
     (case wd_full_name (pt_webhooks pt) (rq_body q) of
        Inl _ \<Rightarrow> False
      | Inr name \<Rightarrow>
          (case delivered_to (delivery_forge e) name d of
             None \<Rightarrow> False
           | Some r \<Rightarrow> verify_signature (pt_hmac pt) (rp_webhook_secret r) (rq_body q) (header q (signature_header e))))"

text \<open>What is answered to a delivery that is not: it does not depend on what is tracked.\<close>

definition delivery_refusal :: "request \<Rightarrow> reply" where
  "delivery_refusal q =
     (if body_limit_for q < rq_length q then payload_too_large
      else if rq_method q \<noteq> ''CONNECT'' \<and> \<not> clean_raw (rq_raw q) then redirect (clean_path (rq_raw q))
      else if rq_end q = BodyCut \<or> body_limit_for q < int (length (rq_body q)) then payload_too_large
      else if rq_end q = BodyFailed then write_error 400 ''invalid_body'' ''could not read request body''
      else invalid_signature)"

lemma webhook_routes_public: "list_all (on_match (\<lambda>e segs. e \<in> {EGithubWebhook, EForgejoWebhook} \<longrightarrow> is_public_path (path_of segs))) (routes dp)"
  by (auto simp: route_defs Let_def on_match_def path_of_def is_public_path_def split: option.split)

lemma webhook_public:
  assumes "route_of dp q = (e, vs)" and "e = EGithubWebhook \<or> e = EForgejoWebhook"
  shows "is_public_path (rq_path q)"
  using assms find_route_matches [OF _ webhook_routes_public [of dp], of "rq_method q" "map unescape (rq_raw q)" e vs]
  by (auto simp: route_of_def rq_path_def split: option.splits)

lemma max_bytes_header [simp]: "header (max_bytes l q) h = header q h"
  by (simp add: max_bytes_def header_def)

lemma route_of_max_bytes [simp]: "route_of dp (max_bytes l q) = route_of dp q"
  by (simp add: route_of_def)

lemma by_identifier_runs:
  assumes "rn_by_identifier sql_runstore forge name w = (got, w')"
  shows "same_state w w' \<and> got \<noteq> Inl GoPanic \<and> (\<forall>r. got = Inr r \<longrightarrow> (\<exists>row. delivered_to forge name (w_db w) = Some row \<and> r = scan_repo row))"
  using assms
  by (auto simp: sql_runstore_def sql_repo_by_identifier_def delivered_to_def same_state_def bindE_def wrapE_def
      query_rowE_def throwE_def retE_def wrap_error_def
      split: fault.splits option.splits sum.splits prod.splits if_splits)

lemma receive_refuses:
  assumes "receive sql_runstore hmac full_name forge sh eh process q w = (r, w')"
    and "\<And>name row. full_name (rq_body q) = Inr name \<Longrightarrow> delivered_to forge name (w_db w) = Some row \<Longrightarrow>
      \<not> verify_signature hmac (rp_webhook_secret row) (rq_body q) (header q sh)"
  shows "same_state w w' \<and> r = Inr (if rq_end q = BodyCut then payload_too_large
      else if rq_end q = BodyFailed then write_error 400 ''invalid_body'' ''could not read request body''
      else invalid_signature)"
proof (cases "rq_end q = BodyEnd")
  case False
  then show ?thesis using assms(1) by (cases "rq_end q") (auto simp: receive_def retE_def)
next
  case True
  show ?thesis
  proof (cases "full_name (rq_body q)")
    case (Inl e)
    then show ?thesis using assms(1) True by (simp add: receive_def retE_def)
  next
    case (Inr name)
    obtain got w1 where got: "rn_by_identifier sql_runstore forge name w = (got, w1)" by fastforce
    have "tr_secret (scan_repo row) = rp_webhook_secret row" for row by (simp add: scan_repo_def)
    then show ?thesis
      using assms(1) assms(2) [OF Inr] True Inr got by_identifier_runs [OF got]
      by (cases got) (auto simp: receive_def bindE_def tryE_def retE_def)
  qed
qed

text \<open>
  C4: A delivery that is not authenticated changes nothing, and its answer tells nothing: whether
  the payload names no tracked repository or the signature is wrong, it is the same 401, whatever
  faults happen (or the refusal of an unreadable body, of one over the limit, of an unclean path).
\<close>

theorem webhook_authentic:
  assumes runs: "dp_runs dp = sql_runstore"
    and route: "route_of dp q = (e, vs)" and e: "e = EGithubWebhook \<or> e = EForgejoWebhook"
    and unsigned: "\<not> signed_delivery pt e q (w_db w)"
    and run: "server pt dp q w = (r, w')"
  shows "w_db w' = w_db w \<and> (\<exists>l. r = Inr (mark_noindex (delivery_refusal q), l))"
proof -
  obtain w1 r1 w2 where s: "same_state w w1" "same_state w2 w'" "passed_on r1 r"
    and inner: "limit_bodies (require_session (dp_auth dp) (mux pt dp)) q w1 = (r1, w2)"
    using server_run [OF run] by blast
  let ?q = "max_bytes (body_limit_for q) q"
  have "same_state w1 w2 \<and> r1 = Inr (delivery_refusal q)"
  proof (cases "body_limit_for q < rq_length q \<or> (rq_method q \<noteq> ''CONNECT'' \<and> \<not> clean_raw (rq_raw q))")
    case True
    then show ?thesis
      using inner webhook_public [OF route e]
      by (auto simp: limit_bodies_def retE_def delivery_refusal_def require_session_def mux_def)
  next
    case False
    then have m: "endpoint_handler pt dp e (value_of vs) None ?q w1 = (r1, w2)"
      using inner webhook_public [OF route e] route
      by (auto simp: limit_bodies_def require_session_def mux_def)
    show ?thesis
    proof (cases "body_limit_for q < int (length (rq_body q))")
      case True
      then show ?thesis
        using m e False
        by (auto simp: github_webhook_def forgejo_webhook_def receive_def max_bytes_def retE_def delivery_refusal_def)
    next
      case fits: False
      then have "?q = q" by (simp add: max_bytes_def)
      moreover have "w_db w1 = w_db w" using s(1) by (simp add: same_state_def)
      ultimately show ?thesis
        using m e unsigned fits False receive_refuses runs
        by (fastforce simp: github_webhook_def forgejo_webhook_def signed_delivery_def delivery_forge_def
            signature_header_def delivery_refusal_def split: sum.splits option.splits)
    qed
  qed
  then show ?thesis using s by (auto simp: same_state_def)
qed

text \<open>A delivery for the tracked repository, signed with another secret.\<close>

theorem webhook_authentic_witness:
  "let r = server demo_platform demo_deps (demo_request ''POST'' [''webhooks'', ''github'']
       [(''X-Hub-Signature-256'', ''sha256=00''), (''X-GitHub-Event'', ''workflow_run'')] ''{}'') tracked
   in w_db (snd r) = tracked_db \<and> (\<exists>l. fst r = Inr (mark_noindex invalid_signature, l))"
proof -
  let ?q = "demo_request ''POST'' [''webhooks'', ''github'']
    [(''X-Hub-Signature-256'', ''sha256=00''), (''X-GitHub-Event'', ''workflow_run'')] ''{}''"
  have "fst (route_of demo_deps ?q) = EGithubWebhook" by code_simp
  then obtain vs where route: "route_of demo_deps ?q = (EGithubWebhook, vs)" by (cases "route_of demo_deps ?q") simp
  have unsigned: "\<not> signed_delivery demo_platform EGithubWebhook ?q (w_db tracked)" by code_simp
  obtain r w' where run: "server demo_platform demo_deps ?q tracked = (r, w')" by fastforce
  have "delivery_refusal ?q = invalid_signature" by code_simp
  then show ?thesis
    using webhook_authentic [OF build_deps_parts(2) route _ unsigned run] run by (simp add: tracked_def)
qed

end
