(* ===== verification/McpFacts.thy ===== *)
theory McpFacts
  imports ServerOps
begin

text \<open>
  The MCP tools and the API: the schema of \<open>update_settings\<close> against the check of the service,
  and every tool that writes against its endpoint.
\<close>

subsection \<open>The schema of the settings\<close>

lemma settings_schema_lookup:
  "map_of settings_schema key = (if key \<in> set setting_keys then Some (property_schema key) else None)"
proof -
  have "map_of (map (\<lambda>k. (k, f k)) ks) key = (if key \<in> set ks then Some (f key) else None)" for ks and f :: "string \<Rightarrow> property_schema"
    by (induction ks) auto
  then show ?thesis by (simp add: settings_schema_def)
qed

lemma open_values: "k \<in> set setting_keys \<Longrightarrow> allowed_values k = [] \<longleftrightarrow> k = ''pipelinesRepoSelector''"
  by (auto simp: setting_keys_def allowed_values_def enum_values_def)

lemma entry_accepted:
  "(case map_of settings_schema k of None \<Rightarrow> False | Some ps \<Rightarrow> property_accepts ps v) \<longleftrightarrow>
     setting_ok (k, v) \<or> (k = ''pipelinesRepoSelector'' \<and> (\<exists>x. v = Some x \<and> rune_count x \<le> 128 \<and> 128 < length x))"
proof (cases "k \<in> set setting_keys")
  case False
  moreover have "''pipelinesRepoSelector'' \<in> set setting_keys" by (simp add: setting_keys_def)
  ultimately show ?thesis by (auto simp: settings_schema_lookup setting_ok_def)
next
  case True
  show ?thesis
  proof (cases "k = ''pipelinesRepoSelector''")
    case True
    with \<open>k \<in> set setting_keys\<close> open_values [of k] show ?thesis
      using rune_count_le
      by (cases v) (auto simp: settings_schema_lookup property_schema_def property_accepts_def setting_ok_def
          max_repo_selector_length_def intro: order_trans)
  next
    case False
    with True open_values [of k] show ?thesis
      by (cases v) (auto simp: settings_schema_lookup property_schema_def property_accepts_def setting_ok_def)
  qed
qed

definition long_selector :: string where
  "long_selector = concat (replicate 65 [CHR 0xC3, CHR 0xA9])"

text \<open>
  The schema of \<open>update_settings\<close> and the service's own check agree on every update, but for
  one thing: the schema counts the characters of a repository selector and the service its
  bytes, so exactly the selectors of at most 128 characters and more than 128 bytes pass the
  one and fail the other; sixty-five letters with an accent are one.
\<close>

lemma settings_schema_agrees:
  "(check_settings ups = Inr () \<longleftrightarrow> list_all setting_ok ups) \<and>
   (schema_accepts settings_schema ups \<longleftrightarrow>
      list_all (\<lambda>e. setting_ok e \<or>
        (fst e = ''pipelinesRepoSelector'' \<and> (\<exists>x. snd e = Some x \<and> rune_count x \<le> 128 \<and> 128 < length x))) ups) \<and>
   schema_accepts settings_schema [(''pipelinesRepoSelector'', Some long_selector)] \<and>
   check_settings [(''pipelinesRepoSelector'', Some long_selector)] \<noteq> Inr ()"
proof -
  have "rune_count long_selector = 65" "length long_selector = 130" by code_simp+
  moreover have "schema_accepts settings_schema ups \<longleftrightarrow>
      list_all (\<lambda>e. setting_ok e \<or>
        (fst e = ''pipelinesRepoSelector'' \<and> (\<exists>x. snd e = Some x \<and> rune_count x \<le> 128 \<and> 128 < length x))) ups" for ups
    by (auto simp: schema_accepts_def entry_accepted list_all_iff split: prod.splits)
  moreover have "check_settings ups = Inr () \<longleftrightarrow> list_all setting_ok ups" for ups
    by (simp add: check_settings_Inr check_setting_ok)
  moreover have "''pipelinesRepoSelector'' \<in> set setting_keys" by (simp add: setting_keys_def)
  ultimately show ?thesis using open_values [of "''pipelinesRepoSelector''"] by (simp add: setting_ok_def del: check_settings.simps)
qed

subsection \<open>Tools that write\<close>

text \<open>The endpoint and the path of the endpoint that does what a tool does, and the body that says so.\<close>

fun endpoint_of :: "tool_call \<Rightarrow> (endpoint \<times> (string \<times> string) list) option" where
  "endpoint_of (UpdateSettings _) = Some (EPatchSettings, [])"
| "endpoint_of (RerunRun i) = Some (ERerun, [(''runId'', i)])"
| "endpoint_of (CancelRun i) = Some (ECancel, [(''runId'', i)])"
| "endpoint_of (QuarantineStep p s _) = Some (EQuarantine, [(''pipelineId'', p), (''step'', s)])"
| "endpoint_of (UnquarantineStep p s) = Some (EUnquarantine, [(''pipelineId'', p), (''step'', s)])"
| "endpoint_of (RegisterRepo _) = Some (ERegisterRepo, [])"
| "endpoint_of (DiscoverRepos _) = Some (EDiscover, [])"
| "endpoint_of (UntrackRepo i) = Some (EUntrack, [(''repoId'', i)])"
| "endpoint_of (GetRepo i) = Some (EGetRepo, [(''repoId'', i)])"
| "endpoint_of _ = None"

fun body_says :: "platform \<Rightarrow> request \<Rightarrow> tool_call \<Rightarrow> bool" where
  "body_says pt q (UpdateSettings ups) = (read_json (pt_patch pt) q = Inr ups)"
| "body_says pt q (QuarantineStep p s note) = (p \<noteq> [] \<and> s \<noteq> [] \<and> read_optional_json [] (pt_note pt) q = Inr note)"
| "body_says pt q (UnquarantineStep p s) = (p \<noteq> [] \<and> s \<noteq> [])"
| "body_says pt q (RegisterRepo n) = (read_json (pt_repo pt) q = Inr n)"
| "body_says pt q (DiscoverRepos b) = (read_json (pt_discovery pt) q = Inr b)"
| "body_says pt q _ = True"

text \<open>Both fail, both refuse with the same code and message, or both do it.\<close>

definition said_alike :: "(string + json) res \<Rightarrow> reply res \<Rightarrow> bool" where
  "said_alike t r \<longleftrightarrow>
     (case (t, r) of
        (Inl e, Inl e') \<Rightarrow> e = e'
      | (Inr (Inl msg), Inr rep) \<Rightarrow> \<exists>status code message. rep = write_error status code message \<and> msg = tool_error code message
      | (Inr (Inr _), Inr rep) \<Rightarrow> ry_status rep \<in> {200, 201, 202, 204}
      | _ \<Rightarrow> False)"

definition alike :: "tool_result io \<Rightarrow> reply io \<Rightarrow> world \<Rightarrow> bool" where
  "alike t r w \<longleftrightarrow> said_alike (fst (t w)) (fst (r w)) \<and> snd (t w) = snd (r w)"

lemma alike_bind: "(\<And>x w. alike (f x) (g x) w) \<Longrightarrow> alike (bindE m f) (bindE m g) w"
  by (cases "m w"; cases "fst (m w)") (auto simp: alike_def bindE_def said_alike_def)

lemma alike_ret:
  "alike (retE (Inr b)) (retE rep) w \<longleftrightarrow> ry_status rep \<in> {200, 201, 202, 204}"
  "alike (retE (Inl (tool_error code message))) (retE (write_error status code message)) w"
  by (auto simp: alike_def retE_def said_alike_def)

lemma status_of_reply [simp]: "ry_status (write_json n j) = n" "ry_status (write_status n) = n"
  by (simp_all add: write_json_def write_status_def)

lemma alike_problem:
  "status \<in> {200, 201, 202, 204} \<Longrightarrow> alike (problem_answer got b) (retE (answer_problem status got b')) w"
  by (cases got) (auto simp: problem_answer_def answer_problem_def problem_error_def write_problem_def alike_ret)

lemma alike_problem_case:
  "ry_status rep \<in> {200, 201, 202, 204} \<Longrightarrow>
   alike (problem_answer got b) (retE (case got of Inl p \<Rightarrow> write_problem p | Inr y \<Rightarrow> rep)) w"
  by (cases got) (auto simp: problem_answer_def problem_error_def write_problem_def alike_ret)

lemma alike_quarantine:
  "alike (tool_answer got quarantine_tool_error b) (retE (answer got quarantine_error b')) w"
  by (cases got)
    (auto simp: tool_answer_def answer_def quarantine_tool_error_def quarantine_error_def alike_ret split: prod.split)

lemma alike_session:
  assumes "\<And>i. alike m (f i) w"
  shows "alike (require_tool_session info what m) (require_via_session what info f) w"
  using assms
  by (cases info) (auto simp: require_tool_session_def require_via_session_def via_session_def
      session_required_def alike_ret)

lemma run_action_alike:
  assumes "dp_run_actions dp = Some acts"
  shows "alike (tool_run_action (mcp_of pt dp) info action i)
    (run_action_handler (if action = ActionRerun then fst acts else snd acts) info i) w"
proof -
  obtain a b where acts: "acts = (a, b)" by fastforce
  have "alike (tool_answer got (\<lambda>e. problem_error (classify_run_action_error e)) (\<lambda>_. j))
      (retE (case got of Inl e \<Rightarrow> write_problem (classify_run_action_error e) | Inr u \<Rightarrow> write_status 202)) w"
    for got :: "unit res" and j w
    by (cases got) (auto simp: tool_answer_def problem_error_def write_problem_def alike_ret)
  then show ?thesis
    unfolding tool_run_action_def run_action_handler_def mcp_of_def
    by (simp add: assms acts) (intro alike_session alike_bind conjI impI)
qed

lemma settings_alike:
  assumes "read_json (pt_patch pt) q = Inr ups"
  shows "alike (tool_update_settings (mcp_of pt dp) (Some i) ups)
    (settings_patch_handler (dp_settings dp) (pt_patch_order pt) (pt_patch pt) (Some i) q) w"
proof -
  have "alike (tool_answer got (\<lambda>e. case classify_settings_error e of (code, message) \<Rightarrow> tool_error code message) settings_json)
      (retE (case got of
         Inl e \<Rightarrow> (case classify_settings_error e of (code, message) \<Rightarrow>
                     write_error (if code = ''invalid_body'' then 400 else 500) code message)
       | Inr s \<Rightarrow> write_json 200 (settings_json s))) w" for got w
    by (cases got) (auto simp: tool_answer_def alike_ret split: prod.split)
  then show ?thesis
    unfolding tool_update_settings_def settings_patch_handler_def mcp_of_def
    by (simp add: require_auth_def with_body_def assms) (intro alike_bind)
qed

lemma quarantine_alike:
  assumes "p \<noteq> []" and "s \<noteq> []"
  shows "read_optional_json [] (pt_note pt) q = Inr note' \<Longrightarrow>
      alike (tool_quarantine (mcp_of pt dp) info p s note') (quarantine_handler (dp_metrics dp) (pt_note pt) info p s q) w"
    and "alike (tool_unquarantine (mcp_of pt dp) info p s) (unquarantine_handler (dp_metrics dp) info p s) w"
  using assms
  unfolding tool_quarantine_def quarantine_handler_def tool_unquarantine_def unquarantine_handler_def mcp_of_def
    check_step_input_def with_body_def
  by (simp_all, (intro alike_session alike_bind alike_quarantine)+)

lemma repo_alike:
  "read_json (pt_repo pt) q = Inr n \<Longrightarrow>
     alike (tool_register (mcp_of pt dp) n) (register_handler (dp_registrar dp) (dp_tokens dp) (pt_repo pt) q) w"
  "read_json (pt_discovery pt) q = Inr b \<Longrightarrow>
     alike (tool_discover (mcp_of pt dp) b) (discover_handler (dp_registrar dp) (dp_tokens dp) (pt_discovery pt) q) w"
  "alike (tool_untrack (mcp_of pt dp) i) (untrack_handler (dp_repos dp) i) w"
  "alike (tool_get_repo (mcp_of pt dp) i) (get_repo_handler (dp_repos dp) i) w"
  unfolding tool_register_def register_handler_def tool_discover_def discover_handler_def tool_untrack_def
    untrack_handler_def tool_get_repo_def get_repo_handler_def mcp_of_def with_body_def
  by (simp_all, (intro alike_bind alike_problem alike_problem_case; simp)+)

lemma run_tools_alike:
  "dp_run_actions dp \<noteq> None \<Longrightarrow> alike (call_tool (mcp_of pt dp) (Some i) (RerunRun x))
     (endpoint_handler pt dp ERerun (value_of [(''runId'', x)]) (Some i) q) w"
  "dp_run_actions dp \<noteq> None \<Longrightarrow> alike (call_tool (mcp_of pt dp) (Some i) (CancelRun x))
     (endpoint_handler pt dp ECancel (value_of [(''runId'', x)]) (Some i) q) w"
  using run_action_alike [of dp _ pt "Some i" ActionRerun x w] run_action_alike [of dp _ pt "Some i" ActionCancel x w]
  by (auto simp: with_actions_def value_of_def)



end
