(* ===== verification/McpReads.thy ===== *)
theory McpReads
  imports McpFacts
begin

text \<open>
  The MCP tools that read against their endpoints: asked for the same thing, a tool returns what
  the endpoint answers with, as an object where the endpoint answers with an array.
\<close>

subsection \<open>What a call asks of an endpoint\<close>

fun read_endpoint :: "tool_call \<Rightarrow> (endpoint \<times> (string \<times> string) list) option" where
  "read_endpoint (ListPipelines _) = Some (EListPipelines, [])"
| "read_endpoint (GetPipeline p _) = Some (EGetPipeline, [(''pipelineId'', p)])"
| "read_endpoint (ListPipelineSteps p _) = Some (EPipelineSteps, [(''pipelineId'', p)])"
| "read_endpoint (ListPipelineFlakyRuns p _ _) = Some (EFlakyRuns, [(''pipelineId'', p)])"
| "read_endpoint (GetRepoUsage r _) = Some (EUsage, [(''repoId'', r)])"
| "read_endpoint (ListUnhealthySteps _ _ _) = Some (EUnhealthySteps, [])"
| "read_endpoint (GetFailureInsights _) = Some (EFailureInsights, [])"
| "read_endpoint (ListRuns _) = Some (EListRuns, [])"
| "read_endpoint (GetRunSteps r) = Some (ERunSteps, [(''runId'', r)])"
| "read_endpoint (ListBranches _) = Some (EBranches, [])"
| "read_endpoint (ListFlakySteps _ _ _) = Some (EFlakySteps, [])"
| "read_endpoint (GetJobLog r j _) = Some (EJobLog, [(''runId'', r), (''jobId'', j)])"
| "read_endpoint GetVersion = Some (EVersion, [])"
| "read_endpoint (ListRepos _ _ _) = Some (EListRepos, [])"
| "read_endpoint (GetRepo r) = Some (EGetRepo, [(''repoId'', r)])"
| "read_endpoint (ListRepoIdentifiers _ _) = Some (EIdentifiers, [])"
| "read_endpoint GetGitHubRateLimit = Some (ERateLimit, [])"
| "read_endpoint GetSettings = Some (ESettings, [])"
| "read_endpoint _ = None"

definition asks_for :: "request \<Rightarrow> (string \<times> string) list \<Rightarrow> bool" where
  "asks_for q kvs \<longleftrightarrow> list_all (\<lambda>(key, v). query q key = v) kvs"

definition asks_page :: "request \<Rightarrow> int \<Rightarrow> int \<Rightarrow> bool" where
  "asks_page q limit offset \<longleftrightarrow> limit_of q = limit \<and> offset_of q = offset"

text \<open>
  The query that asks what the call asks. The endpoints refuse a branch name of more than 255
  bytes, the tools do not; an absent number of lines is \<open>0\<close> in a call.
\<close>

fun query_says :: "request \<Rightarrow> tool_call \<Rightarrow> bool" where
  "query_says q (ListPipelines i) \<longleftrightarrow>
     asks_for q [(''repoId'', lp_repo_id i), (''forge'', lp_forge i), (''health'', lp_health i),
       (''sort'', lp_sort i), (''window'', lp_window i)] \<and> asks_page q (lp_limit i) (lp_offset i)"
| "query_says q (GetPipeline _ window) \<longleftrightarrow> asks_for q [(''window'', window)]"
| "query_says q (ListPipelineSteps _ window) \<longleftrightarrow> asks_for q [(''window'', window)]"
| "query_says q (ListPipelineFlakyRuns _ s window) \<longleftrightarrow> asks_for q [(''step'', s), (''window'', window)]"
| "query_says q (GetRepoUsage _ window) \<longleftrightarrow> asks_for q [(''window'', window)]"
| "query_says q (ListUnhealthySteps window limit offset) \<longleftrightarrow> asks_for q [(''window'', window)] \<and> asks_page q limit offset"
| "query_says q (GetFailureInsights i) \<longleftrightarrow>
     asks_for q [(''repoId'', ii_repo_id i), (''forge'', ii_forge i), (''branch'', ii_branch i), (''window'', ii_window i)] \<and>
     length (ii_branch i) \<le> max_branch_length"
| "query_says q (ListRuns i) \<longleftrightarrow>
     asks_for q [(''repoId'', ri_repo_id i), (''forge'', ri_forge i), (''branch'', ri_branch i), (''status'', ri_status i)] \<and>
     asks_page q (ri_limit i) (ri_offset i) \<and> length (ri_branch i) \<le> max_branch_length"
| "query_says q (ListBranches i) \<longleftrightarrow>
     asks_for q [(''repoId'', ii_repo_id i), (''forge'', ii_forge i), (''window'', ii_window i)]"
| "query_says q (ListFlakySteps i limit offset) \<longleftrightarrow>
     asks_for q [(''repoId'', ii_repo_id i), (''forge'', ii_forge i), (''branch'', ii_branch i), (''window'', ii_window i)] \<and>
     asks_page q limit offset \<and> length (ii_branch i) \<le> max_branch_length"
| "query_says q (GetJobLog _ _ lines) \<longleftrightarrow> log_lines_param (query q ''lines'') = Some lines"
| "query_says q (ListRepos forge limit offset) \<longleftrightarrow> asks_for q [(''forge'', forge)] \<and> asks_page q limit offset"
| "query_says q (ListRepoIdentifiers forge inst) \<longleftrightarrow> asks_for q [(''forge'', forge), (''forgejoInstanceUrl'', inst)]"
| "query_says q _ \<longleftrightarrow> True"

text \<open>An MCP result is an object, so an array has a name there.\<close>

fun wrapped :: "tool_call \<Rightarrow> json \<Rightarrow> json" where
  "wrapped (ListPipelineSteps _ _) = (\<lambda>j. JObj [(''steps'', j)])"
| "wrapped (ListPipelineFlakyRuns _ _ _) = (\<lambda>j. JObj [(''runs'', j)])"
| "wrapped (GetRepoUsage _ _) = (\<lambda>j. JObj [(''usage'', j)])"
| "wrapped GetGitHubRateLimit = (\<lambda>j. JObj [(''tokens'', j)])"
| "wrapped _ = (\<lambda>j. j)"

text \<open>Both end in the same abort, both answer with the same document, or both with an error.\<close>

definition same_answer :: "(json \<Rightarrow> json) \<Rightarrow> (string + json) res \<Rightarrow> reply res \<Rightarrow> bool" where
  "same_answer wrap t r \<longleftrightarrow>
     (case (t, r) of
        (Inl e, Inl e') \<Rightarrow> e = e'
      | (Inr (Inl _), Inr rep) \<Rightarrow> 400 \<le> ry_status rep
      | (Inr (Inr j), Inr rep) \<Rightarrow> \<exists>body. rep = write_json 200 body \<and> j = wrap body
      | _ \<Rightarrow> False)"

definition answers_alike :: "(json \<Rightarrow> json) \<Rightarrow> tool_result io \<Rightarrow> reply io \<Rightarrow> world \<Rightarrow> bool" where
  "answers_alike wrap t r w \<longleftrightarrow> same_answer wrap (fst (t w)) (fst (r w)) \<and> snd (t w) = snd (r w)"

lemma answers_bind:
  "(\<And>x w'. m w = (Inr x, w') \<Longrightarrow> answers_alike wrap (f x) (g x) w') \<Longrightarrow> answers_alike wrap (bindE m f) (bindE m g) w"
  by (cases "m w"; cases "fst (m w)") (auto simp: answers_alike_def bindE_def same_answer_def)

lemma answers_ret:
  "answers_alike wrap (retE (Inl msg)) (retE rep) w \<longleftrightarrow> 400 \<le> ry_status rep"
  "answers_alike wrap (retE (Inr j)) (retE rep) w \<longleftrightarrow> (\<exists>body. rep = write_json 200 body \<and> j = wrap body)"
  by (simp_all add: answers_alike_def retE_def same_answer_def)

lemma answers_result:
  assumes "\<And>e. got = Inl e \<Longrightarrow> 400 \<le> ry_status (err' e)" and "\<And>x. body x = wrap (body' x)"
  shows "answers_alike wrap (tool_answer got err body) (retE (answer got err' body')) w"
  using assms by (cases got) (auto simp: tool_answer_def answer_def answers_ret)

lemma status_of_error [simp]: "ry_status (write_error n c m) = n" "ry_status (internal m) = 500"
    "ry_status pipeline_not_found = 404" "ry_status (write_problem (problem n c m)) = n"
  by (simp_all add: write_error_def internal_def pipeline_not_found_def write_problem_def problem_def)

lemma tracked_problem: "tracked_repo st i w = (Inr (Inl p), w') \<Longrightarrow> 400 \<le> pb_status p"
proof -
  assume "tracked_repo st i w = (Inr (Inl p), w')"
  then obtain got where "(case got of
        Inl e \<Rightarrow> if is_err e ErrRepoNotFound then Inl (problem 404 ''not_found'' ''repo not found'')
                 else Inl (problem 500 ''internal_error'' ''get repo'')
      | Inr r \<Rightarrow> Inr r) = (Inl p :: api_problem + repo)"
    by (auto simp: tracked_repo_def bindE_eq_Inr retE_def)
  then show ?thesis by (cases got) (auto simp: problem_def split: if_splits)
qed

lemma branch_passes: "length (query q ''branch'') \<le> max_branch_length \<Longrightarrow> branch_filter q = Inr (query q ''branch'')"
  by (simp add: branch_filter_def)

subsection \<open>Tool by tool\<close>

lemmas query_defs = asks_for_def asks_page_def mcp_of_def with_body_def

lemma pipeline_tools_alike:
  "query_says q (ListPipelines i) \<Longrightarrow>
     answers_alike (\<lambda>j. j) (tool_list_pipelines (mcp_of pt dp) i) (list_pipelines_handler (dp_metrics dp) q) w"
  "query_says q (GetPipeline p win) \<Longrightarrow>
     answers_alike (\<lambda>j. j) (tool_get_pipeline (mcp_of pt dp) p win) (get_pipeline_handler (dp_metrics dp) p q) w"
  "query_says q (ListPipelineSteps p win) \<Longrightarrow>
     answers_alike (\<lambda>j. JObj [(''steps'', j)]) (tool_pipeline_steps (mcp_of pt dp) p win) (pipeline_steps_handler (dp_metrics dp) p q) w"
  "query_says q (ListPipelineFlakyRuns p s win) \<Longrightarrow>
     answers_alike (\<lambda>j. JObj [(''runs'', j)]) (tool_flaky_runs (mcp_of pt dp) p s win) (flaky_runs_handler (dp_metrics dp) p q) w"
  "query_says q (ListUnhealthySteps win limit offset) \<Longrightarrow>
     answers_alike (\<lambda>j. j) (tool_unhealthy_steps (mcp_of pt dp) win limit offset) (unhealthy_steps_handler (dp_metrics dp) q) w"
  "answers_alike (\<lambda>j. j) (tool_run_steps (mcp_of pt dp) r) (run_steps_handler (dp_metrics dp) r) w"
  unfolding tool_list_pipelines_def list_pipelines_handler_def tool_get_pipeline_def get_pipeline_handler_def
    tool_pipeline_steps_def pipeline_steps_handler_def tool_flaky_runs_def flaky_runs_handler_def
    tool_unhealthy_steps_def unhealthy_steps_handler_def tool_run_steps_def run_steps_handler_def
  by (auto simp: query_defs answers_ret intro!: answers_bind answers_result split: sum.split)

lemma insight_tools_alike:
  "query_says q (GetFailureInsights i) \<Longrightarrow>
     answers_alike (\<lambda>j. j) (tool_failure_insights (mcp_of pt dp) i)
       (failure_insights_handler (dp_metrics dp) (pt_orders pt) (pt_words pt) q) w"
  "query_says q (ListRuns j) \<Longrightarrow>
     answers_alike (\<lambda>j. j) (tool_list_runs (mcp_of pt dp) j) (list_runs_handler (dp_metrics dp) q) w"
  "query_says q (ListBranches i) \<Longrightarrow>
     answers_alike (\<lambda>j. j) (tool_list_branches (mcp_of pt dp) i) (list_branches_handler (dp_metrics dp) q) w"
  "query_says q (ListFlakySteps i limit offset) \<Longrightarrow>
     answers_alike (\<lambda>j. j) (tool_flaky_steps (mcp_of pt dp) i limit offset)
       (flaky_steps_handler (dp_metrics dp) (pt_orders pt) q) w"
  unfolding tool_failure_insights_def failure_insights_handler_def tool_list_runs_def list_runs_handler_def
    tool_list_branches_def list_branches_handler_def tool_flaky_steps_def flaky_steps_handler_def
  by (auto simp: query_defs answers_ret branch_passes Let_def intro!: answers_bind answers_result split: sum.split)

lemma repo_tools_alike:
  "query_says q (GetRepoUsage r win) \<Longrightarrow>
     answers_alike (\<lambda>j. JObj [(''usage'', j)]) (tool_repo_usage (mcp_of pt dp) r win)
       (usage_handler (dp_repos dp) (dp_metrics dp) r q) w"
  "query_says q (ListRepos forge limit offset) \<Longrightarrow>
     answers_alike (\<lambda>j. j) (tool_list_repos (mcp_of pt dp) forge limit offset) (list_repos_handler (dp_repos dp) q) w"
  "answers_alike (\<lambda>j. j) (tool_get_repo (mcp_of pt dp) r) (get_repo_handler (dp_repos dp) r) w"
  "query_says q (ListRepoIdentifiers forge inst) \<Longrightarrow>
     answers_alike (\<lambda>j. j) (tool_repo_identifiers (mcp_of pt dp) forge inst) (identifiers_handler (dp_repos dp) q) w"
  "answers_alike (\<lambda>j. JObj [(''tokens'', j)]) (tool_rate_limit (mcp_of pt dp)) (rate_limit_handler (dp_repos dp) (dp_limits dp)) w"
  unfolding tool_repo_usage_def usage_handler_def tool_list_repos_def list_repos_handler_def tool_get_repo_def
    get_repo_handler_def tool_repo_identifiers_def identifiers_handler_def tool_rate_limit_def rate_limit_handler_def
    problem_answer_def answer_problem_def
  by (auto simp: query_defs answers_ret write_problem_def Let_def dest: tracked_problem
      intro!: answers_bind answers_result split: sum.split)

lemma log_lines_range: "log_lines_param raw = Some n \<Longrightarrow> n = 0 \<or> (1 \<le> n \<and> n \<le> max_log_lines)"
  by (auto simp: log_lines_param_def split: if_splits option.splits)

lemma settings_answers:
  "answers_alike (\<lambda>j. j) (tool_answer got (failed what) body)
     (retE (case got of Inl e \<Rightarrow> write_error 500 code message | Inr s \<Rightarrow> write_json 200 (body s))) w"
  by (cases got) (auto simp: tool_answer_def answers_ret)

lemma other_tools_alike:
  "query_says q (GetJobLog r j n) \<Longrightarrow> dp_job_logs dp = Some tail \<Longrightarrow>
     answers_alike (\<lambda>j. j) (tool_job_log (mcp_of pt dp) r j n) (job_log_handler tail r j q) w"
  "answers_alike (\<lambda>j. j) (tool_version (mcp_of pt dp)) (version_handler (dp_version dp)) w"
  "answers_alike (\<lambda>j. j) (tool_get_settings (mcp_of pt dp) (Some i)) (settings_get_handler (dp_settings dp) (Some i)) w"
  unfolding tool_job_log_def job_log_handler_def tool_version_def version_handler_def tool_get_settings_def
    settings_get_handler_def
  using log_lines_range [of "query q ''lines''" n]
  by (auto simp: query_defs answers_ret require_auth_def settings_answers intro!: answers_bind answers_result)

lemma log_tool_alike:
  "query_says q (GetJobLog r j n) \<Longrightarrow> dp_job_logs dp \<noteq> None \<Longrightarrow>
     answers_alike (\<lambda>j. j) (tool_job_log (mcp_of pt dp) r j n) (with_job_logs dp (\<lambda>tail. job_log_handler tail r j q)) w"
  using other_tools_alike(1) by (auto simp: with_job_logs_def simp del: query_says.simps)



end
