(* ===== verification/McpTools.thy ===== *)
theory McpTools
  imports McpReads
begin

text \<open>
  The tools as they are announced: the registrations of \<open>newMCPHandler\<close> and its \<open>add*Tools\<close>, each
  with its name, the endpoint its description says it matches and the fields of its input. The
  SDK derives a tool's schema from the input's Go type; a field without \<open>omitempty\<close> is required.
\<close>

subsection \<open>Inputs\<close>

datatype field_type = StringField | IntField | StringOrNull

text \<open>A field is its name, its type and whether it is required.\<close>

type_synonym field = "string \<times> field_type \<times> bool"

definition must :: "string \<Rightarrow> field" where "must name = (name, StringField, True)"
definition may :: "string \<Rightarrow> field" where "may name = (name, StringField, False)"
definition number :: "string \<Rightarrow> field" where "number name = (name, IntField, False)"

definition list_pipelines_fields :: "field list" where
  "list_pipelines_fields = [may ''repoId'', may ''forge'', may ''health'', may ''sort'', may ''window'',
     number ''limit'', number ''offset'']"

definition pipeline_window_fields :: "field list" where
  "pipeline_window_fields = [must ''pipelineId'', may ''window'']"

definition flaky_runs_fields :: "field list" where
  "flaky_runs_fields = [must ''pipelineId'', must ''step'', may ''window'']"

definition repo_usage_fields :: "field list" where
  "repo_usage_fields = [must ''repoId'', may ''window'']"

definition unhealthy_steps_fields :: "field list" where
  "unhealthy_steps_fields = [may ''window'', number ''limit'', number ''offset'']"

definition failure_insights_fields :: "field list" where
  "failure_insights_fields = [may ''repoId'', may ''forge'', may ''branch'', may ''window'']"

definition list_runs_fields :: "field list" where
  "list_runs_fields = [may ''repoId'', may ''forge'', may ''branch'', may ''status'', number ''limit'', number ''offset'']"

definition run_steps_fields :: "field list" where
  "run_steps_fields = [must ''runId'']"

definition job_log_fields :: "field list" where
  "job_log_fields = [must ''runId'', must ''jobId'', number ''lines'']"

definition list_branches_fields :: "field list" where
  "list_branches_fields = [may ''repoId'', may ''forge'', may ''window'']"

definition flaky_steps_fields :: "field list" where
  "flaky_steps_fields = [may ''repoId'', may ''forge'', may ''branch'', may ''window'', number ''limit'', number ''offset'']"

definition no_fields :: "field list" where
  "no_fields = []"

definition list_repos_fields :: "field list" where
  "list_repos_fields = [may ''forge'', number ''limit'', number ''offset'']"

definition get_repo_fields :: "field list" where
  "get_repo_fields = [must ''repoId'']"

definition repo_identifiers_fields :: "field list" where
  "repo_identifiers_fields = [must ''forge'', may ''forgejoInstanceUrl'']"

definition run_action_fields :: "field list" where
  "run_action_fields = [must ''runId'']"

definition step_fields :: "field list" where
  "step_fields = [must ''pipelineId'', must ''step'']"

definition quarantine_step_fields :: "field list" where
  "quarantine_step_fields = step_fields @ [may ''note'']"

definition register_repo_fields :: "field list" where
  "register_repo_fields = [must ''forge'', must ''identifier'', may ''forgejoInstanceUrl'', may ''token'']"

definition discover_repos_fields :: "field list" where
  "discover_repos_fields = [must ''forge'', may ''forgejoInstanceUrl'', may ''token'']"

definition untrack_repo_fields :: "field list" where
  "untrack_repo_fields = [must ''repoId'']"

text \<open>\<open>update_settings\<close> is announced with a schema of its own (\<open>settingsUpdateSchema\<close>).\<close>

definition settings_fields_of_schema :: "field list" where
  "settings_fields_of_schema = map (\<lambda>(key, _). (key, StringOrNull, False)) settings_schema"

subsection \<open>Registrations\<close>

record mcp_tool =
  tl_name :: string
  tl_method :: string
  tl_path :: "pat list"
  tl_fields :: "field list"

definition tool :: "string \<Rightarrow> string \<Rightarrow> pat list \<Rightarrow> field list \<Rightarrow> mcp_tool" where
  "tool name method path fs = \<lparr> tl_name = name, tl_method = method, tl_path = Lit ''api'' # path, tl_fields = fs \<rparr>"

definition pipeline_tools :: "mcp_tool list" where
  "pipeline_tools =
     [tool ''list_pipelines'' ''GET'' [Lit ''pipelines''] list_pipelines_fields,
      tool ''get_pipeline'' ''GET'' [Lit ''pipelines'', Wild ''pipelineId''] pipeline_window_fields,
      tool ''list_pipeline_steps'' ''GET'' [Lit ''pipelines'', Wild ''pipelineId'', Lit ''steps''] pipeline_window_fields,
      tool ''list_pipeline_flaky_runs'' ''GET'' [Lit ''pipelines'', Wild ''pipelineId'', Lit ''flaky-runs''] flaky_runs_fields,
      tool ''get_repo_usage'' ''GET'' [Lit ''repos'', Wild ''repoId'', Lit ''usage''] repo_usage_fields,
      tool ''list_unhealthy_steps'' ''GET'' [Lit ''steps'', Lit ''unhealthy''] unhealthy_steps_fields,
      tool ''get_failure_insights'' ''GET'' [Lit ''insights'', Lit ''failures''] failure_insights_fields]"

definition run_tools :: "mcp_tool list" where
  "run_tools =
     [tool ''list_runs'' ''GET'' [Lit ''runs''] list_runs_fields,
      tool ''get_run_steps'' ''GET'' [Lit ''runs'', Wild ''runId'', Lit ''steps''] run_steps_fields,
      tool ''list_branches'' ''GET'' [Lit ''branches''] list_branches_fields,
      tool ''list_flaky_steps'' ''GET'' [Lit ''steps'', Lit ''flaky''] flaky_steps_fields,
      tool ''get_job_log'' ''GET'' [Lit ''runs'', Wild ''runId'', Lit ''jobs'', Wild ''jobId'', Lit ''log''] job_log_fields]"

definition repo_tools :: "mcp_tool list" where
  "repo_tools =
     [tool ''get_version'' ''GET'' [Lit ''version''] no_fields,
      tool ''list_repos'' ''GET'' [Lit ''repos''] list_repos_fields,
      tool ''get_repo'' ''GET'' [Lit ''repos'', Wild ''repoId''] get_repo_fields,
      tool ''list_repo_identifiers'' ''GET'' [Lit ''repos'', Lit ''identifiers''] repo_identifiers_fields,
      tool ''get_github_rate_limit'' ''GET'' [Lit ''insights'', Lit ''github-rate-limit''] no_fields,
      tool ''get_settings'' ''GET'' [Lit ''settings''] no_fields]"

definition settings_update_tools :: "mcp_tool list" where
  "settings_update_tools = [tool ''update_settings'' ''PATCH'' [Lit ''settings''] settings_fields_of_schema]"

definition run_action_tools :: "mcp_tool list" where
  "run_action_tools =
     [tool ''rerun_run'' ''POST'' [Lit ''runs'', Wild ''runId'', Lit ''rerun''] run_action_fields,
      tool ''cancel_run'' ''POST'' [Lit ''runs'', Wild ''runId'', Lit ''cancel''] run_action_fields]"

definition quarantine_tools :: "mcp_tool list" where
  "quarantine_tools =
     [tool ''quarantine_step'' ''PUT''
        [Lit ''pipelines'', Wild ''pipelineId'', Lit ''steps'', Wild ''step'', Lit ''quarantine''] quarantine_step_fields,
      tool ''unquarantine_step'' ''DELETE''
        [Lit ''pipelines'', Wild ''pipelineId'', Lit ''steps'', Wild ''step'', Lit ''quarantine''] step_fields]"

definition repo_write_tools :: "mcp_tool list" where
  "repo_write_tools =
     [tool ''register_repo'' ''POST'' [Lit ''repos''] register_repo_fields,
      tool ''discover_repos'' ''POST'' [Lit ''repos'', Lit ''discover''] discover_repos_fields,
      tool ''untrack_repo'' ''DELETE'' [Lit ''repos'', Wild ''repoId''] untrack_repo_fields]"

definition mcp_tools :: "mcp_tool list" where
  "mcp_tools = pipeline_tools @ run_tools @ repo_tools @ settings_update_tools @ run_action_tools @
     quarantine_tools @ repo_write_tools"

lemmas tool_defs = mcp_tools_def pipeline_tools_def run_tools_def repo_tools_def settings_update_tools_def
  run_action_tools_def quarantine_tools_def repo_write_tools_def tool_def

lemmas field_defs = list_pipelines_fields_def pipeline_window_fields_def flaky_runs_fields_def repo_usage_fields_def
  unhealthy_steps_fields_def failure_insights_fields_def list_runs_fields_def run_steps_fields_def job_log_fields_def
  list_branches_fields_def flaky_steps_fields_def no_fields_def list_repos_fields_def get_repo_fields_def
  repo_identifiers_fields_def run_action_fields_def step_fields_def quarantine_step_fields_def register_repo_fields_def
  discover_repos_fields_def untrack_repo_fields_def must_def may_def number_def

text \<open>The tool whose handler a call is.\<close>

fun tool_name :: "tool_call \<Rightarrow> string" where
  "tool_name (ListPipelines _) = ''list_pipelines''"
| "tool_name (GetPipeline _ _) = ''get_pipeline''"
| "tool_name (ListPipelineSteps _ _) = ''list_pipeline_steps''"
| "tool_name (ListPipelineFlakyRuns _ _ _) = ''list_pipeline_flaky_runs''"
| "tool_name (GetRepoUsage _ _) = ''get_repo_usage''"
| "tool_name (ListUnhealthySteps _ _ _) = ''list_unhealthy_steps''"
| "tool_name (GetFailureInsights _) = ''get_failure_insights''"
| "tool_name (ListRuns _) = ''list_runs''"
| "tool_name (GetRunSteps _) = ''get_run_steps''"
| "tool_name (ListBranches _) = ''list_branches''"
| "tool_name (ListFlakySteps _ _ _) = ''list_flaky_steps''"
| "tool_name (GetJobLog _ _ _) = ''get_job_log''"
| "tool_name GetVersion = ''get_version''"
| "tool_name (ListRepos _ _ _) = ''list_repos''"
| "tool_name (GetRepo _) = ''get_repo''"
| "tool_name (ListRepoIdentifiers _ _) = ''list_repo_identifiers''"
| "tool_name GetGitHubRateLimit = ''get_github_rate_limit''"
| "tool_name GetSettings = ''get_settings''"
| "tool_name (UpdateSettings _) = ''update_settings''"
| "tool_name (RerunRun _) = ''rerun_run''"
| "tool_name (CancelRun _) = ''cancel_run''"
| "tool_name (QuarantineStep _ _ _) = ''quarantine_step''"
| "tool_name (UnquarantineStep _ _) = ''unquarantine_step''"
| "tool_name (RegisterRepo _) = ''register_repo''"
| "tool_name (DiscoverRepos _) = ''discover_repos''"
| "tool_name (UntrackRepo _) = ''untrack_repo''"

subsection \<open>The table\<close>

fun wildcards :: "pat list \<Rightarrow> string list" where
  "wildcards [] = []"
| "wildcards (Lit _ # ps) = wildcards ps"
| "wildcards (Wild x # ps) = x # wildcards ps"

definition endpoint_for :: "tool_call \<Rightarrow> (endpoint \<times> (string \<times> string) list) option" where
  "endpoint_for call = (case read_endpoint call of Some x \<Rightarrow> Some x | None \<Rightarrow> endpoint_of call)"

text \<open>A route that the tool announces, to an endpoint that does what the call does.\<close>

definition announced :: "('c, 's) deps \<Rightarrow> mcp_tool \<Rightarrow> tool_call \<Rightarrow> bool" where
  "announced dp t call \<longleftrightarrow>
     tl_name t = tool_name call \<and>
     (case endpoint_for call of
        None \<Rightarrow> False
      | Some (e, vs) \<Rightarrow>
          (Some (tl_method t), tl_path t, e) \<in> set (routes dp) \<and> map fst vs = wildcards (tl_path t) \<and>
          list_all (\<lambda>x. must x \<in> set (tl_fields t)) (wildcards (tl_path t)) \<and>
          (e \<in> session_only \<longleftrightarrow> session_only_call call))"

lemmas announce_defs = announced_def endpoint_for_def tool_def field_defs session_only_def routes_def get_def post_def Let_def

lemma pipeline_tools_announced:
  "announced dp (pipeline_tools ! 0) (ListPipelines i)"
  "announced dp (pipeline_tools ! 1) (GetPipeline p win)"
  "announced dp (pipeline_tools ! 2) (ListPipelineSteps p win)"
  "announced dp (pipeline_tools ! 3) (ListPipelineFlakyRuns p s win)"
  "announced dp (pipeline_tools ! 4) (GetRepoUsage r win)"
  "announced dp (pipeline_tools ! 5) (ListUnhealthySteps win limit offset)"
  "announced dp (pipeline_tools ! 6) (GetFailureInsights j)"
  by (simp_all add: announce_defs pipeline_tools_def repo_routes_def pipeline_routes_def telemetry_routes_def)

lemma run_tools_announced:
  "announced dp (run_tools ! 0) (ListRuns i)"
  "announced dp (run_tools ! 1) (GetRunSteps r)"
  "announced dp (run_tools ! 2) (ListBranches j)"
  "announced dp (run_tools ! 3) (ListFlakySteps j limit offset)"
  by (simp_all add: announce_defs run_tools_def telemetry_routes_def)

lemma repo_tools_announced:
  "announced dp (repo_tools ! 0) GetVersion"
  "announced dp (repo_tools ! 1) (ListRepos forge limit offset)"
  "announced dp (repo_tools ! 2) (GetRepo r)"
  "announced dp (repo_tools ! 3) (ListRepoIdentifiers forge inst)"
  "announced dp (repo_tools ! 4) GetGitHubRateLimit"
  "announced dp (repo_tools ! 5) GetSettings"
  by (simp_all add: announce_defs repo_tools_def repo_routes_def)

lemma quarantine_tools_announced:
  "announced dp (quarantine_tools ! 0) (QuarantineStep p s note)"
  "announced dp (quarantine_tools ! 1) (UnquarantineStep p s)"
  by (simp_all add: announce_defs quarantine_tools_def quarantine_routes_def)

lemma repo_write_tools_announced:
  "announced dp (repo_write_tools ! 0) (RegisterRepo n)"
  "announced dp (repo_write_tools ! 1) (DiscoverRepos b)"
  "announced dp (repo_write_tools ! 2) (UntrackRepo r)"
  by (simp_all add: announce_defs repo_write_tools_def repo_routes_def)

lemma settings_tool_announced: "announced dp (settings_update_tools ! 0) (UpdateSettings ups)"
  by (simp add: announce_defs settings_update_tools_def)

lemma service_tools_announced:
  "dp_job_logs dp \<noteq> None \<Longrightarrow> announced dp (run_tools ! 4) (GetJobLog r j lines)"
  "dp_run_actions dp \<noteq> None \<Longrightarrow> announced dp (run_action_tools ! 0) (RerunRun r)"
  "dp_run_actions dp \<noteq> None \<Longrightarrow> announced dp (run_action_tools ! 1) (CancelRun r)"
  by (auto simp: announce_defs run_tools_def run_action_tools_def job_log_routes_def run_action_routes_def)

lemmas tools_announced = pipeline_tools_announced run_tools_announced repo_tools_announced
  quarantine_tools_announced repo_write_tools_announced settings_tool_announced service_tools_announced

lemma tool_groups:
  "set mcp_tools = set pipeline_tools \<union> set run_tools \<union> set repo_tools \<union> set settings_update_tools \<union>
     set run_action_tools \<union> set quarantine_tools \<union> set repo_write_tools"
  by (auto simp: mcp_tools_def)

lemma tools_nth:
  "k < 7 \<Longrightarrow> pipeline_tools ! k \<in> set mcp_tools" "k < 5 \<Longrightarrow> run_tools ! k \<in> set mcp_tools"
  "k < 6 \<Longrightarrow> repo_tools ! k \<in> set mcp_tools" "k < 1 \<Longrightarrow> settings_update_tools ! k \<in> set mcp_tools"
  "k < 2 \<Longrightarrow> run_action_tools ! k \<in> set mcp_tools" "k < 2 \<Longrightarrow> quarantine_tools ! k \<in> set mcp_tools"
  "k < 3 \<Longrightarrow> repo_write_tools ! k \<in> set mcp_tools"
proof -
  have "length pipeline_tools = 7" "length run_tools = 5" "length repo_tools = 6" "length settings_update_tools = 1"
    "length run_action_tools = 2" "length quarantine_tools = 2" "length repo_write_tools = 3"
    by (simp_all add: pipeline_tools_def run_tools_def repo_tools_def settings_update_tools_def run_action_tools_def
        quarantine_tools_def repo_write_tools_def)
  note n = this
  show "k < 7 \<Longrightarrow> pipeline_tools ! k \<in> set mcp_tools" "k < 5 \<Longrightarrow> run_tools ! k \<in> set mcp_tools"
    "k < 6 \<Longrightarrow> repo_tools ! k \<in> set mcp_tools" "k < 1 \<Longrightarrow> settings_update_tools ! k \<in> set mcp_tools"
    "k < 2 \<Longrightarrow> run_action_tools ! k \<in> set mcp_tools" "k < 2 \<Longrightarrow> quarantine_tools ! k \<in> set mcp_tools"
    "k < 3 \<Longrightarrow> repo_write_tools ! k \<in> set mcp_tools"
    unfolding tool_groups using n by (auto intro: nth_mem simp del: nth_Cons_numeral)
qed

lemma names_distinct: "distinct (map tl_name mcp_tools)"
  by code_simp

lemma every_call_announced:
  assumes "dp_job_logs dp \<noteq> None" and "dp_run_actions dp \<noteq> None"
  shows "\<exists>t \<in> set mcp_tools. announced dp t call"
  by (cases call; hypsubst; (rule bexI, rule tools_announced, (rule assms)?, rule tools_nth, simp))

lemma tools_registered:
  assumes "dp_job_logs dp \<noteq> None" and "dp_run_actions dp \<noteq> None"
  shows "distinct (map tl_name mcp_tools) \<and> length mcp_tools = 26 \<and>
    (\<forall>call. \<exists>t \<in> set mcp_tools. announced dp t call) \<and>
    (\<forall>t \<in> set mcp_tools. \<exists>call. announced dp t call)"
proof (intro conjI ballI allI)
  show "distinct (map tl_name mcp_tools)" by (rule names_distinct)
  show "length mcp_tools = 26" by (simp add: tool_defs)
  show all: "\<exists>t \<in> set mcp_tools. announced dp t call" for call using assms by (rule every_call_announced)
  fix t assume t: "t \<in> set mcp_tools"
  let ?calls = "[ListPipelines undefined, GetPipeline [] [], ListPipelineSteps [] [], ListPipelineFlakyRuns [] [] [],
       GetRepoUsage [] [], ListUnhealthySteps [] 0 0, GetFailureInsights undefined, ListRuns undefined,
       GetRunSteps [], ListBranches undefined, ListFlakySteps undefined 0 0, GetJobLog [] [] 0, GetVersion,
       ListRepos [] 0 0, GetRepo [], ListRepoIdentifiers [] [], GetGitHubRateLimit, GetSettings, UpdateSettings [],
       RerunRun [], CancelRun [], QuarantineStep [] [] [], UnquarantineStep [] [], RegisterRepo undefined,
       DiscoverRepos undefined, UntrackRepo []]"
  have "map tool_name ?calls = map tl_name mcp_tools"
    unfolding list.map tool_name.simps by code_simp
  from arg_cong [OF this, of set, unfolded set_map] have "tl_name t \<in> tool_name ` set ?calls"
    using t by (simp only: imageI)
  then obtain call where call: "tool_name call = tl_name t" by (rule imageE) (rule that, rule sym)
  obtain t' where "t' \<in> set mcp_tools" "announced dp t' call" using all by blast
  moreover from this have "t' = t"
    using distinct_key_inj [OF names_distinct] t call by (simp add: announced_def)
  ultimately show "\<exists>call. announced dp t call" by blast
qed

text \<open>
  C8: the tools as they are announced. Each of the twenty-six is registered once and answers one
  kind of call, and every call is answered by a registered tool. The endpoint its description names is
  mounted, takes from its path exactly the fields the tool requires for it, and is the endpoint
  the call is compared with above; a tool is for sessions only exactly when its endpoint is. The
  schema of \<open>update_settings\<close> accepts the updates the service accepts, and besides only the repository
  selectors of at most 128 characters and more than 128 bytes, which the service refuses.
\<close>

theorem tool_table_spec:
  assumes "dp_job_logs dp \<noteq> None" and "dp_run_actions dp \<noteq> None"
  shows "(distinct (map tl_name mcp_tools) \<and> length mcp_tools = 26 \<and>
    (\<forall>call. \<exists>t \<in> set mcp_tools. announced dp t call) \<and>
    (\<forall>t \<in> set mcp_tools. \<exists>call. announced dp t call)) \<and>
    (schema_accepts settings_schema ups \<longleftrightarrow>
      list_all (\<lambda>e. check_settings [e] = Inr () \<or>
        (fst e = ''pipelinesRepoSelector'' \<and> (\<exists>x. snd e = Some x \<and> rune_count x \<le> 128 \<and> 128 < length x))) ups)"
proof (rule conjI)
  have "setting_ok e \<longleftrightarrow> check_settings [e] = Inr ()" for e
    using settings_schema_agrees [of "[e]"] by simp
  then show "schema_accepts settings_schema ups \<longleftrightarrow>
      list_all (\<lambda>e. check_settings [e] = Inr () \<or>
        (fst e = ''pipelinesRepoSelector'' \<and> (\<exists>x. snd e = Some x \<and> rune_count x \<le> 128 \<and> 128 < length x))) ups"
    using settings_schema_agrees [of ups] by simp
  show "distinct (map tl_name mcp_tools) \<and> length mcp_tools = 26 \<and>
    (\<forall>call. \<exists>t \<in> set mcp_tools. announced dp t call) \<and>
    (\<forall>t \<in> set mcp_tools. \<exists>call. announced dp t call)"
    using assms by (rule tools_registered)
qed

theorem tool_table_spec_witness:
  "(\<forall>call. \<exists>t \<in> set mcp_tools. announced demo_deps t call) \<and> dp_job_logs demo_deps \<noteq> None \<and> dp_run_actions demo_deps \<noteq> None"
  using tool_table_spec [of demo_deps] by simp

end
