(* ===== verification/StaticFacts.thy ===== *)
theory StaticFacts
  imports StaticFiles JobLog
begin

text \<open>
  The dashboard's files: no request reaches outside of the assets, a file is served as it is
  or in a copy the client accepts, and a path that is neither file nor route is answered 404.
\<close>

subsection \<open>Names\<close>

text \<open>The names a file system may be asked for (\<open>fs.ValidPath\<close>; the empty name stands for the root).\<close>

definition confined :: "string \<Rightarrow> bool" where
  "confined n \<longleftrightarrow> n = [] \<or> list_all (\<lambda>s. s \<noteq> [] \<and> \<not> dot_segment s) (split_on (CHR ''/'') n)"

definition confine :: "file_system \<Rightarrow> file_system" where
  "confine fs = \<lparr> fs_stat = \<lambda>n. if confined n then fs_stat fs n else None,
     fs_read = \<lambda>n. if confined n then fs_read fs n else None \<rparr>"

lemma split_on_parts: "p \<in> set (split_on c s) \<Longrightarrow> c \<notin> set p"
  by (induction s arbitrary: p) (auto split: list.splits if_splits)

lemma split_on_sep: "c \<notin> set a \<Longrightarrow> split_on c (a @ c # b) = a # split_on c b"
  by (subst split_on_cut) (simp add: cut_found)

lemma split_join:
  "xs \<noteq> [] \<Longrightarrow> list_all (\<lambda>x. c \<notin> set x) xs \<Longrightarrow> split_on c (join_with [c] xs) = xs"
  by (induction "[c]" xs rule: join_with.induct) (auto simp: split_on_none split_on_sep)

lemma split_on_suffix:
  "c \<notin> set e \<Longrightarrow> split_on c (n @ e) = butlast (split_on c n) @ [last (split_on c n) @ e]"
  by (induction n) (auto simp: split_on_none split: list.split)

lemma clean_segments_sub: "set (clean_segments st ss) \<subseteq> set st \<union> set ss"
proof (induction st ss rule: clean_segments.induct)
  case (2 st s ss)
  then show ?case by (cases st) auto
qed simp

lemma confined_clean: "confined (clean_name p)"
proof (cases "clean_segments [] (split_on (CHR ''/'') p) = []")
  case True
  then show ?thesis by (simp add: confined_def clean_name_def)
next
  case False
  let ?ss = "clean_segments [] (split_on (CHR ''/'') p)"
  have "list_all (\<lambda>x. CHR ''/'' \<notin> set x) ?ss"
    using clean_segments_sub [of "[]" "split_on (CHR ''/'') p"] split_on_parts by (fastforce simp: list_all_iff)
  with False have "split_on (CHR ''/'') (clean_name p) = ?ss" by (simp add: clean_name_def split_join)
  then show ?thesis using clean_segments_ok [of "[]"] by (simp add: confined_def)
qed

lemma confined_suffix:
  assumes "confined n" and "e \<in> snd ` set encodings" shows "confined (n @ e)"
proof -
  have e: "e = ''.br'' \<or> e = ''.gz''" using assms(2) by (auto simp: encodings_def)
  have ok: "\<not> dot_segment (s @ e) \<and> s @ e \<noteq> []" for s using e by (cases s) (auto simp: dot_segment_def)
  have sep: "CHR ''/'' \<notin> set e" using e by auto
  show ?thesis
  proof (cases "n = []")
    case True
    then show ?thesis using ok [of "[]"] sep by (simp add: confined_def split_on_none)
  next
    case False
    then have "list_all (\<lambda>s. s \<noteq> [] \<and> \<not> dot_segment s) (split_on (CHR ''/'') n)"
      using assms(1) by (simp add: confined_def)
    then have "list_all (\<lambda>s. s \<noteq> [] \<and> \<not> dot_segment s) (butlast (split_on (CHR ''/'') n))"
      by (auto simp: list_all_iff dest: in_set_butlastD)
    then show ?thesis using ok [of "last (split_on (CHR ''/'') n)"] sep by (simp add: confined_def split_on_suffix)
  qed
qed

subsection \<open>Files\<close>

lemma negotiate_cases:
  "negotiate fs name accept = (name, []) \<or>
   (\<exists>e \<in> set encodings. negotiate fs name accept = (name @ snd e, fst e) \<and> accepts_encoding accept (fst e))"
  by (cases "find (\<lambda>e. accepts_encoding accept (fst e) \<and> fs_stat fs (name @ snd e) \<noteq> None) encodings")
    (auto simp: negotiate_def dest: find_mem)

lemma negotiate_confine:
  assumes "confined name"
  shows "negotiate (confine fs) name accept = negotiate fs name accept" and "confined (fst (negotiate fs name accept))"
proof -
  have c: "confined (name @ snd e)" if "e \<in> set encodings" for e using assms that by (simp add: confined_suffix)
  then have "find (\<lambda>e. accepts_encoding accept (fst e) \<and> fs_stat (confine fs) (name @ snd e) \<noteq> None) encodings =
      find (\<lambda>e. accepts_encoding accept (fst e) \<and> fs_stat fs (name @ snd e) \<noteq> None) encodings"
    by (intro find_cong) (auto simp: confine_def)
  then show "negotiate (confine fs) name accept = negotiate fs name accept" by (simp add: negotiate_def)
  show "confined (fst (negotiate fs name accept))" using negotiate_cases [of fs name accept] assms c by auto
qed

lemma confine_read [simp]: "confined n \<Longrightarrow> fs_read (confine fs) n = fs_read fs n"
  "confined n \<Longrightarrow> fs_stat (confine fs) n = fs_stat fs n"
  by (simp_all add: confine_def)

lemma serve_page_confine:
  "list_all confined names \<Longrightarrow> serve_page lib (confine fs) q status page names = serve_page lib fs q status page names"
  by (induction names)
    (auto simp: negotiate_confine split: prod.split option.split dest: negotiate_confine(2) [of _ fs "header q ''Accept-Encoding''"])

lemma page_names: "confined ''index.html''" "confined ''404.html''" "confined ''500.html''"
  by code_simp+

lemma serve_error_confine: "serve_error lib (confine fs) q status = serve_error lib fs q status"
  by (simp add: serve_error_def Let_def error_page_of_def serve_page_confine page_names del: serve_page.simps)

lemma serve_file_confine: "confined name \<Longrightarrow> serve_file lib (confine fs) q name = serve_file lib fs q name"
  using negotiate_confine [of name fs "header q ''Accept-Encoding''"]
  by (auto simp: serve_file_def serve_error_confine split: prod.splits option.splits)

lemma serve_page_status: "ry_status (serve_page lib fs q status page names) = status"
  by (induction names) (auto simp: http_error_def split: prod.split option.split)

definition served_as :: "file_system \<Rightarrow> request \<Rightarrow> string \<Rightarrow> string \<Rightarrow> string \<Rightarrow> bool" where
  "served_as fs q name encoding bytes \<longleftrightarrow>
     (encoding = [] \<and> fs_read fs name = Some bytes) \<or>
     (\<exists>e \<in> set encodings. encoding = fst e \<and> fs_read fs (name @ snd e) = Some bytes \<and>
        accepts_encoding (header q ''Accept-Encoding'') encoding)"

lemma serve_file_is:
  "serve_file lib fs q name = serve_error lib fs q 500 \<or>
   (\<exists>encoding bytes. served_as fs q name encoding bytes \<and>
      serve_file lib fs q name = sl_serve lib q (asset_headers lib name encoding (etag_of lib bytes)) bytes)"
proof -
  obtain served encoding where n: "negotiate fs name (header q ''Accept-Encoding'') = (served, encoding)" by fastforce
  show ?thesis
  proof (cases "fs_read fs served")
    case None
    then show ?thesis by (simp add: serve_file_def n)
  next
    case (Some bytes)
    then have "served_as fs q name encoding bytes"
      using negotiate_cases [of fs name "header q ''Accept-Encoding''"] n by (auto simp: served_as_def)
    with Some show ?thesis by (auto simp: serve_file_def n)
  qed
qed

lemma serve_file_500: "serve_file lib fs q name = serve_error lib fs q 500 \<Longrightarrow> ry_status (serve_file lib fs q name) = 500"
  by (simp add: serve_error_def Let_def serve_page_status)


end
