(* ===== verification/Progress.thy ===== *)
theory Progress
  imports IngestionOps
begin

text \<open>
  Polling makes progress. When no fault occurs and the ids drawn are new, every write of the
  run store goes through, so a poll that the forge answers ends, and the history then holds
  what the forge listed.
\<close>

subsection \<open>New ids\<close>

definition used_ids :: "db \<Rightarrow> string set" where
  "used_ids d = ru_id ` set (t_runs d) \<union> jo_id ` set (t_jobs d) \<union> st_id ` set (t_steps d)"

definition ids_ready :: "world \<Rightarrow> bool" where
  "ids_ready w \<longleftrightarrow> [] \<notin> used_ids (w_db w) \<and> inj_on (e_rand (w_env w)) {w_pos w..} \<and>
     (\<forall>n. w_pos w \<le> n \<longrightarrow> e_rand (w_env w) n \<noteq> [] \<and> e_rand (w_env w) n \<notin> used_ids (w_db w))"

definition able :: "world \<Rightarrow> bool" where
  "able w \<longleftrightarrow> fault_free w \<and> ids_ready w"

text \<open>What was drawn since may have been used.\<close>

lemma able_later:
  assumes "able w" and env: "w_env w' = w_env w" and pos: "w_pos w \<le> w_pos w'"
    and used: "used_ids (w_db w') \<subseteq> used_ids (w_db w) \<union> e_rand (w_env w) ` {w_pos w..<w_pos w'}"
  shows "able w'"
proof -
  have ready: "[] \<notin> used_ids (w_db w)" "inj_on (e_rand (w_env w)) {w_pos w..}"
    "\<And>n. w_pos w \<le> n \<Longrightarrow> e_rand (w_env w) n \<noteq> [] \<and> e_rand (w_env w) n \<notin> used_ids (w_db w)"
    using assms(1) by (auto simp: able_def ids_ready_def)
  have "e_rand (w_env w) n \<notin> e_rand (w_env w) ` {w_pos w..<w_pos w'}" if "w_pos w' \<le> n" for n
    using inj_onD [OF ready(2), of n] pos that by fastforce
  then have "e_rand (w_env w) n \<noteq> [] \<and> e_rand (w_env w) n \<notin> used_ids (w_db w')" if "w_pos w' \<le> n" for n
    using ready(3) [of n] that pos used by (meson UnE order_trans subsetD)
  moreover have "[] \<notin> used_ids (w_db w')"
  proof
    assume "[] \<in> used_ids (w_db w')"
    with used ready(1) obtain n where "w_pos w \<le> n" "e_rand (w_env w) n = []" by fastforce
    with ready(3) show False by blast
  qed
  moreover have "inj_on (e_rand (w_env w)) {w_pos w'..}"
    using ready(2) pos by (auto intro: inj_on_subset)
  ultimately show ?thesis
    using assms(1) env by (simp add: able_def ids_ready_def fault_free_def)
qed

lemma able_step [simp]: "able w \<Longrightarrow> able (step_world w)"
  by (rule able_later) (auto simp: step_world_def)

lemma able_free: "able w \<Longrightarrow> fault_free w"
  by (simp add: able_def)

lemma able_rand: "able w \<Longrightarrow> w_pos w \<le> n \<Longrightarrow> e_rand (w_env w) n \<noteq> [] \<and> e_rand (w_env w) n \<notin> used_ids (w_db w)"
  by (simp add: able_def ids_ready_def)

lemma able_named: "able w \<Longrightarrow> x \<in> used_ids (w_db w) \<Longrightarrow> x \<noteq> []"
  by (auto simp: able_def ids_ready_def)

lemma step_world_simps [simp]:
  "w_db (step_world w) = w_db w" "w_env (step_world w) = w_env w" "w_pos (step_world w) = Suc (w_pos w)"
  by (simp_all add: step_world_def)

lemma find_id_quiet: "fault_free w \<Longrightarrow> find_id sel w = (Inr (text_of (sel (w_db w))), step_world w)"
  by (simp add: find_id_def bindE_def wrapE_Inr [OF query_row_quiet] retE_def)

subsection \<open>Writes\<close>

text \<open>An upsert of a run is two statements: it looks the run up and writes what it found to be right.\<close>

definition look_up_run :: "run_data \<Rightarrow> string io" where
  "look_up_run x = find_id (run_id_of (rnd_repo x) (rnd_forge_run x))"

definition write_run :: "run_data \<Rightarrow> string \<Rightarrow> run_data io" where
  "write_run x existing =
     (if existing \<noteq> []
      then bindE (wrapE ''update run'' (execE (update_run_row existing x))) (\<lambda>_. retE (x\<lparr>rnd_id := existing\<rparr>))
      else bindE randE (\<lambda>i.
           bindE (wrapE ''insert run'' (insertE (insert_run (new_run_row i x)))) (\<lambda>_. retE (x\<lparr>rnd_id := i\<rparr>))))"

lemma upsert_halves: "sql_upsert_run x = bindE (look_up_run x) (write_run x)"
  unfolding sql_upsert_run_def look_up_run_def by (rule arg_cong [where f = "bindE _"], rule ext) (simp only: write_run_def)

lemma look_up_run_quiet:
  "fault_free w \<Longrightarrow> look_up_run x w =
     (Inr (case find_run (rnd_repo x, rnd_forge_run x) (w_db w) of None \<Rightarrow> [] | Some r \<Rightarrow> ru_id r), step_world w)"
  by (simp add: look_up_run_def find_id_quiet run_id_of_def find_run_def text_of_def split: option.split)

lemma run_statements_repos:
  "update_run_row i x d = Some (d', n) \<Longrightarrow> t_repos d' = t_repos d"
  "insert_run r d = Inr d' \<Longrightarrow> t_repos d' = t_repos d"
  by (auto simp: update_run_row_def insert_run_def split: if_splits)

lemma write_run_updates:
  assumes w: "able w" and r: "find_run (rnd_repo x, rnd_forge_run x) (w_db w) = Some r"
  shows "\<exists>w' n. write_run x (ru_id r) w = (Inr (x\<lparr>rnd_id := ru_id r\<rparr>), w') \<and> able w' \<and>
    update_run_row (ru_id r) x (w_db w) = Some (w_db w', n) \<and>
    ru_id ` set (t_runs (w_db w')) = ru_id ` set (t_runs (w_db w))"
proof -
  let ?g = "\<lambda>y. if ru_id y = ru_id r then updated_run x y else y"
  let ?d = "(w_db w)\<lparr>t_runs := map ?g (t_runs (w_db w))\<rparr>"
  let ?w = "(step_world w)\<lparr>w_db := ?d\<rparr>"
  have "ru_id r \<noteq> []" using able_named [OF w] find_run_mem [OF r] by (auto simp: used_ids_def)
  moreover obtain n where n: "update_run_row (ru_id r) x (w_db w) = Some (?d, n)" by (simp add: update_run_row_def)
  ultimately have "write_run x (ru_id r) w = (Inr (x\<lparr>rnd_id := ru_id r\<rparr>), ?w)"
    using able_free [OF w] by (simp add: write_run_def bindE_def wrapE_Inr [OF exec_quiet])
  moreover have "ru_id (?g y) = ru_id y" for y by (simp add: updated_run_def)
  then have ids: "ru_id ` set (t_runs ?d) = ru_id ` set (t_runs (w_db w))"
    by (simp add: image_image del: if_image_distrib)
  moreover have "able ?w" by (rule able_later [OF w]) (use ids in \<open>auto simp: used_ids_def\<close>)
  ultimately show ?thesis using n by auto
qed

lemma write_run_inserts:
  assumes w: "able w" and new: "find_run (rnd_repo x, rnd_forge_run x) (w_db w) = None"
    and repo: "rnd_repo x \<in> rp_id ` set (t_repos (w_db w))"
  shows "\<exists>i w'. write_run x [] w = (Inr (x\<lparr>rnd_id := i\<rparr>), w') \<and> able w' \<and>
    insert_run (new_run_row i x) (w_db w) = Inr (w_db w') \<and>
    w_db w' = (w_db w)\<lparr>t_runs := t_runs (w_db w) @ [new_run_row i x]\<rparr>"
proof -
  let ?i = "e_rand (w_env w) (w_pos w)"
  let ?d = "(w_db w)\<lparr>t_runs := t_runs (w_db w) @ [new_run_row ?i x]\<rparr>"
  let ?w = "(step_world (step_world w))\<lparr>w_db := ?d\<rparr>"
  have "run_key (new_run_row ?i x) = (rnd_repo x, rnd_forge_run x)" by (simp add: run_key_def new_run_row_def)
  moreover have "(rnd_repo x, rnd_forge_run x) \<notin> run_key ` set (t_runs (w_db w))"
    using new by (auto simp: find_run_def find_None_iff)
  moreover have "?i \<notin> ru_id ` set (t_runs (w_db w))"
    using able_rand [OF w, of "w_pos w"] by (auto simp: used_ids_def)
  ultimately have ins: "insert_run (new_run_row ?i x) (w_db w) = Inr ?d"
    using repo by (simp add: insert_run_def has_key_iff) (simp add: new_run_row_def)
  then have "write_run x [] w = (Inr (x\<lparr>rnd_id := ?i\<rparr>), ?w)"
    using able_free [OF w] by (simp add: write_run_def bindE_def randE_def wrapE_Inr [OF insert_quiet])
  moreover have "able ?w"
    by (rule able_later [OF w]) (auto simp: used_ids_def new_run_row_def)
  ultimately show ?thesis using ins by auto
qed

lemma upsert_run_completes:
  assumes w: "able w" and repo: "rnd_repo x \<in> rp_id ` set (t_repos (w_db w))"
  shows "\<exists>y w'. sql_upsert_run x w = (Inr y, w') \<and> able w' \<and>
    rnd_id y \<in> ru_id ` set (t_runs (w_db w')) \<and> t_repos (w_db w') = t_repos (w_db w)"
proof (cases "find_run (rnd_repo x, rnd_forge_run x) (w_db w)")
  case None
  obtain i w' where "write_run x [] (step_world w) = (Inr (x\<lparr>rnd_id := i\<rparr>), w')" "able w'"
      "w_db w' = (w_db w)\<lparr>t_runs := t_runs (w_db w) @ [new_run_row i x]\<rparr>"
    using write_run_inserts [where w = "step_world w" and x = x, OF able_step [OF w], unfolded step_world_simps, OF None repo]
    by blast
  with None able_free [OF w] show ?thesis
    by (simp add: upsert_halves bindE_def look_up_run_quiet) (simp add: new_run_row_def)
next
  case (Some r)
  obtain w' n where "write_run x (ru_id r) (step_world w) = (Inr (x\<lparr>rnd_id := ru_id r\<rparr>), w')" "able w'"
      "update_run_row (ru_id r) x (w_db w) = Some (w_db w', n)"
      "ru_id ` set (t_runs (w_db w')) = ru_id ` set (t_runs (w_db w))"
    using write_run_updates [where w = "step_world w" and x = x, OF able_step [OF w], unfolded step_world_simps, OF Some]
    by blast
  moreover have "ru_id r \<in> ru_id ` set (t_runs (w_db w))" using find_run_mem [OF Some] by blast
  moreover have "t_repos (w_db w') = t_repos (w_db w)" using run_statements_repos(1) [OF calculation(3)] .
  ultimately show ?thesis
    using Some able_free [OF w] by (simp add: upsert_halves bindE_def look_up_run_quiet)
qed

lemma upsert_job_completes:
  assumes w: "able w" and run: "jd_run x \<in> ru_id ` set (t_runs (w_db w))"
  shows "\<exists>y w'. sql_upsert_job x w = (Inr y, w') \<and> able w' \<and>
    jd_id y \<in> jo_id ` set (t_jobs (w_db w')) \<and> t_runs (w_db w') = t_runs (w_db w) \<and> t_repos (w_db w') = t_repos (w_db w)"
proof (cases "job_id_of (jd_run x) (jd_forge_job x) (w_db w)")
  case None
  let ?i = "e_rand (w_env w) (Suc (w_pos w))"
  let ?d = "(w_db w)\<lparr>t_jobs := t_jobs (w_db w) @ [new_job_row ?i x]\<rparr>"
  let ?w = "(step_world (step_world (step_world w)))\<lparr>w_db := ?d\<rparr>"
  have "job_key (new_job_row ?i x) = (jd_run x, jd_forge_job x)" by (simp add: job_key_def new_job_row_def)
  moreover have "(jd_run x, jd_forge_job x) \<notin> job_key ` set (t_jobs (w_db w))"
    using None by (auto simp: job_id_of_def find_None_iff)
  moreover have "?i \<notin> jo_id ` set (t_jobs (w_db w))"
    using able_rand [OF w, of "Suc (w_pos w)"] by (auto simp: used_ids_def)
  ultimately have "insert_job (new_job_row ?i x) (w_db w) = Inr ?d"
    using run by (simp add: insert_job_def has_key_iff) (simp add: new_job_row_def)
  then have "sql_upsert_job x w = (Inr (x\<lparr>jd_id := ?i\<rparr>), ?w)"
    using able_free [OF w]
    by (simp add: sql_upsert_job_def bindE_def find_id_quiet None text_of_def randE_def wrapE_Inr [OF insert_quiet] retE_def)
  moreover have "able ?w"
    by (rule able_later [OF w]) (auto simp: used_ids_def new_job_row_def)
  ultimately show ?thesis by (simp add: new_job_row_def)
next
  case (Some i)
  then obtain row where row: "row \<in> set (t_jobs (w_db w))" "jo_id row = i"
    by (auto simp: job_id_of_def dest: find_mem)
  then have "i \<noteq> []" using able_named [OF w] by (auto simp: used_ids_def)
  let ?g = "\<lambda>j. if jo_id j = i then updated_job x j else j"
  let ?d = "(w_db w)\<lparr>t_jobs := map ?g (t_jobs (w_db w))\<rparr>"
  let ?w = "(step_world (step_world w))\<lparr>w_db := ?d\<rparr>"
  have g: "jo_id (?g j) = jo_id j" for j by (simp add: updated_job_def)
  obtain n where "update_job_row i x (w_db w) = Some (?d, n)" by (simp add: update_job_row_def)
  then have "sql_upsert_job x w = (Inr (x\<lparr>jd_id := i\<rparr>), ?w)"
    using able_free [OF w] \<open>i \<noteq> []\<close>
    by (simp add: sql_upsert_job_def bindE_def find_id_quiet Some text_of_def wrapE_Inr [OF exec_quiet] retE_def)
  moreover have "jo_id ` set (t_jobs ?d) = jo_id ` set (t_jobs (w_db w))"
    by (simp add: image_image g del: if_image_distrib)
  moreover have "able ?w"
    by (rule able_later [OF w]) (use calculation(2) in \<open>auto simp: used_ids_def\<close>)
  ultimately show ?thesis using row by auto
qed

text \<open>Steps go in under numbers of their own.\<close>

lemma insert_steps_complete:
  assumes "able w" and "job \<in> jo_id ` set (t_jobs (w_db w))" and "distinct (map sd_number ss)"
    and "\<And>s. s \<in> set (t_steps (w_db w)) \<Longrightarrow> st_job s = job \<Longrightarrow> st_number s \<notin> sd_number ` set ss"
  shows "\<exists>w'. forE ss (sql_insert_step job) w = (Inr (), w') \<and> able w' \<and>
    t_runs (w_db w') = t_runs (w_db w) \<and> t_repos (w_db w') = t_repos (w_db w)"
  using assms
proof (induction ss arbitrary: w)
  case Nil
  then show ?case by (simp add: retE_def)
next
  case (Cons s ss)
  let ?i = "e_rand (w_env w) (w_pos w)" and ?d = "w_db w"
  let ?r = "new_step_row ?i job s"
  let ?d' = "?d\<lparr>t_steps := t_steps ?d @ [?r]\<rparr>" let ?w = "(step_world (step_world w))\<lparr>w_db := ?d'\<rparr>"
  have "?i \<notin> st_id ` set (t_steps ?d)"
    using able_rand [OF Cons.prems(1), of "w_pos w"] by (auto simp: used_ids_def)
  moreover have "step_key ?r \<notin> step_key ` set (t_steps ?d)"
  proof
    assume "step_key ?r \<in> step_key ` set (t_steps ?d)"
    then obtain t where "t \<in> set (t_steps ?d)" "st_job t = job" "st_number t = sd_number s"
      by (auto simp: step_key_def new_step_row_def)
    then show False using Cons.prems(4) [of t] by simp
  qed
  ultimately have "insert_step ?r ?d = Inr ?d'"
    using Cons.prems(2) by (simp add: insert_step_def has_key_iff) (simp add: new_step_row_def)
  then have ins: "sql_insert_step job s w = (Inr (), ?w)"
    using able_free [OF Cons.prems(1)]
    by (simp add: sql_insert_step_def bindE_def randE_def wrapE_Inr [OF insert_quiet])
  have "able ?w"
    by (rule able_later [OF Cons.prems(1)]) (auto simp: used_ids_def new_step_row_def)
  moreover have "st_number t \<notin> sd_number ` set ss" if "t \<in> set (t_steps (w_db ?w))" "st_job t = job" for t
  proof -
    have "t \<in> set (t_steps ?d) \<or> st_number t = sd_number s" using that(1) by (auto simp: new_step_row_def)
    then show ?thesis using Cons.prems(3) Cons.prems(4) [of t] that(2) by auto
  qed
  ultimately obtain w' where "forE ss (sql_insert_step job) ?w = (Inr (), w') \<and> able w' \<and>
      t_runs (w_db w') = t_runs (w_db ?w) \<and> t_repos (w_db w') = t_repos (w_db ?w)"
    using Cons.IH [of ?w] Cons.prems(2,3) by auto
  then show ?case by (simp add: thenE_def bindE_def ins)
qed

lemma replace_steps_completes:
  assumes w: "able w" and "job \<in> jo_id ` set (t_jobs (w_db w))" and "distinct (map sd_number ss)"
  shows "\<exists>w'. sql_replace_steps job ss w = (Inr (), w') \<and> able w' \<and>
    t_runs (w_db w') = t_runs (w_db w) \<and> t_repos (w_db w') = t_repos (w_db w)"
proof -
  let ?d = "(w_db w)\<lparr>t_steps := filter (\<lambda>s. st_job s \<noteq> job) (t_steps (w_db w))\<rparr>"
  let ?w = "(step_world (step_world w))\<lparr>w_db := ?d\<rparr>"
  have "able ?w" by (rule able_later [OF w]) (auto simp: used_ids_def)
  then obtain w' where w': "forE ss (sql_insert_step job) ?w = (Inr (), w')" "able w'"
      "t_runs (w_db w') = t_runs (w_db ?w)" "t_repos (w_db w') = t_repos (w_db ?w)"
    using insert_steps_complete [of ?w job ss] assms(2,3) by auto
  obtain n where "clear_steps job (w_db (step_world w)) = Some (?d, n)" by (simp add: clear_steps_def)
  then have "sql_replace_steps job ss w = (Inr (), step_world w')"
    using w'(1,2) able_free [OF w] able_free [OF w'(2)]
    by (simp add: sql_replace_steps_def txE_def bindE_def wrapE_Inr [OF exec_quiet])
  then show ?thesis using w' by simp
qed

definition numbered :: "job_snapshot \<Rightarrow> bool" where
  "numbered j \<longleftrightarrow> distinct (map ssn_number (jsn_steps j))"

lemma store_jobs_complete:
  assumes "able w" and "run \<in> ru_id ` set (t_runs (w_db w))" and "list_all numbered js"
  shows "\<exists>w'. forE js (store_job_snapshot sql_runstore run) w = (Inr (), w') \<and> able w' \<and>
    t_repos (w_db w') = t_repos (w_db w)"
  using assms
proof (induction js arbitrary: w)
  case Nil
  then show ?case by (simp add: retE_def)
next
  case (Cons j js)
  let ?x = "job_of_snapshot run j"
  have x: "jd_run ?x = run" by (simp add: job_of_snapshot_def)
  obtain y w1 where 1: "sql_upsert_job ?x w = (Inr y, w1)" "able w1" "jd_id y \<in> jo_id ` set (t_jobs (w_db w1))"
      "t_runs (w_db w1) = t_runs (w_db w)" "t_repos (w_db w1) = t_repos (w_db w)"
    using upsert_job_completes [OF Cons.prems(1), of ?x] Cons.prems(2) x by auto
  have "distinct (map sd_number (map step_of_snapshot (jsn_steps j)))"
    using Cons.prems(3) by (simp add: numbered_def step_of_snapshot_def comp_def)
  then obtain w2 where 2: "sql_replace_steps (jd_id y) (map step_of_snapshot (jsn_steps j)) w1 = (Inr (), w2)" "able w2"
      "t_runs (w_db w2) = t_runs (w_db w1)" "t_repos (w_db w2) = t_repos (w_db w1)"
    using replace_steps_completes [OF 1(2,3)] by blast
  have "store_job_snapshot sql_runstore run j w = (Inr (), w2)"
    using 1(1) 2(1) by (simp add: store_job_snapshot_def sql_runstore_def bindE_def wrapE_def)
  moreover have "\<exists>w'. forE js (store_job_snapshot sql_runstore run) w2 = (Inr (), w') \<and> able w' \<and>
      t_repos (w_db w') = t_repos (w_db w2)"
    using Cons.IH [OF 2(2)] Cons.prems(2,3) 1(4) 2(3) by simp
  ultimately show ?case using 1(5) 2(4) by (auto simp: thenE_def bindE_def)
qed

lemma store_run_completes:
  assumes "able w" and "tr_id r \<in> rp_id ` set (t_repos (w_db w))" and "list_all numbered (rsn_jobs s)"
  shows "\<exists>w'. store_run_snapshot sql_runstore r s w = (Inr (), w') \<and> able w' \<and> t_repos (w_db w') = t_repos (w_db w)"
proof -
  let ?x = "run_of_snapshot (tr_id r) s"
  obtain y w1 where 1: "sql_upsert_run ?x w = (Inr y, w1)" "able w1" "rnd_id y \<in> ru_id ` set (t_runs (w_db w1))"
      "t_repos (w_db w1) = t_repos (w_db w)"
    using upsert_run_completes [OF assms(1), of ?x] assms(2) by (auto simp: run_of_snapshot_def)
  with store_jobs_complete [OF 1(2,3) assms(3)] show ?thesis
    by (auto simp: store_run_snapshot_def sql_runstore_def bindE_def wrapE_def)
qed

text \<open>A whole listing, in the order the forge gave it.\<close>

lemma store_runs_complete:
  assumes "able w" and "ingest_inv ae key (w_db w)" and "tr_id r \<in> rp_id ` set (t_repos (w_db w))"
    and "list_all (\<lambda>s. list_all numbered (rsn_jobs s)) ss"
  shows "\<exists>w'. forE ss (store_run_snapshot sql_runstore r) w = (Inr (), w') \<and> able w' \<and>
    t_repos (w_db w') = t_repos (w_db w) \<and>
    history_of (w_db w') = fold (record_snapshot (tr_id r)) ss (history_of (w_db w))"
  using assms
proof (induction ss arbitrary: w)
  case Nil
  then show ?case by (simp add: retE_def)
next
  case (Cons s ss)
  obtain w1 where 1: "store_run_snapshot sql_runstore r s w = (Inr (), w1)" "able w1" "t_repos (w_db w1) = t_repos (w_db w)"
    using store_run_completes [OF Cons.prems(1,3)] Cons.prems(4) by auto
  note h = store_snapshot_history [OF Cons.prems(2) 1(1)]
  obtain w' where "forE ss (store_run_snapshot sql_runstore r) w1 = (Inr (), w') \<and> able w' \<and>
      t_repos (w_db w') = t_repos (w_db w1) \<and>
      history_of (w_db w') = fold (record_snapshot (tr_id r)) ss (history_of (w_db w1))"
    using Cons.IH [OF 1(2)] h Cons.prems(3,4) 1(3) by auto
  with 1 h show ?case by (auto simp: thenE_def bindE_def)
qed

subsection \<open>A poll\<close>

lemma onwards_record_rate_limit: "onwards (record_rate_limit t h)"
  by (auto simp: record_rate_limit_def intro!: onwards_intros split: option.split)

lemma onwards_conditional_get: "onwards (conditional_get c url token etag dec)"
  unfolding conditional_get_def
  by (auto intro!: onwards_intros onwards_record_rate_limit split: http_outcome.split)

lemma onwards_fetch_jobs: "onwards (fetch_workflow_jobs c inst token owner name i)"
  unfolding fetch_workflow_jobs_def
  by (auto intro!: onwards_intros split: http_outcome.split option.split)

lemma onwards_list_runs: "forge_clients g f forge = Some c \<Longrightarrow> onwards (fc_list_runs c req)"
  by (auto simp: forge_clients_def github_forge_def forgejo_forge_def github_list_runs_def snapshot_run_def
      list_workflow_jobs_def forgejo_list_runs_def forgejo_api_def forgejo_snapshot_def forgejo_list_jobs_def
      intro!: onwards_intros onwards_conditional_get onwards_fetch_jobs split: if_splits sum.split)

lemma set_etag_quiet:
  assumes "fault_free w" and "find_repo i (w_db w) = Some row"
  shows "\<exists>w'. sql_set_etag i e w = (Inr (), w') \<and> history_of (w_db w') = history_of (w_db w) \<and>
    find_repo i (w_db w') = Some (row\<lparr>rp_etag := e\<rparr>)"
proof -
  let ?g = "\<lambda>r. if rp_id r = i then r\<lparr>rp_etag := e\<rparr> else r"
  let ?d = "(w_db w)\<lparr>t_repos := map ?g (t_repos (w_db w))\<rparr>"
  obtain n where u: "update_repo i (\<lambda>r. r\<lparr>rp_etag := e\<rparr>) (w_db w) = Some (?d, n)"
      "n = length (filter (\<lambda>r. rp_id r = i) (t_repos (w_db w)))"
    by (simp add: update_repo_def)
  have row: "row \<in> set (t_repos (w_db w))" "rp_id row = i" using assms(2) by (auto simp: find_repo_def dest: find_mem)
  then have "n \<noteq> 0" unfolding u(2) by (auto simp: filter_empty_conv)
  then have "sql_set_etag i e w = (Inr (), (step_world w)\<lparr>w_db := ?d\<rparr>)"
    using exec_quiet [where stmt = "update_repo i (\<lambda>r. r\<lparr>rp_etag := e\<rparr>)", OF assms(1) u(1)]
    by (simp add: wrapE_def sql_set_etag_def exec_some_def bindE_def retE_def)
  moreover have "find_repo i ?d = Some (?g row)"
    using assms(2) find_map_key [of rp_id ?g i "t_repos (w_db w)"] by (simp add: find_repo_def)
  moreover have "history_of ?d = history_of (w_db w)"
    by (simp add: history_of_def find_run_def find_job_def cong: option.case_cong)
  ultimately show ?thesis using row(2) by simp
qed

text \<open>What a poll asks the forge: with the repository's own token and what is stored of its runs.\<close>

definition poll_request :: "repo \<Rightarrow> string \<Rightarrow> (string \<times> run_state) list \<Rightarrow> list_runs_request" where
  "poll_request r token known =
     \<lparr> lq_instance = tr_instance r, lq_identifier = tr_identifier r, lq_token = token, lq_etag = tr_etag r,
       lq_known = known \<rparr>"

text \<open>
  C5: a poll catches up. For a tracked repository whose token opens, when no fault occurs, new
  ids are drawn and the forge answers with runs whose jobs number their steps distinctly, the
  poll ends without an error whatever is stored already, and then the history holds everything
  the forge listed, in order, and the repository the forge's tag for the next poll.
\<close>

theorem reconcile_completes:
  assumes "ingest_inv ae key (w_db w)" and "able w"
    and tracked: "find_repo (tr_id r) (w_db w) = Some row" and token: "decrypt ae key (rp_token_enc row) = Inr token"
    and client: "forge_clients g f (tr_forge r) = Some c"
    and known: "fst (sql_run_states (tr_id r) (step_world w)) = Inr known"
    and answer: "fst (fc_list_runs c (poll_request r token known) (step_world (step_world w))) = Inr res"
    and listed: "\<not> lr_not_modified res" "list_all (\<lambda>s. list_all numbered (rsn_jobs s)) (lr_runs res)"
  shows "\<exists>w'. reconcile_repo (sql_rstore ae key) sql_runstore (forge_clients g f) r w = (Inr (), w') \<and>
    history_of (w_db w') = fold (record_snapshot (tr_id r)) (lr_runs res) (history_of (w_db w)) \<and>
    map_option rp_etag (find_repo (tr_id r) (w_db w')) =
      Some (if lr_etag res = [] then rp_etag row else lr_etag res)"
proof -
  let ?w2 = "step_world (step_world w)" and ?list = "fc_list_runs c (poll_request r token known)"
  obtain w3 where list: "?list ?w2 = (Inr res, w3)" using answer by (metis prod.collapse)
  have free: "fault_free w" using assms(2) by (rule able_free)
  have 1: "sql_repo_token ae key (tr_id r) w = (Inr token, step_world w)"
    using tracked token
    by (simp add: sql_repo_token_def bindE_def liftE_def wrapE_def query_row_quiet [OF free])
  have 2: "sql_run_states (tr_id r) (step_world w) = (Inr known, ?w2)"
    using known free by (simp add: sql_run_states_def bindE_def query_quiet retE_def)
  have db: "w_db w3 = w_db w"
  proof -
    have "keeps P ?list" for P using quiet_clientD(2) [OF quiet_clients [OF client]] .
    from keeps_all_db [OF this, of ?w2] list show ?thesis by simp
  qed
  have on: "w_env w3 = w_env w" "w_pos w \<le> w_pos w3"
    using onwardsD [OF onwards_list_runs [OF client] list] by simp_all
  have a3: "able w3" by (rule able_later [OF assms(2) on]) (simp add: db)
  have mem: "tr_id r \<in> rp_id ` set (t_repos (w_db w3))"
    using find_mem [OF tracked [unfolded find_repo_def]] by (metis db imageI)
  obtain w4 where 4: "forE (lr_runs res) (store_run_snapshot sql_runstore r) w3 = (Inr (), w4)" "able w4"
      "t_repos (w_db w4) = t_repos (w_db w)"
      "history_of (w_db w4) = fold (record_snapshot (tr_id r)) (lr_runs res) (history_of (w_db w))"
    using store_runs_complete [OF a3 _ mem listed(2)] assms(1) unfolding db by blast
  have row: "find_repo (tr_id r) (w_db w4) = Some row" using tracked 4(3) by (simp add: find_repo_def)
  obtain w5 where 5: "sql_set_etag (tr_id r) (lr_etag res) w4 = (Inr (), w5)"
      "history_of (w_db w5) = history_of (w_db w4)" "find_repo (tr_id r) (w_db w5) = Some (row\<lparr>rp_etag := lr_etag res\<rparr>)"
    using set_etag_quiet [OF able_free [OF 4(2)] row] by blast
  have "reconcile_repo (sql_rstore ae key) sql_runstore (forge_clients g f) r w =
      (Inr (), if lr_etag res = [] then w4 else w5)"
    using 1 2 list 4(1) 5(1) listed(1)
    by (simp add: reconcile_repo_def client bindE_def wrapE_def thenE_def sql_rstore_def sql_runstore_def
        poll_request_def retE_def)
  then show ?thesis using 4(4) 5 row by (cases "lr_etag res = []") auto
qed

text \<open>The example of a registered repository, with ids that differ, and nothing stored of its runs.\<close>

definition polled :: world where
  "polled = tracked\<lparr>w_env := quiet_env\<lparr>e_rand := \<lambda>n. replicate (Suc n) CHR ''r''\<rparr>\<rparr>"

lemma polled_able: "able polled"
  by (auto simp: able_def ids_ready_def fault_free_def used_ids_def polled_def tracked_def tracked_db_def
      empty_db_def quiet_env_def inj_on_def)

theorem reconcile_completes_witness:
  "\<exists>w'. reconcile_repo demo_store sql_runstore demo_clients demo_repo polled = (Inr (), w') \<and>
    map_option rp_etag (find_repo ''id'' (w_db w')) = Some ''v1''"
proof -
  let ?poll = "fc_list_runs (github_forge demo_github) (poll_request demo_repo ''secret-token'' []) (step_world (step_world polled))"
  have inv: "ingest_inv demo_aead demo_key (w_db polled)" using tracked_inv by (simp add: polled_def)
  have row: "find_repo (tr_id demo_repo) (w_db polled) = Some (hd (t_repos tracked_db))" by code_simp
  have token: "decrypt demo_aead demo_key (rp_token_enc (hd (t_repos tracked_db))) = Inr ''secret-token''" by code_simp
  have client: "demo_clients (tr_forge demo_repo) = Some (github_forge demo_github)"
    by (simp add: forge_clients_def demo_repo_def)
  have known: "fst (sql_run_states (tr_id demo_repo) (step_world polled)) = Inr []" by code_simp
  have "case fst ?poll of Inl _ \<Rightarrow> False | Inr res \<Rightarrow>
      \<not> lr_not_modified res \<and> list_all (\<lambda>s. list_all numbered (rsn_jobs s)) (lr_runs res) \<and> lr_etag res = ''v1''"
    by code_simp
  then obtain res where res: "fst ?poll = Inr res" "\<not> lr_not_modified res"
      "list_all (\<lambda>s. list_all numbered (rsn_jobs s)) (lr_runs res)" "lr_etag res = ''v1''"
    by (auto split: sum.splits)
  show ?thesis
    using reconcile_completes [OF inv polled_able row token client known res(1-3)] res(4) by (auto simp: demo_repo_def)
qed

end
