(* ===== verification/Races.thy ===== *)
theory Races
  imports Progress
begin

text \<open>
  Upserts of runs that overlap. \<open>UpsertRun\<close> looks a run up and writes it in two statements outside
  of a transaction, so requests and polls served at the same time interleave there. Every
  interleaving is a schedule of turns, one statement each.
\<close>

subsection \<open>Calls of \<open>UpsertRun\<close> in progress\<close>

abbreviation run_of :: "run_data \<Rightarrow> string \<times> string" where
  "run_of x \<equiv> (rnd_repo x, rnd_forge_run x)"

text \<open>How far a call of \<open>UpsertRun\<close> has come.\<close>

datatype upsert = Waiting run_data | Looked run_data string | Stored run_data | Refused run_data goerr

fun upserted :: "upsert \<Rightarrow> run_data" where
  "upserted (Waiting x) = x"
| "upserted (Looked x _) = x"
| "upserted (Stored x) = x"
| "upserted (Refused x _) = x"

definition looked :: "run_data \<Rightarrow> string res \<Rightarrow> upsert" where
  "looked x r = (case r of Inl e \<Rightarrow> Refused x e | Inr i \<Rightarrow> Looked x i)"

definition wrote :: "run_data \<Rightarrow> run_data res \<Rightarrow> upsert" where
  "wrote x r = (case r of Inl e \<Rightarrow> Refused x e | Inr y \<Rightarrow> Stored y)"

text \<open>The \<open>n\<close>-th call runs its next statement.\<close>

fun upsert_turn :: "nat \<Rightarrow> world \<times> upsert list \<Rightarrow> world \<times> upsert list" where
  "upsert_turn n (w, us) =
     (if n < length us then
        case us ! n of
          Waiting x \<Rightarrow> let (r, w') = look_up_run x w in (w', us[n := looked x r])
        | Looked x i \<Rightarrow> let (r, w') = write_run x i w in (w', us[n := wrote x r])
        | _ \<Rightarrow> (w, us)
      else (w, us))"

fun stored :: "upsert list \<Rightarrow> run_data list" where
  "stored [] = []"
| "stored (Stored y # us) = y # stored us"
| "stored (_ # us) = stored us"

fun turns_left :: "upsert \<Rightarrow> nat" where
  "turns_left (Waiting _) = 2"
| "turns_left (Looked _ _) = 1"
| "turns_left _ = 0"

definition lost_race :: goerr where
  "lost_race = Wrap ''insert run'' (Constraint UniqueKey)"

subsection \<open>The history under a sequence of upserts\<close>

lemma put_run_id [simp]: "put_run (x\<lparr>rnd_id := i\<rparr>) = put_run x"
  by (simp add: put_run_def new_run_row_def updated_run_def fun_eq_iff cong: option.case_cong)

lemma put_run_known: "hi_runs (put_run x h) k \<noteq> None \<longleftrightarrow> hi_runs h k \<noteq> None \<or> k = run_of x"
  by (simp add: put_run_def Let_def)

lemma fold_put_run_known:
  "hi_runs (fold put_run xs h) k \<noteq> None \<longleftrightarrow> hi_runs h k \<noteq> None \<or> k \<in> run_of ` set xs"
  by (induction xs arbitrary: h) (simp_all only: fold_simps list.set image_insert put_run_known image_empty empty_iff insert_iff, auto)

lemma known_run: "hi_runs (history_of d) k = None \<longleftrightarrow> find_run k d = None"
  by (simp add: history_of_def)

lemma stored_update:
  "n < length us \<Longrightarrow> us ! n = u \<Longrightarrow> turns_left u \<noteq> 0 \<Longrightarrow>
   mset (stored (us[n := v])) = mset (stored us) + mset (stored [v])"
proof (induction us arbitrary: n)
  case (Cons a us)
  then show ?case
    by (cases n; cases a; cases v) auto
qed simp

lemma stored_set: "set (stored us) = {y. Stored y \<in> set us}"
  by (induction us rule: stored.induct) auto

subsection \<open>What every interleaving keeps\<close>

fun upsert_sound :: "history \<Rightarrow> db \<Rightarrow> run_data list \<Rightarrow> upsert \<Rightarrow> bool" where
  "upsert_sound h d ys (Looked x i) \<longleftrightarrow>
     (if i = [] then hi_runs h (run_of x) = None else \<exists>r. find_run (run_of x) d = Some r \<and> ru_id r = i)"
| "upsert_sound h d ys (Refused x e) \<longleftrightarrow> e = lost_race \<and> hi_runs h (run_of x) = None \<and> run_of x \<in> run_of ` set ys"
| "upsert_sound h d ys _ \<longleftrightarrow> True"

definition race_inv :: "aead \<Rightarrow> string \<Rightarrow> history \<Rightarrow> world \<times> upsert list \<Rightarrow> bool" where
  "race_inv ae key h s \<longleftrightarrow> (case s of (w, us) \<Rightarrow>
     able w \<and> ingest_inv ae key (w_db w) \<and>
     (\<forall>u \<in> set us. rnd_repo (upserted u) \<in> rp_id ` set (t_repos (w_db w)) \<and> upsert_sound h (w_db w) (stored us) u) \<and>
     (\<exists>order. mset order = mset (stored us) \<and> history_of (w_db w) = fold put_run order h))"


lemma upsert_sound_mono:
  assumes "upsert_sound h d ys u" and "set ys \<subseteq> set ys'"
    and "\<And>k r. find_run k d = Some r \<Longrightarrow> \<exists>r'. find_run k d' = Some r' \<and> ru_id r' = ru_id r"
  shows "upsert_sound h d' ys' u"
proof (cases u)
  case (Looked x i)
  then show ?thesis using assms(1) assms(3) [of "run_of x"] by (auto split: if_splits)
qed (use assms(1,2) in auto)

text \<open>One turn: the call that runs is sound afterwards, and the others stay so.\<close>

lemma race_step:
  assumes inv: "race_inv ae key h (w, us)" and n: "n < length us" "us ! n = u"
    and w': "able w'" "ingest_inv ae key (w_db w')" "t_repos (w_db w') = t_repos (w_db w)"
    and kept: "\<And>k r. find_run k (w_db w) = Some r \<Longrightarrow> \<exists>r'. find_run k (w_db w') = Some r' \<and> ru_id r' = ru_id r"
    and v: "rnd_repo (upserted v) = rnd_repo (upserted u)" "upsert_sound h (w_db w') (stored (us[n := v])) v"
    and more: "mset (stored (us[n := v])) = mset (stored us) + mset (stored [v])"
    and hist: "history_of (w_db w') = fold put_run (stored [v]) (history_of (w_db w))"
  shows "race_inv ae key h (w', us[n := v])"
proof -
  let ?us = "us[n := v]"
  obtain order where I: "mset order = mset (stored us)" "history_of (w_db w) = fold put_run order h"
    and each: "\<And>u. u \<in> set us \<Longrightarrow> rnd_repo (upserted u) \<in> rp_id ` set (t_repos (w_db w)) \<and> upsert_sound h (w_db w) (stored us) u"
    using inv by (auto simp: race_inv_def)
  have grows: "set (stored us) \<subseteq> set (stored ?us)"
    using arg_cong [OF more, of set_mset] by auto
  have "rnd_repo (upserted x) \<in> rp_id ` set (t_repos (w_db w')) \<and> upsert_sound h (w_db w') (stored ?us) x"
    if "x \<in> set ?us" for x
  proof (cases "x = v")
    case True
    then show ?thesis using each [of u] n v nth_mem by (fastforce simp: w'(3))
  next
    case False
    then have "x \<in> set us" using that set_update_subset_insert [of us n v] by blast
    then have "rnd_repo (upserted x) \<in> rp_id ` set (t_repos (w_db w))" "upsert_sound h (w_db w) (stored us) x"
      using each by auto
    then show ?thesis using upsert_sound_mono [OF _ grows kept] by (simp only: w'(3) simp_thms)
  qed
  moreover have "mset (order @ stored [v]) = mset (stored ?us)" using I(1) more by simp
  moreover have "history_of (w_db w') = fold put_run (order @ stored [v]) h" by (simp add: hist I(2))
  ultimately show ?thesis using w'(1,2) unfolding race_inv_def by blast
qed

lemma race_invD:
  assumes "race_inv ae key h (w, us)" and "n < length us"
  shows "able w" "ingest_inv ae key (w_db w)" "rnd_repo (upserted (us ! n)) \<in> rp_id ` set (t_repos (w_db w))"
    "upsert_sound h (w_db w) (stored us) (us ! n)"
    "find_run k (w_db w) = None \<longleftrightarrow> hi_runs h k = None \<and> k \<notin> run_of ` set (stored us)"
proof -
  obtain order where order: "mset order = mset (stored us)" "history_of (w_db w) = fold put_run order h"
    using assms(1) by (auto simp: race_inv_def)
  show "able w" "ingest_inv ae key (w_db w)" "rnd_repo (upserted (us ! n)) \<in> rp_id ` set (t_repos (w_db w))"
    "upsert_sound h (w_db w) (stored us) (us ! n)"
    using assms by (auto simp: race_inv_def)
  have "find_run k (w_db w) = None \<longleftrightarrow> hi_runs h k = None \<and> k \<notin> run_of ` set order"
    unfolding known_run [symmetric] order(2) using fold_put_run_known [of order h k] by blast
  then show "find_run k (w_db w) = None \<longleftrightarrow> hi_runs h k = None \<and> k \<notin> run_of ` set (stored us)"
    using mset_eq_setD [OF order(1)] by simp
qed

text \<open>Rows keep their ids under both writes.\<close>

lemma ids_persist:
  "update_run_row i x d = Some (d', n) \<Longrightarrow> find_run k d = Some r \<Longrightarrow> \<exists>r'. find_run k d' = Some r' \<and> ru_id r' = ru_id r"
  "insert_run y d = Inr d' \<Longrightarrow> find_run k d = Some r \<Longrightarrow> \<exists>r'. find_run k d' = Some r' \<and> ru_id r' = ru_id r"
proof -
  let ?g = "\<lambda>y. if ru_id y = i then updated_run x y else y"
  have key: "run_key (?g y) = run_key y" for y by (simp add: updated_run_def run_key_def)
  show "update_run_row i x d = Some (d', n) \<Longrightarrow> find_run k d = Some r \<Longrightarrow> \<exists>r'. find_run k d' = Some r' \<and> ru_id r' = ru_id r"
    by (auto simp: update_run_row_def find_run_def find_map_key [where key = run_key, OF key] updated_run_def)
  show "insert_run y d = Inr d' \<Longrightarrow> find_run k d = Some r \<Longrightarrow> \<exists>r'. find_run k d' = Some r' \<and> ru_id r' = ru_id r"
    by (auto simp: insert_run_def find_run_def find_append split: if_splits)
qed

lemma write_run_loses:
  assumes w: "able w" and r: "find_run (rnd_repo x, rnd_forge_run x) (w_db w) = Some r"
  shows "write_run x [] w = (Inl lost_race, step_world (step_world w))"
proof -
  let ?i = "e_rand (w_env w) (w_pos w)"
  have "?i \<notin> ru_id ` set (t_runs (w_db w))"
    using able_rand [OF w, of "w_pos w"] by (auto simp: used_ids_def)
  moreover have "run_key (new_run_row ?i x) \<in> run_key ` set (t_runs (w_db w))"
    using find_run_mem [OF r] by (auto simp: run_key_def new_run_row_def intro: rev_image_eqI)
  ultimately have "insert_run (new_run_row ?i x) (w_db w) = Inl UniqueKey"
    by (simp add: insert_run_def has_key_iff) (simp add: new_run_row_def)
  then show ?thesis
    using able_free [OF w]
    by (simp add: write_run_def bindE_def randE_def wrapE_def insertE_def fault_free_def fault_here_def lost_race_def wrap_error_def)
qed

lemma looked_inv:
  assumes inv: "race_inv ae key h (w, us)" and n: "n < length us" "us ! n = Waiting x"
    and run: "look_up_run x w = (r, w')"
  shows "race_inv ae key h (w', us[n := looked x r])"
proof -
  note I = race_invD [OF inv n(1)]
  let ?i = "case find_run (run_of x) (w_db w) of None \<Rightarrow> [] | Some y \<Rightarrow> ru_id y"
  have r: "r = Inr ?i" and w': "w' = step_world w"
    using run look_up_run_quiet [OF able_free [OF I(1)], of x] by simp_all
  have "ru_id y \<noteq> []" if "find_run (run_of x) (w_db w) = Some y" for y
    using able_named [OF I(1)] find_run_mem [OF that] by (auto simp: used_ids_def)
  then have "upsert_sound h (w_db w) ys (Looked x ?i)" for ys
    using I(5) [of "run_of x"] by (simp split: option.split)
  then show ?thesis
    using I(1,2) stored_update [OF n, of "Looked x ?i"]
    by (intro race_step [OF inv n]) (simp_all add: w' r looked_def)
qed

lemma wrote_inv:
  assumes inv: "race_inv ae key h (w, us)" and n: "n < length us" "us ! n = Looked x i"
    and run: "write_run x i w = (r, w')"
  shows "race_inv ae key h (w', us[n := wrote x r])"
proof -
  note I = race_invD [OF inv n(1)]
  have ok: "run_tables_ok (w_db w)" using I(2) by (rule ingest_run_tables)
  have sound: "upsert_sound h (w_db w) (stored us) (Looked x i)" using I(4) n(2) by simp
  consider (update) y where "find_run (run_of x) (w_db w) = Some y" "ru_id y = i"
    | (insert) "i = []" "find_run (run_of x) (w_db w) = None"
    | (lost) y where "i = []" "find_run (run_of x) (w_db w) = Some y"
    using sound by (cases "find_run (run_of x) (w_db w)") (auto split: if_splits)
  then show ?thesis
  proof cases
    case update
    obtain k where "r = Inr (x\<lparr>rnd_id := i\<rparr>)" "able w'" and u: "update_run_row i x (w_db w) = Some (w_db w', k)"
      using write_run_updates [OF I(1) update(1)] run update(2) by auto
    moreover have "find_run k (w_db w) = Some r \<Longrightarrow> \<exists>r'. find_run k (w_db w') = Some r' \<and> ru_id r' = ru_id r" for k r
      using ids_persist(1) [OF u] .
    ultimately show ?thesis
      using stored_update [OF n, of "Stored (x\<lparr>rnd_id := i\<rparr>)"] update_run_history [OF ok update(1)] update(2)
      by (intro race_step [OF inv n]) (simp_all add: wrote_def update_run_inv [OF I(2) u] run_statements_repos(1) [OF u])
  next
    case insert
    have "rnd_repo x \<in> rp_id ` set (t_repos (w_db w))" using I(3) n(2) by simp
    then obtain k where "r = Inr (x\<lparr>rnd_id := k\<rparr>)" "able w'" and u: "insert_run (new_run_row k x) (w_db w) = Inr (w_db w')"
      using write_run_inserts [OF I(1) insert(2)] run insert(1) by auto
    then show ?thesis
      using stored_update [OF n, of "Stored (x\<lparr>rnd_id := k\<rparr>)"] insert_run_history [OF ok u] ids_persist(2) [OF u]
      by (intro race_step [OF inv n]) (simp_all add: wrote_def insert_run_inv [OF I(2) u] run_statements_repos(2) [OF u])
  next
    case lost
    then have "r = Inl lost_race" "w' = step_world (step_world w)"
      using write_run_loses [OF I(1) lost(2)] run by simp_all
    moreover have "hi_runs h (run_of x) = None" "run_of x \<in> run_of ` set (stored us)"
      using sound lost I(5) [of "run_of x"] by auto
    ultimately show ?thesis
      using stored_update [OF n, of "Refused x lost_race"] I(1,2) mset_eq_setD [of "stored (us[n := Refused x lost_race])" "stored us"]
      by (intro race_step [OF inv n]) (simp_all add: wrote_def)
  qed
qed

subsection \<open>Every schedule\<close>

lemma turn_inv: "race_inv ae key h s \<Longrightarrow> race_inv ae key h (upsert_turn n s)"
  by (cases s) (auto simp: Let_def looked_inv wrote_inv split: upsert.split prod.split)

lemma turns_inv: "race_inv ae key h s \<Longrightarrow> race_inv ae key h (fold upsert_turn ns s)"
  by (induction ns arbitrary: s) (simp_all add: turn_inv)

lemma turn_calls: "map (run_of \<circ> upserted) (snd (upsert_turn n s)) = map (run_of \<circ> upserted) (snd s)"
proof (cases s)
  case (Pair w us)
  have "run_of (upserted (looked x r)) = run_of x" for x r by (simp add: looked_def split: sum.split)
  moreover have "write_run x i w = (Inr y, w') \<Longrightarrow> run_of y = run_of x" for x i y w'
    by (auto simp: write_run_def bindE_eq_Inr split: if_splits)
  then have "write_run x i w = (r, w') \<Longrightarrow> run_of (upserted (wrote x r)) = run_of x" for x i r w'
    by (cases r) (simp_all add: wrote_def)
  moreover have "us ! n = u \<Longrightarrow> run_of (upserted v) = run_of (upserted u) \<Longrightarrow>
      map (run_of \<circ> upserted) (us[n := v]) = map (run_of \<circ> upserted) us" for u v
    by (cases "n < length us") (simp_all add: map_update list_update_same_conv list_update_beyond)
  ultimately show ?thesis
    by (auto simp: Pair Let_def split: upsert.split prod.split)
qed

lemma turn_counts:
  assumes "k < length (snd s)"
  shows "turns_left (snd (upsert_turn n s) ! k) \<le> turns_left (snd s ! k) - (if n = k then 1 else 0)"
proof -
  obtain w us where s: "s = (w, us)" by (cases s)
  have "turns_left (looked x r) \<le> 1" "turns_left (wrote x q) = 0" for x r q
    by (simp_all add: looked_def wrote_def split: sum.split)
  then show ?thesis
    using assms by (auto simp: s Let_def nth_list_update split: upsert.split prod.split)
qed

lemma turn_length [simp]: "length (snd (upsert_turn n s)) = length (snd s)"
  using arg_cong [OF turn_calls, of length] by simp

lemma turns_count:
  "k < length (snd s) \<Longrightarrow> turns_left (snd (fold upsert_turn ns s) ! k) \<le> turns_left (snd s ! k) - count_list ns k"
proof (induction ns arbitrary: s)
  case (Cons n ns)
  show ?case using Cons.IH [of "upsert_turn n s"] turn_counts [OF Cons.prems, of n] Cons.prems by (auto split: if_splits)
qed simp

lemma turns_calls: "map (run_of \<circ> upserted) (snd (fold upsert_turn ns s)) = map (run_of \<circ> upserted) (snd s)"
  by (induction ns arbitrary: s) (simp_all only: fold_simps turn_calls)

lemma race_start:
  "ingest_inv ae key (w_db w) \<Longrightarrow> able w \<Longrightarrow> \<forall>x \<in> set xs. rnd_repo x \<in> rp_id ` set (t_repos (w_db w)) \<Longrightarrow>
   race_inv ae key (history_of (w_db w)) (w, map Waiting xs)"
proof -
  have "stored (map Waiting xs) = []" by (induction xs) simp_all
  then show "ingest_inv ae key (w_db w) \<Longrightarrow> able w \<Longrightarrow> \<forall>x \<in> set xs. rnd_repo x \<in> rp_id ` set (t_repos (w_db w)) \<Longrightarrow>
     race_inv ae key (history_of (w_db w)) (w, map Waiting xs)"
    unfolding race_inv_def by auto
qed

text \<open>It does fail, whenever two deliveries of a new run look it up before either of them writes.\<close>

lemma overlapping_inserts:
  assumes w: "able w" and new: "find_run (run_of x) (w_db w) = None" and same: "run_of y = run_of x"
    and repo: "rnd_repo x \<in> rp_id ` set (t_repos (w_db w))"
  shows "\<exists>w' i. fold upsert_turn [0, 1, 0, 1] (w, [Waiting x, Waiting y]) = (w', [Stored (x\<lparr>rnd_id := i\<rparr>), Refused y lost_race])"
proof -
  let ?w = "step_world (step_world w)"
  have look: "look_up_run x w = (Inr [], step_world w)" "look_up_run y (step_world w) = (Inr [], ?w)"
    using look_up_run_quiet [OF able_free [OF w], of x] look_up_run_quiet [OF able_free [OF able_step [OF w]], of y] new same
    by simp_all
  obtain i w3 where put: "write_run x [] ?w = (Inr (x\<lparr>rnd_id := i\<rparr>), w3)" and "able w3"
    and db: "w_db w3 = (w_db w)\<lparr>t_runs := t_runs (w_db w) @ [new_run_row i x]\<rparr>"
    using write_run_inserts [where w = ?w and x = x, OF able_step [OF able_step [OF w]], unfolded step_world_simps, OF new repo]
    by blast
  have "find_run (run_of x) (w_db w3) = Some (new_run_row i x)"
    using new by (simp add: find_run_def db find_append run_key_def new_run_row_def)
  then have "write_run y [] w3 = (Inl lost_race, step_world (step_world w3))"
    using write_run_loses [OF \<open>able w3\<close>, of y] same by simp
  with look put have "fold upsert_turn [0, 1, 0, 1] (w, [Waiting x, Waiting y]) =
      (step_world (step_world w3), [Stored (x\<lparr>rnd_id := i\<rparr>), Refused y lost_race])"
    by (simp add: looked_def wrote_def)
  then show ?thesis by blast
qed

text \<open>
  C13: upserts of runs that overlap. Take any number of upserts of runs of tracked repositories, in
  progress at the same time and with their statements in any order. Each ends within two
  turns. What is stored then is what the successful ones give one after another, in some order. One
  can fail, and only in one way: the run was not stored when they began, another upsert of the same run
  has stored it since the lookup, and the insert violates the uniqueness of the run.
\<close>

theorem upserts_interleave:
  assumes "ingest_inv ae key (w_db w)" and "able w"
    and "\<forall>x \<in> set xs. rnd_repo x \<in> rp_id ` set (t_repos (w_db w))"
    and run: "fold upsert_turn schedule (w, map Waiting xs) = (w', us)"
  shows "map (run_of \<circ> upserted) us = map run_of xs \<and>
    (\<forall>k < length xs. 2 \<le> count_list schedule k \<longrightarrow> turns_left (us ! k) = 0) \<and>
    (\<exists>order. mset order = mset (stored us) \<and> history_of (w_db w') = fold put_run order (history_of (w_db w))) \<and>
    (\<forall>x e. Refused x e \<in> set us \<longrightarrow>
       e = lost_race \<and> hi_runs (history_of (w_db w)) (run_of x) = None \<and> run_of x \<in> run_of ` set (stored us))"
proof (intro conjI allI impI)
  have calls: "map (run_of \<circ> upserted) us = map (run_of \<circ> upserted) (map Waiting xs)"
    using turns_calls [of schedule "(w, map Waiting xs)"] run by simp
  then show "map (run_of \<circ> upserted) us = map run_of xs" by (simp add: comp_def)
  show "turns_left (us ! k) = 0" if "k < length xs" "2 \<le> count_list schedule k" for k
    using turns_count [of k "(w, map Waiting xs)" schedule] that run by simp
  have inv: "race_inv ae key (history_of (w_db w)) (w', us)"
    using turns_inv [OF race_start [OF assms(1-3)], of schedule] by (simp only: run)
  then show "\<exists>order. mset order = mset (stored us) \<and> history_of (w_db w') = fold put_run order (history_of (w_db w))"
    by (auto simp: race_inv_def)
  fix x e assume "Refused x e \<in> set us"
  with inv have "upsert_sound (history_of (w_db w)) (w_db w') (stored us) (Refused x e)" by (auto simp: race_inv_def)
  then show "e = lost_race" "hi_runs (history_of (w_db w)) (run_of x) = None" "run_of x \<in> run_of ` set (stored us)" by auto
qed

text \<open>
  Both deliveries of a run that is new, interleaved at their lookups: the second write fails, and
  what it says of the run is lost.
\<close>

definition first_delivery :: run_data where
  "first_delivery = run_of_snapshot ''id'' demo_snapshot"

definition second_delivery :: run_data where
  "second_delivery = first_delivery\<lparr>rnd_status := ''completed''\<rparr>"

theorem upserts_interleave_witness:
  "\<exists>w' us. fold upsert_turn [0, 1, 0, 1] (polled, [Waiting first_delivery, Waiting second_delivery]) = (w', us) \<and>
     us ! 1 = Refused second_delivery lost_race \<and> hi_runs (history_of (w_db polled)) (run_of second_delivery) = None \<and>
     run_of second_delivery \<in> run_of ` set (stored us)"
proof -
  let ?xs = "[first_delivery, second_delivery]"
  have tables: "t_runs (w_db polled) = []" "rp_id ` set (t_repos (w_db polled)) = {''id''}"
    by (simp_all add: polled_def tracked_def tracked_db_def empty_db_def)
  have "rnd_repo first_delivery = ''id''" "rnd_repo second_delivery = ''id''"
    by (simp_all add: first_delivery_def second_delivery_def run_of_snapshot_def)
  then have repos: "\<forall>x \<in> set ?xs. rnd_repo x \<in> rp_id ` set (t_repos (w_db polled))"
    by (simp add: tables)
  have same: "run_of second_delivery = run_of first_delivery" by (simp add: second_delivery_def)
  have new: "find_run (run_of first_delivery) (w_db polled) = None" by (simp add: find_run_def tables)
  obtain w' i where run: "fold upsert_turn [0, 1, 0, 1] (polled, map Waiting ?xs) =
      (w', [Stored (first_delivery\<lparr>rnd_id := i\<rparr>), Refused second_delivery lost_race])"
    using overlapping_inserts [OF polled_able new same bspec [OF repos]] by auto
  have inv: "ingest_inv demo_aead demo_key (w_db polled)" using tracked_inv by (simp add: polled_def)
  note all = upserts_interleave [OF inv polled_able repos run]
  have "Refused second_delivery lost_race \<in> set [Stored (first_delivery\<lparr>rnd_id := i\<rparr>), Refused second_delivery lost_race]"
    by simp
  with all have "hi_runs (history_of (w_db polled)) (run_of second_delivery) = None \<and>
      run_of second_delivery \<in> run_of ` set (stored [Stored (first_delivery\<lparr>rnd_id := i\<rparr>), Refused second_delivery lost_race])"
    by blast
  moreover have "[Stored (first_delivery\<lparr>rnd_id := i\<rparr>), Refused second_delivery lost_race] ! 1 =
      Refused second_delivery lost_race" by simp
  ultimately show ?thesis using run unfolding list.map by blast
qed

end
