(* ===== verification/Deliveries.thy ===== *)
theory Deliveries
  imports IngestionOps
begin

text \<open>
  What one verified GitHub delivery does to the stored history: a \<open>workflow_run\<close> event is one
  update of its run, a \<open>workflow_job\<close> event one update of its parent run, its job and its steps.
\<close>

definition run_of_event :: "repo \<Rightarrow> workflow_run_event \<Rightarrow> run_data" where
  "run_of_event r e =
     \<lparr> rnd_id = [], rnd_repo = tr_id r, rnd_forge_run = itoa (we_id e), rnd_pipeline = we_name e,
       rnd_status = we_status e, rnd_conclusion = we_conclusion e, rnd_started = parse_time (we_started e),
       rnd_completed = (if we_status e = ''completed'' then parse_time (we_updated e) else None),
       rnd_url = we_url e, rnd_branch = we_branch e, rnd_sha = we_sha e,
       rnd_message = first_line (we_message e), rnd_actor = we_actor e \<rparr>"

definition record_job_event :: "repo \<Rightarrow> workflow_job_event \<Rightarrow> history \<Rightarrow> history" where
  "record_job_event r e h =
     (let k = ((tr_id r, itoa (wj_run e)), itoa (wj_id e))
      in put_steps k (map event_step (wj_steps e)) (put_job k (event_job [] e) (put_run (stub_run r e) h)))"

definition record_delivery ::
  "(string \<Rightarrow> workflow_run_event res) \<Rightarrow> (string \<Rightarrow> workflow_job_event res) \<Rightarrow> repo \<Rightarrow> string \<Rightarrow> string \<Rightarrow> history \<Rightarrow> history" where
  "record_delivery dr dj r event payload h =
     (if event = ''workflow_run'' then (case dr payload of Inl _ \<Rightarrow> h | Inr e \<Rightarrow> put_run (run_of_event r e) h)
      else if event = ''workflow_job'' then (case dj payload of Inl _ \<Rightarrow> h | Inr e \<Rightarrow> record_job_event r e h)
      else h)"

text \<open>A run that reads as one still in progress, of which neither times nor page are known.\<close>

definition reopened :: "run_row \<Rightarrow> bool" where
  "reopened x \<longleftrightarrow> ru_status x = ''in_progress'' \<and> ru_conclusion x = None \<and> ru_started x = None \<and>
     ru_completed x = None \<and> ru_url x = []"

lemma liftE_Inr: "liftE x w = (Inr y, w') \<longleftrightarrow> x = Inr y \<and> w' = w"
  by (auto simp: liftE_def)

lemma workflow_run_history:
  assumes inv: "ingest_inv ae key (w_db w)"
    and run: "process_workflow_run dr sql_runstore r payload w = (Inr (), w')"
  shows "\<exists>e. dr payload = Inr e \<and> history_of (w_db w') = put_run (run_of_event r e) (history_of (w_db w))"
proof -
  obtain e y where e: "dr payload = Inr e" and "sql_upsert_run (run_of_event r e) w = (Inr y, w')"
    using run by (auto simp: process_workflow_run_def sql_runstore_def run_of_event_def Let_def bindE_eq_Inr liftE_Inr retE_def)
  with upsert_run_history [OF ingest_run_tables [OF inv]] show ?thesis by blast
qed

lemma put_job_event: "put_job k (event_job i e) h = put_job k (event_job [] e) h"
  by (cases "hi_jobs h k") (simp_all add: put_job_def new_job_row_def updated_job_def event_job_def)

lemma workflow_job_history:
  assumes inv: "ingest_inv ae key (w_db w)"
    and run: "process_workflow_job dj sql_runstore r payload w = (Inr (), w')"
  shows "\<exists>e. dj payload = Inr e \<and> history_of (w_db w') = record_job_event r e (history_of (w_db w))"
proof -
  obtain e y z w1 w2 where e: "dj payload = Inr e" and 1: "sql_upsert_run (stub_run r e) w = (Inr y, w1)"
    and 2: "sql_upsert_job (event_job (rnd_id y) e) w1 = (Inr z, w2)"
    and 3: "sql_replace_steps (jd_id z) (map event_step (wj_steps e)) w2 = (Inr (), w')"
    using run by (auto simp: process_workflow_job_def sql_runstore_def bindE_eq_Inr liftE_Inr)
  let ?k = "(tr_id r, itoa (wj_run e))" and ?x = "event_job (rnd_id y) e"
  have k: "(rnd_repo (stub_run r e), rnd_forge_run (stub_run r e)) = ?k"
    and x: "jd_run ?x = rnd_id y" "jd_forge_job ?x = itoa (wj_id e)"
    by (simp_all add: stub_run_def event_job_def)
  obtain row where h1: "history_of (w_db w1) = put_run (stub_run r e) (history_of (w_db w))"
    and row: "find_run ?k (w_db w1) = Some row" "ru_id row = jd_run ?x"
    using upsert_run_history [OF ingest_run_tables [OF inv] 1] k x(1) by auto
  have inv1: "ingest_inv ae key (w_db w1)"
    using keepsD [OF sql_ingest.keeps_run [of ae key "stub_run r e"], of w] inv 1 by (simp add: sql_runstore_def)
  have inv2: "ingest_inv ae key (w_db w2)"
    using keepsD [OF sql_ingest.keeps_job [of ae key ?x], of w1] inv1 2 by (simp add: sql_runstore_def)
  obtain j where h2: "history_of (w_db w2) = put_job (?k, itoa (wj_id e)) ?x (history_of (w_db w1))"
    and j: "find_job (?k, itoa (wj_id e)) (w_db w2) = Some j" "jo_id j = jd_id z"
    using upsert_job_history [OF ingest_run_tables [OF inv1] row 2] x(2) by auto
  have "history_of (w_db w') = put_steps (?k, itoa (wj_id e)) (map event_step (wj_steps e)) (history_of (w_db w2))"
    using replace_steps_history [OF ingest_run_tables [OF inv2] j(1), unfolded j(2), OF 3] by simp
  with e h1 h2 show ?thesis
    by (simp add: record_job_event_def Let_def put_job_event [of _ "rnd_id y"])
qed

lemma job_event_reopens:
  "\<exists>x. hi_runs (record_job_event r e h) (tr_id r, itoa (wj_run e)) = Some x \<and> reopened x"
  by (cases "hi_runs h (tr_id r, itoa (wj_run e))")
    (simp_all add: record_job_event_def Let_def put_steps_def put_job_def put_run_def stub_run_def
      reopened_def new_run_row_def updated_run_def nullable_def)

text \<open>
  C12: a delivery whose processing succeeds is one update of the history: a \<open>workflow_run\<close> event
  writes its run (completion time only once completed, known commit metadata kept where the event
  has none), a \<open>workflow_job\<close> event its parent run, the job and its steps, and every other event
  nothing. After a \<open>workflow_job\<close> event the parent run always reads as one in progress with no
  conclusion, times or page, also where it was stored as completed before.
\<close>

theorem deliveries_refine:
  assumes "ingest_inv ae key (w_db w)"
    and "process_github_event dr dj sql_runstore r event payload w = (Inr (), w')"
  shows "history_of (w_db w') = record_delivery dr dj r event payload (history_of (w_db w)) \<and>
    ingest_inv ae key (w_db w') \<and>
    (event = ''workflow_job'' \<longrightarrow>
      (\<exists>e x. dj payload = Inr e \<and> hi_runs (history_of (w_db w')) (tr_id r, itoa (wj_run e)) = Some x \<and> reopened x))"
proof -
  have inv: "ingest_inv ae key (w_db w')"
    using keepsD [OF sql_ingest.webhook_keeps [of ae key dr dj r event payload], of w] assms by simp
  consider "event = ''workflow_run''" | "event = ''workflow_job''"
    | "event \<noteq> ''workflow_run''" "event \<noteq> ''workflow_job''" by blast
  then show ?thesis
  proof cases
    case 1
    with assms(2) workflow_run_history [OF assms(1), of dr r payload w'] inv show ?thesis
      by (auto simp: process_github_event_def record_delivery_def)
  next
    case 2
    with assms(2) workflow_job_history [OF assms(1), of dj r payload w'] job_event_reopens inv show ?thesis
      by (auto simp: process_github_event_def record_delivery_def)
  next
    case 3
    with assms inv show ?thesis
      by (simp add: process_github_event_def record_delivery_def retE_def)
  qed
qed

definition demo_job_event :: workflow_job_event where
  "demo_job_event = \<lparr> wj_id = 8, wj_run = 7, wj_workflow = ''ci'', wj_name = ''build'', wj_status = ''completed'',
     wj_conclusion = ''success'', wj_created = [], wj_started = [], wj_completed = [], wj_url = [],
     wj_steps = [\<lparr> je_name = ''test'', je_status = ''completed'', je_conclusion = ''success'', je_number = 1,
       je_started = [], je_completed = [] \<rparr>] \<rparr>"

definition deliver_demo :: "string \<Rightarrow> unit io" where
  "deliver_demo event =
     process_github_event (\<lambda>_. Inr (demo_event\<lparr>we_started := [], we_updated := []\<rparr>)) (\<lambda>_. Inr demo_job_event) sql_runstore demo_repo event []"

lemma succeeded: "\<not> isl (fst x) \<Longrightarrow> x = (Inr (), snd x)"
  by (cases x; cases "fst x") auto

theorem deliveries_refine_witness:
  "\<exists>w1 w2. deliver_demo ''workflow_run'' tracked = (Inr (), w1) \<and>
     map_option ru_status (hi_runs (history_of (w_db w1)) (''id'', ''7'')) = Some ''completed'' \<and>
     deliver_demo ''workflow_job'' w1 = (Inr (), w2) \<and>
     map_option ru_status (hi_runs (history_of (w_db w2)) (''id'', ''7'')) = Some ''in_progress''"
proof -
  define w1 where "w1 = snd (deliver_demo ''workflow_run'' tracked)"
  define w2 where "w2 = snd (deliver_demo ''workflow_job'' w1)"
  have "\<not> isl (fst (deliver_demo ''workflow_run'' tracked))" by code_simp
  then have 1: "deliver_demo ''workflow_run'' tracked = (Inr (), w1)" unfolding w1_def by (rule succeeded)
  have "\<not> isl (fst (deliver_demo ''workflow_job'' w1))" unfolding w1_def by code_simp
  then have 2: "deliver_demo ''workflow_job'' w1 = (Inr (), w2)" unfolding w2_def by (rule succeeded)
  note r1 = deliveries_refine [OF tracked_inv 1 [unfolded deliver_demo_def]]
  then have inv: "ingest_inv demo_aead demo_key (w_db w1)" by simp
  have "map_option ru_status (hi_runs (history_of (w_db w1)) (''id'', ''7'')) = Some ''completed''"
    unfolding r1 [THEN conjunct1] by code_simp
  moreover have k: "itoa (wj_run demo_job_event) = ''7''" "tr_id demo_repo = ''id''" by code_simp+
  have "map_option ru_status (hi_runs (history_of (w_db w2)) (''id'', ''7'')) = Some ''in_progress''"
    using deliveries_refine [OF inv 2 [unfolded deliver_demo_def]] by (auto simp: k reopened_def)
  ultimately show ?thesis using 1 2 by blast
qed

end
