(* ===== verification/Lifecycle.thy ===== *)
theory Lifecycle
  imports ServerOps
begin

text \<open>
  The life of the process (\<open>runServe\<close>, \<open>serveUntilDone\<close>, \<open>Reconciler.Run\<close>): startup as a chain
  of fallible stages, then one step relation in which requests, reconciliation passes, the
  signal and the shutdown interleave. A request and a pass are one step each.
\<close>

subsection \<open>Startup\<close>

text \<open>What the libraries and the operating system answer while the program starts.\<close>

record ('c, 's) libs =
  lb_level :: "string \<Rightarrow> int option"
  lb_dir_of :: "string \<Rightarrow> string"
  lb_os :: os_answers
  lb_sql_open :: "string \<Rightarrow> string option"
  lb_migrations :: "string option"
  lb_provider :: "string option"
  lb_up :: "string option"
  lb_parse_url :: "string \<Rightarrow> string + string"
  lb_hostname :: "string \<Rightarrow> string + string"
  lb_webauthn :: "string \<Rightarrow> string \<Rightarrow> string list \<Rightarrow> string + ('c, 's) webauthn"
  lb_assets :: "string + file_system"
  lb_listen :: "string \<Rightarrow> string option"
  lb_aead :: aead
  lb_sha :: "string \<Rightarrow> string"
  lb_order :: "patch \<Rightarrow> patch"
  lb_github :: github_client
  lb_forgejo :: forgejo_client
  lb_version :: string

datatype boot_error = BadConfig config_error | Preflight dir_error | Failed string

text \<open>Each stage runs only when those before it succeeded.\<close>

definition stage :: "('e + 'a) \<Rightarrow> ('a \<Rightarrow> 'e + 'b) \<Rightarrow> 'e + 'b" where
  "stage r f = (case r of Inl e \<Rightarrow> Inl e | Inr x \<Rightarrow> f x)"

definition failing :: "string \<Rightarrow> string option \<Rightarrow> boot_error + unit" where
  "failing what e = (case e of None \<Rightarrow> Inr () | Some m \<Rightarrow> Inl (Failed (what @ '': '' @ m)))"

definition wrapping :: "string \<Rightarrow> string + 'a \<Rightarrow> string + 'a" where
  "wrapping what r = (case r of Inl m \<Rightarrow> Inl (what @ '': '' @ m) | Inr x \<Rightarrow> Inr x)"

text \<open>\<open>db.Open\<close> and \<open>db.Migrate\<close>; foreign keys are switched on in the source name.\<close>

definition db_open :: "(string \<Rightarrow> string option) \<Rightarrow> string \<Rightarrow> string option" where
  "db_open sql_open path =
     map_option (\<lambda>m. ''open sqlite database: '' @ m)
       (sql_open (path @ ''?_pragma=foreign_keys(1)&_pragma=busy_timeout(5000)''))"

definition db_migrate :: "('c, 's) libs \<Rightarrow> string option" where
  "db_migrate lb =
     (case lb_migrations lb of
        Some m \<Rightarrow> Some (''resolve migrations directory: '' @ m)
      | None \<Rightarrow>
          (case lb_provider lb of
             Some m \<Rightarrow> Some (''create migration provider: '' @ m)
           | None \<Rightarrow> map_option (\<lambda>m. ''apply migrations: '' @ m) (lb_up lb)))"

definition github_new_client :: "(string \<Rightarrow> string + string) \<Rightarrow> github_client \<Rightarrow> string \<Rightarrow> string + github_client" where
  "github_new_client parse g base =
     (if base = [] then Inr (g\<lparr>gc_base := None\<rparr>)
      else stage (wrapping ''parse base url'' (parse base)) (\<lambda>u. Inr (g\<lparr>gc_base := Some u\<rparr>)))"

definition new_forge_clients :: "('c, 's) libs \<Rightarrow> string + github_client \<times> forgejo_client" where
  "new_forge_clients lb =
     stage (wrapping ''create github client'' (github_new_client (lb_parse_url lb) (lb_github lb) []))
       (\<lambda>g. Inr (g, lb_forgejo lb))"

definition new_webauthn :: "('c, 's) libs \<Rightarrow> string \<Rightarrow> string + ('c, 's) webauthn" where
  "new_webauthn lb callback =
     stage (wrapping ''parse callback url'' (lb_hostname lb callback)) (\<lambda>host.
       wrapping ''create webauthn instance'' (lb_webauthn lb host ''pipeline-analytics'' [callback]))"

text \<open>The flag that \<open>/readyz\<close> looks at is shared: the handler is built once, for every value of it.\<close>

definition build_handler ::
  "('c, 's) libs \<Rightarrow> config \<Rightarrow> github_client \<Rightarrow> forgejo_client \<Rightarrow> string + (bool \<Rightarrow> ('c, 's) deps)" where
  "build_handler lb c g f =
     stage (wrapping ''configure webauthn'' (new_webauthn lb (cf_callback c))) (\<lambda>wa.
     stage (wrapping ''load embedded frontend'' (wrapping ''root embedded frontend at dist'' (lb_assets lb))) (\<lambda>assets.
       Inr (\<lambda>draining. build_deps (lb_aead lb) (lb_sha lb) wa (lb_order lb) g f c draining (lb_version lb) assets)))"

record ('c, 's) program =
  pg_config :: config
  pg_deps :: "bool \<Rightarrow> ('c, 's) deps"
  pg_clients :: clients

definition run_serve :: "('c, 's) libs \<Rightarrow> raw_config \<Rightarrow> boot_error + ('c, 's) program" where
  "run_serve lb raw =
     stage (map_sum BadConfig id (load_config (lb_level lb) raw)) (\<lambda>c.
     stage (case check_dir (lb_dir_of lb) (lb_os lb) (cf_db c) of Some e \<Rightarrow> Inl (Preflight e) | None \<Rightarrow> Inr ()) (\<lambda>_.
     stage (failing ''open database'' (db_open (lb_sql_open lb) (cf_db c))) (\<lambda>_.
     stage (failing ''migrate database'' (db_migrate lb)) (\<lambda>_.
     stage (map_sum Failed id (new_forge_clients lb)) (\<lambda>(g, f).
     stage (map_sum Failed id (build_handler lb c g f)) (\<lambda>deps.
     stage (failing (''listen on '' @ cf_addr c) (lb_listen lb (cf_addr c))) (\<lambda>_.
       Inr \<lparr> pg_config = c, pg_deps = deps, pg_clients = forge_clients g f \<rparr>)))))))"

subsection \<open>The running program\<close>

datatype phase = Serving | Draining | ShuttingDown | Exited "string option"

text \<open>
  \<open>ps_cancelled\<close> is the signal context, \<open>ps_draining\<close> the shared flag, \<open>ps_polling\<close> whether the
  scheduler's goroutine is alive, \<open>ps_polled\<close> whether its first pass is over; \<open>ps_trace\<close> is
  what the shutdown has done.
\<close>

record process =
  ps_phase :: phase
  ps_cancelled :: bool
  ps_draining :: bool
  ps_polling :: bool
  ps_polled :: bool
  ps_trace :: "shutdown_action list"
  ps_world :: world

definition launched :: "world \<Rightarrow> process" where
  "launched w = \<lparr> ps_phase = Serving, ps_cancelled = False, ps_draining = False, ps_polling = True,
     ps_polled = False, ps_trace = [], ps_world = w \<rparr>"

definition process_answer :: "platform \<Rightarrow> ('c, 's) program \<Rightarrow> request \<Rightarrow> process \<Rightarrow> (goerr + reply \<times> log_record option) \<times> world" where
  "process_answer pt pg q s = server pt (pg_deps pg (ps_draining s)) q (ps_world s)"

definition poll_pass :: "('c, 's) program \<Rightarrow> process \<Rightarrow> world" where
  "poll_pass pg s =
     snd (reconcile_all (dp_repos (pg_deps pg False)) (dp_runs (pg_deps pg False)) (pg_clients pg) (ps_world s))"

inductive process_step :: "platform \<Rightarrow> ('c, 's) program \<Rightarrow> process \<Rightarrow> process \<Rightarrow> bool"
  for pt :: platform and pg :: "('c, 's) program" where
  step_request: "ps_phase s = Serving \<or> ps_phase s = Draining \<Longrightarrow>
    process_step pt pg s (s\<lparr>ps_world := snd (process_answer pt pg q s)\<rparr>)"
| step_first_poll: "ps_polling s \<Longrightarrow> \<not> ps_polled s \<Longrightarrow>
    process_step pt pg s (s\<lparr>ps_polled := True, ps_world := poll_pass pg s\<rparr>)"
| step_tick: "ps_polling s \<Longrightarrow> ps_polled s \<Longrightarrow>
    process_step pt pg s (s\<lparr>ps_world := poll_pass pg s\<rparr>)"
| step_poll_ends: "ps_polling s \<Longrightarrow> ps_polled s \<Longrightarrow> ps_cancelled s \<Longrightarrow>
    process_step pt pg s (s\<lparr>ps_polling := False\<rparr>)"
| step_signal: "process_step pt pg s (s\<lparr>ps_cancelled := True\<rparr>)"
| step_drain: "ps_phase s = Serving \<Longrightarrow> ps_cancelled s \<Longrightarrow>
    process_step pt pg s (s\<lparr>ps_phase := Draining, ps_draining := True, ps_trace := [SetDraining]\<rparr>)"
| step_drained: "ps_phase s = Draining \<Longrightarrow>
    process_step pt pg s (s\<lparr>ps_phase := ShuttingDown,
      ps_trace := ps_trace s @ [SleepFor (cf_drain (pg_config pg)), ShutdownWithin (cf_shutdown (pg_config pg))]\<rparr>)"
| step_shut: "ps_phase s = ShuttingDown \<Longrightarrow>
    process_step pt pg s (s\<lparr>ps_phase := Exited (map_option (\<lambda>m. ''shutdown: '' @ m) e), ps_polling := False\<rparr>)"
| step_serve_ends: "ps_phase s = Serving \<Longrightarrow>
    process_step pt pg s (s\<lparr>ps_phase := Exited (map_option (\<lambda>m. ''serve: '' @ m) e), ps_cancelled := True, ps_polling := False\<rparr>)"

inductive_simps process_step_iff: "process_step pt pg s t"

abbreviation running :: "platform \<Rightarrow> ('c, 's) program \<Rightarrow> world \<Rightarrow> process \<Rightarrow> bool" where
  "running pt pg w s \<equiv> (process_step pt pg)\<^sup>*\<^sup>* (launched w) s"

subsection \<open>Startup lemmas\<close>

lemma stage_Inr: "stage r f = Inr y \<longleftrightarrow> (\<exists>x. r = Inr x \<and> f x = Inr y)"
  by (cases r) (simp_all add: stage_def)

lemma map_sum_Inr: "map_sum h id r = Inr x \<longleftrightarrow> r = Inr x"
  by (cases r) simp_all

lemma failing_Inr: "failing what e = Inr u \<longleftrightarrow> e = None"
  by (cases e) (simp_all add: failing_def)

text \<open>A program that runs has a valid configuration and is wired by \<open>build_deps\<close>.\<close>

definition wired_as :: "('c, 's) libs \<Rightarrow> ('c, 's) program \<Rightarrow> bool" where
  "wired_as lb pg \<longleftrightarrow> validate (pg_config pg) = None \<and> (\<exists>wa g f a.
     pg_deps pg = (\<lambda>draining. build_deps (lb_aead lb) (lb_sha lb) wa (lb_order lb) g f (pg_config pg) draining (lb_version lb) a) \<and>
     pg_clients pg = forge_clients g f)"

lemma load_config_valid: "load_config level raw = Inr c \<Longrightarrow> validate c = None"
  by (auto simp: load_config_def Let_def split: option.splits)

lemma build_handler_Inr:
  "build_handler lb c g f = Inr deps \<Longrightarrow>
   \<exists>wa a. deps = (\<lambda>dr. build_deps (lb_aead lb) (lb_sha lb) wa (lb_order lb) g f c dr (lb_version lb) a)"
  by (auto simp: build_handler_def stage_Inr)

lemma run_serve_wired: "run_serve lb raw = Inr pg \<Longrightarrow> wired_as lb pg"
  unfolding run_serve_def stage_Inr map_sum_Inr wired_as_def
  by (fastforce dest: load_config_valid build_handler_Inr simp: stage_Inr map_sum_Inr)

subsection \<open>What every step keeps\<close>

definition shutdown_trace :: "config \<Rightarrow> shutdown_action list" where
  "shutdown_trace c = [SetDraining, SleepFor (cf_drain c), ShutdownWithin (cf_shutdown c)]"

definition phase_ok :: "config \<Rightarrow> process \<Rightarrow> bool" where
  "phase_ok c s =
     (case ps_phase s of
        Serving \<Rightarrow> \<not> ps_draining s \<and> ps_trace s = []
      | Draining \<Rightarrow> ps_draining s \<and> ps_cancelled s \<and> ps_trace s = [SetDraining]
      | ShuttingDown \<Rightarrow> ps_draining s \<and> ps_cancelled s \<and> ps_trace s = shutdown_trace c
      | Exited e \<Rightarrow> \<not> ps_polling s \<and> ps_cancelled s \<and> (\<exists>shut ev. serve_until_done c shut ev = (ps_trace s, e)))"

lemma phase_ok_launched: "phase_ok c (launched w)"
  by (simp add: phase_ok_def launched_def)

lemma phase_ok_step:
  assumes "process_step pt pg s t" and "phase_ok (pg_config pg) s"
  shows "phase_ok (pg_config pg) t"
  using assms
proof cases
  case (step_shut e)
  then have "serve_until_done (pg_config pg) (\<lambda>_. e) ContextDone = (ps_trace t, map_option (\<lambda>m. ''shutdown: '' @ m) e)"
    using assms(2) by (simp add: phase_ok_def serve_until_done_def shutdown_trace_def del: append_Cons append_Nil)
  with step_shut assms(2) show ?thesis by (fastforce simp: phase_ok_def simp del: append_Cons append_Nil)
next
  case (step_serve_ends e)
  then have "serve_until_done (pg_config pg) (\<lambda>_. e) (ServeEnds e) = (ps_trace t, map_option (\<lambda>m. ''serve: '' @ m) e)"
    using step_serve_ends assms(2) by (simp add: phase_ok_def serve_until_done_def del: append_Cons append_Nil)
  with step_serve_ends show ?thesis by (fastforce simp: phase_ok_def simp del: append_Cons append_Nil)
qed (auto simp: phase_ok_def shutdown_trace_def split: phase.splits)

lemma answer_keeps:
  assumes "wired_as lb pg" and "permuting (lb_order lb)" and "permuting o2"
    and "sound_platform (\<lambda>ups. distinct (map fst ups)) o2 pt"
    and "server_inv (lb_aead lb) (cf_key (pg_config pg)) (w_db (ps_world s))"
  shows "server_inv (lb_aead lb) (cf_key (pg_config pg)) (w_db (snd (process_answer pt pg q s)))"
proof -
  have "sound_platform (good_patch (lb_order lb) o2) o2 pt" using assms(2-4) by (simp add: sound_platform_def)
  from keepsD [OF wired.keeps_server [OF this] assms(5)] show ?thesis
    using assms(1) by (auto simp: wired_as_def process_answer_def)
qed

lemma poll_keeps:
  assumes "wired_as lb pg" and "server_inv (lb_aead lb) (cf_key (pg_config pg)) (w_db (ps_world s))"
  shows "server_inv (lb_aead lb) (cf_key (pg_config pg)) (w_db (poll_pass pg s))"
proof -
  obtain g f where gf: "poll_pass pg s =
      snd (reconcile_all (sql_rstore (lb_aead lb) (cf_key (pg_config pg))) sql_runstore (forge_clients g f) (ps_world s))"
    using assms(1) by (auto simp: wired_as_def poll_pass_def)
  have "keeps (server_inv (lb_aead lb) (cf_key (pg_config pg)))
      (reconcile_all (sql_rstore (lb_aead lb) (cf_key (pg_config pg))) sql_runstore (forge_clients g f))"
    by (rule sql_whole.reconcile_all_keeps) (erule quiet_clients)
  from keepsD [OF this assms(2)] show ?thesis by (simp add: gf)
qed

lemma running_inv:
  assumes "wired_as lb pg" and "permuting (lb_order lb)" and "permuting o2"
    and "sound_platform (\<lambda>ups. distinct (map fst ups)) o2 pt"
    and start: "server_inv (lb_aead lb) (cf_key (pg_config pg)) (w_db w)"
    and "running pt pg w s"
  shows "server_inv (lb_aead lb) (cf_key (pg_config pg)) (w_db (ps_world s)) \<and> phase_ok (pg_config pg) s"
  using assms(6)
proof (induction rule: rtranclp_induct)
  case base
  then show ?case using start phase_ok_launched by (simp add: launched_def)
next
  case (step s t)
  have "phase_ok (pg_config pg) t" using phase_ok_step step.hyps(2) step.IH by blast
  moreover have "server_inv (lb_aead lb) (cf_key (pg_config pg)) (w_db (ps_world t))"
    using step.hyps(2)
  proof cases
    case (step_request q)
    with answer_keeps [OF assms(1-4)] step.IH show ?thesis by simp
  qed (use step.IH poll_keeps [OF assms(1)] in simp_all)
  ultimately show ?case by blast
qed

subsection \<open>The probe while draining\<close>

definition asks_ready :: "request \<Rightarrow> bool" where
  "asks_ready q \<longleftrightarrow> rq_raw q = [''readyz''] \<and> rq_length q \<le> max_api_body_bytes"

lemma ready_path: "asks_ready q \<Longrightarrow> rq_path q = ''/readyz''"
  by (simp add: asks_ready_def rq_path_def path_of_def)

lemma server_draining:
  assumes "asks_ready q" and "dp_draining dp"
  shows "server pt dp q w = (Inr (mark_noindex not_ready, None), w)"
proof -
  note path = ready_path [OF assms(1)]
  have route: "route_of dp q = (EReadyz, [])"
    using assms(1) by (simp add: asks_ready_def route_of_def routes_def method_ok_def)
  have raw: "clean_raw (rq_raw q)" using assms(1) by (simp add: asks_ready_def clean_raw_def dot_segment_def)
  show ?thesis
    using assms path route raw
    by (simp add: server_def noindex_def request_logger_def limit_bodies_def require_session_def is_public_path_def
      mux_def readyz_def asks_ready_def body_limit_for_def bindE_def retE_def mark_noindex_def)
qed

subsection \<open>The whole life\<close>

text \<open>
  C10: a program that started keeps its database intact and leaves in order. Whatever requests
  are answered and polls run in whatever order with the signal, with whatever faults: the
  integrity of the database holds at every moment; readiness is withdrawn before the drain
  begins and the listener closed only after the drain period; every request that asks for
  readiness meanwhile is answered 503; at the end the scheduler no longer polls and the actions
  and the error are those of \<open>serveUntilDone\<close>.
\<close>

theorem program_lifecycle:
  assumes "run_serve lb raw = Inr pg"
    and "permuting (lb_order lb)" and "permuting o2"
    and "sound_platform (\<lambda>ups. distinct (map fst ups)) o2 pt"
    and "server_inv (lb_aead lb) (cf_key (pg_config pg)) (w_db w)"
    and "running pt pg w s"
  shows "server_inv (lb_aead lb) (cf_key (pg_config pg)) (w_db (ps_world s)) \<and>
    phase_ok (pg_config pg) s \<and>
    (ps_draining s \<and> asks_ready q \<longrightarrow> process_answer pt pg q s = (Inr (mark_noindex not_ready, None), ps_world s))"
proof -
  note wired = run_serve_wired [OF assms(1)]
  have "dp_draining (pg_deps pg True)"
    using wired by (auto simp: wired_as_def build_deps_def Let_def)
  then have "process_answer pt pg q s = (Inr (mark_noindex not_ready, None), ps_world s)" if "ps_draining s" "asks_ready q"
    using that server_draining by (simp add: process_answer_def)
  with running_inv [OF wired assms(2-6)] show ?thesis by blast
qed

text \<open>How far the main goroutine is from its end.\<close>

definition stages_left :: "process \<Rightarrow> nat" where
  "stages_left s = (case ps_phase s of Serving \<Rightarrow> 3 | Draining \<Rightarrow> 2 | ShuttingDown \<Rightarrow> 1 | Exited _ \<Rightarrow> 0)"

lemma stages_left_step: "process_step pt pg s t \<Longrightarrow> stages_left t \<le> stages_left s"
  by (induction rule: process_step.induct) (auto simp: stages_left_def split: phase.split)

lemma shutting_exits:
  "ps_phase s = ShuttingDown \<Longrightarrow> \<exists>t. process_step pt pg s t \<and> ps_phase t = Exited None \<and> \<not> ps_polling t \<and> ps_trace t = ps_trace s"
  using step_shut [of s pt pg None] by fastforce

lemma draining_exits:
  assumes "ps_phase s = Draining"
  shows "\<exists>t. (process_step pt pg ^^ 2) s t \<and> ps_phase t = Exited None \<and> \<not> ps_polling t \<and>
    ps_trace t = ps_trace s @ tl (shutdown_trace (pg_config pg))"
proof -
  obtain u where u: "process_step pt pg s u" "ps_phase u = ShuttingDown"
      "ps_trace u = ps_trace s @ tl (shutdown_trace (pg_config pg))"
    using step_drained [OF assms] by (fastforce simp: shutdown_trace_def)
  with shutting_exits [OF u(2), of pt pg] show ?thesis by (auto simp: numeral_2_eq_2 relcompp_apply)
qed

lemma serving_exits:
  assumes "ps_phase s = Serving" and "ps_cancelled s"
  shows "\<exists>t. (process_step pt pg ^^ 3) s t \<and> ps_phase t = Exited None \<and> \<not> ps_polling t \<and>
    ps_trace t = shutdown_trace (pg_config pg)"
proof -
  obtain u where u: "process_step pt pg s u" "ps_phase u = Draining" "ps_trace u = [SetDraining]"
    using step_drain [OF assms] by fastforce
  have "\<exists>t. (process_step pt pg ^^ 2) u t \<and> ps_phase t = Exited None \<and> \<not> ps_polling t \<and>
      ps_trace t = shutdown_trace (pg_config pg)"
    using draining_exits [OF u(2), of pt pg] u(3) by (auto simp: shutdown_trace_def)
  moreover have "(process_step pt pg ^^ 2) u t \<Longrightarrow> (process_step pt pg ^^ 3) s t" for t
    using relpowp_Suc_I2 [where P = "process_step pt pg" and n = 2] u(1) by (simp only: eval_nat_numeral)
  ultimately show ?thesis by blast
qed

lemma running_phase: "running pt pg w s \<Longrightarrow> phase_ok (pg_config pg) s"
  by (induction rule: rtranclp_induct) (auto intro: phase_ok_launched phase_ok_step)


subsection \<open>An example\<close>

definition demo_raw :: raw_config where
  "demo_raw = default_flags\<lparr>rc_callback := ''https://x'', rc_key := concat (replicate 32 ''6b'')\<rparr>"

definition demo_libs :: "(string, string) libs" where
  "demo_libs = \<lparr> lb_level = \<lambda>_. Some 0, lb_dir_of = \<lambda>_. ''.'',
     lb_os = \<lparr> os_stat = \<lambda>_. StatDir, os_create = \<lambda>_. Some ''probe'', os_close = \<lambda>_. True, os_remove = \<lambda>_. True \<rparr>,
     lb_sql_open = \<lambda>_. None, lb_migrations = None, lb_provider = None, lb_up = None,
     lb_parse_url = Inr, lb_hostname = \<lambda>_. Inr ''x'', lb_webauthn = \<lambda>_ _ _. Inr demo_wa,
     lb_assets = Inr \<lparr> fs_stat = \<lambda>_. None, fs_read = \<lambda>_. None \<rparr>, lb_listen = \<lambda>_. None,
     lb_aead = demo_aead, lb_sha = \<lambda>x. x, lb_order = \<lambda>x. x, lb_github = demo_github, lb_forgejo = demo_forgejo,
     lb_version = ''v1'' \<rparr>"

lemma demo_config_loads: "\<exists>c. load_config (\<lambda>_. Some 0) demo_raw = Inr c \<and> cf_key c = demo_key"
proof -
  have "hex_decode (rc_key demo_raw) = Some demo_key" by code_simp
  moreover have "length demo_key = 32" by (simp add: demo_key_def)
  ultimately show ?thesis
    by (simp add: load_config_def validate_def Let_def demo_raw_def default_flags_def seconds_def hours_def)
qed

lemma demo_starts: "\<exists>pg. run_serve demo_libs demo_raw = Inr pg \<and> cf_key (pg_config pg) = demo_key"
proof -
  obtain c where "load_config (\<lambda>_. Some 0) demo_raw = Inr c" "cf_key c = demo_key"
    using demo_config_loads by blast
  then show ?thesis
    by (simp add: run_serve_def demo_libs_def stage_def failing_def wrapping_def check_dir_def Let_def db_open_def db_migrate_def
        new_forge_clients_def github_new_client_def build_handler_def new_webauthn_def)
qed

text \<open>The demo program after a signal, draining.\<close>

definition drained :: process where
  "drained = (launched tracked)\<lparr>ps_cancelled := True, ps_phase := Draining, ps_draining := True, ps_trace := [SetDraining]\<rparr>"

lemma drained_running: "running pt pg tracked drained"
proof -
  have "process_step pt pg (launched tracked) ((launched tracked)\<lparr>ps_cancelled := True\<rparr>)" by (rule step_signal)
  moreover have "process_step pt pg ((launched tracked)\<lparr>ps_cancelled := True\<rparr>) drained"
    using step_drain [of "(launched tracked)\<lparr>ps_cancelled := True\<rparr>" pt pg] by (simp add: drained_def launched_def)
  ultimately show ?thesis by (rule converse_rtranclp_into_rtranclp [OF _ r_into_rtranclp])
qed

theorem program_lifecycle_witness:
  "\<exists>pg. run_serve demo_libs demo_raw = Inr pg \<and> running demo_platform pg tracked drained \<and>
     process_answer demo_platform pg (demo_request ''GET'' [''readyz''] [] []) drained = (Inr (mark_noindex not_ready, None), tracked)"
proof -
  obtain pg where pg: "run_serve demo_libs demo_raw = Inr pg" "cf_key (pg_config pg) = demo_key"
    using demo_starts by blast
  have "asks_ready (demo_request ''GET'' [''readyz''] [] [])"
    by (simp add: asks_ready_def demo_request_def max_api_body_bytes_def)
  moreover have "permuting (lb_order demo_libs)" "permuting (\<lambda>x. x)" by (simp_all add: demo_libs_def permuting_def)
  moreover have "server_inv (lb_aead demo_libs) (cf_key (pg_config pg)) (w_db tracked)"
    using tracked_server_inv pg(2) by (simp add: demo_libs_def)
  ultimately show ?thesis
    using program_lifecycle [OF pg(1) _ _ demo_sound _ drained_running] pg(1) drained_running
    by (auto simp: drained_def launched_def)
qed


end
