(* ===== verification/Spec2Isabelle.thy ===== *)
theory Spec2Isabelle
  imports MetricsOps TimeText Settings AuthOps IngestionOps ServerOps McpTools StaticFacts Races Deliveries Lifecycle
begin

text \<open>
  \<^bold>\<open>pipeline-analytics\<close>, verified in parts. The program (Go) is one server that records the
  CI runs of repositories on GitHub and Forgejo and answers questions about them: a dashboard, a
  JSON API and a set of MCP tools. The development translates its Go code into definitions,
  function by function and with the names of the code in snake case, and proves what makes each
  part correct and what holds of the parts together.

  \<^bold>\<open>The program and its parts.\<close> A request passes the chain of \<open>internal/httpserver/server.go\<close> (noindex,
  log, body limit, session gate, route table) to a handler, which calls one of the services
  below it: metrics, authentication, settings, ingestion (registration, webhooks, run actions,
  job logs, forge tokens). Each service talks to one SQLite store through a Go interface; all
  stores share one database. Ingestion also talks to the two forge clients, and a scheduler polls
  every tracked repository through them. \<open>cmd/pipeline-analytics/main.go\<close> wires these and owns
  startup and shutdown.

  \<^bold>\<open>How Go is represented.\<close> Theories \<open>Prelude\<close>, \<open>GoText\<close>, \<open>GoFloat\<close>, \<open>GoTime\<close>, \<open>GoIO\<close>:
  \<^item> a string is its bytes (a list of characters), a time its instant as an integer of nanoseconds (its zone is not kept), an \<open>int\<close> an
    integer with \<open>wrap64\<close> written out wherever a sum or product could leave 64 bits; a \<open>float64\<close>
    is the exact real that IEEE rounding (\<open>fl64\<close>) leaves, as a rational;
  \<^item> a Go map is a list of pairs with distinct keys; a loop over a map runs in the order of a
    permutation given as an argument, so that what is proved holds of every iteration order;
  \<^item> a fallible function returns \<open>goerr + 'a\<close>; an error is a tree of sentinels, \<open>fmt.Errorf\<close>
    wrappers and details, and \<open>errors.Is\<close> is \<open>is_err\<close>; a panic is the error \<open>GoPanic\<close>;
  \<^item> a function with effects is a state transformer \<open>'a io\<close> on a \<open>world\<close>: the database, the
    rate limits a forge client remembers, the readiness cache, and an environment that fixes, by position, what the clock, the random source and the forges answer
    and which database call fails. Theorems quantify over the world, so over all of them;
  \<^item> a SQL statement is a function of the tables (\<open>Schema\<close>: one record per row of the
    migrations), with the keys, references and cascades of the schema as failing inserts and
    deletions; a transaction (\<open>txE\<close>) restores the tables when its body fails;
  \<^item> a loop is structural recursion, or a function with a termination proof; the paging of a
    forge's listing, which need not end, is a \<open>partial_function\<close> whose value \<open>None\<close> is not
    returning. There is no fuel.

  \<^bold>\<open>Theories and the code they translate.\<close>
  \<^item> \<open>Metrics\<close>, \<open>Insights\<close>, \<open>MetricsService\<close>: \<open>internal/metrics\<close> (figures, trends, health,
    failure insights, flaky steps, quarantine, the service operations);
    \<open>MetricsStore\<close>: \<open>internal/metrics/sqlite\<close>.
  \<^item> \<open>Settings\<close>: \<open>internal/settings\<close> and its store.
  \<^item> \<open>Auth\<close>, \<open>AuthStore\<close>: \<open>internal/auth\<close> and \<open>internal/auth/sqlite\<close> (ceremonies, credentials,
    sessions, API tokens).
  \<^item> \<open>Ingestion\<close>, \<open>RunServices\<close>, \<open>IngestionStore\<close>, \<open>JobLog\<close>, \<open>ForgeClients\<close>, \<open>Crypto\<close>:
    \<open>internal/ingestion\<close> with its \<open>sqlite\<close>, \<open>github\<close> and \<open>forgejo\<close> packages, and \<open>internal/crypto\<close>.
  \<^item> \<open>Http\<close>, \<open>HttpAuth\<close>, \<open>HttpMetrics\<close>, \<open>HttpIngest\<close>, \<open>Mcp\<close>, \<open>StaticFiles\<close>, \<open>Server\<close>:
    \<open>internal/httpserver\<close>, every handler, every tool, the static files, the chain and the routes.
  \<^item> \<open>MainProgram\<close>, \<open>Lifecycle\<close>: \<open>cmd/pipeline-analytics\<close>, \<open>internal/config\<close>, \<open>internal/db\<close>.

  \<^bold>\<open>Interfaces.\<close> A store interface is a record of functions; the services take it as an argument. Its
  contract is a locale, in which the lemmas of its clients are proved once, and the
  interpretation on the SQLite definitions discharges the contract:
  \<open>metrics_store\<close> (\<open>sql\<close>, \<open>sql_marks\<close>, \<open>sql_figures\<close>), \<open>settings_store\<close> (\<open>sql_settings\<close>), \<open>auth_store\<close> and
  \<open>auth_guard\<close> (\<open>sql_auth\<close>, \<open>sql_kept\<close>, \<open>sql_accounts\<close>), \<open>ingest_store\<close> (\<open>sql_ingest\<close>, \<open>ingest_frame\<close>,
  \<open>sql_whole\<close>), \<open>server_stores\<close>, which joins them for the server (\<open>wired\<close>), and \<open>comparator\<close> for the
  comparison functions that are handed to the sort routines.

  \<^bold>\<open>What is proved.\<close>
  \<^item> \<open>MetricsFacts\<close>, \<open>InsightsFacts\<close>, \<open>MetricsOps\<close>: the figures against their definitions in exact
    arithmetic or over the stored rows (percentiles, health, trends, step aggregation, pages,
    mean time to recovery, failure totals), independence of map order, agreement of the
    different views of the same steps, the life of a quarantine mark.
  \<^item> \<open>TimeText\<close>: the driver stores a time as its text, and SQL compares texts; when that is the
    order of instants that the queries here compare, and what a server outside of UTC sees.
  \<^item> \<open>Settings\<close>, \<open>AuthOps\<close>: the stored settings stay valid; at most one account, single-use
    ceremonies, the lives of sessions, tokens and passkeys; where registration and the taking of a
    ceremony are not atomic.
  \<^item> \<open>JobLog\<close>, \<open>ForgeFacts\<close>: the log tail against a reference and where it departs from its
    documentation; when a listing ends and what it then returns.
  \<^item> \<open>IngestionFacts\<close>, \<open>IngestionOps\<close>, \<open>History\<close>, \<open>Deliveries\<close>, \<open>Progress\<close>: the invariant of every
    reachable state of ingestion; \<open>history_of\<close> abstracts the run tables from ids, and storing a
    snapshot, a delivery and a poll refine one update of that history; a poll without faults
    ends and brings the history to what the forge listed. \<open>Races\<close>: any number of run upserts with
    their statements in any order, and the one way in which one of them is lost.
  \<^item> \<open>ServerGate\<close>, \<open>ServerInv\<close>, \<open>Frames\<close>, \<open>Integrity\<close>, \<open>ServerOps\<close>: the gate, what a token cannot do, which
    deliveries count, and the integrity of the database under every request; \<open>Frames\<close> says which
    store leaves which tables alone.
  \<^item> \<open>McpFacts\<close>, \<open>McpReads\<close>, \<open>McpTools\<close>: every tool, writing or reading, against the endpoint it stands
    for; the registered tools and their inputs (the table of \<open>newMCPHandler\<close>) against the mounted
    routes, and the settings schema against the service's check. \<open>StaticFacts\<close>: no static request
    reaches outside of the assets.
  \<^item> \<open>Lifecycle\<close>: startup stage by stage, and the running process as a step relation of
    requests, polls, the signal and the shutdown, with its invariant and its end.

  \<^bold>\<open>Parameters.\<close> Code that is not in the repository is an argument: the WebAuthn library, SHA-256,
  HMAC and AES-GCM (\<open>aead\<close>, with the hypothesis \<open>aead_ok\<close> that it opens what it sealed), the JSON
  decoders of request and response bodies, the MCP, GitHub and Forgejo SDKs, the answers of the
  forges over HTTP, the MIME table and \<open>http.ServeContent\<close>, Unicode's letter tables, the operating
  system's answers at startup, and the values viper finds. Every hypothesis on a parameter is
  named in the theorem, and a witness discharges it for a concrete one.

  \<^bold>\<open>Bounds of the model.\<close> A query compares times as instants, which is what the database does
  as long as every time is in UTC (\<open>TimeText\<close>). An operation is one atomic step, except where the code's own statements
  interleave in a theorem (registration, ceremonies, the upserts of runs); the database has one connection, so
  statements do not overlap, but two operations may, and this is only modelled there. Log output is left out but for
  the record of a request. Deadlines of \<open>net/http\<close> and of contexts are not modelled; a broken
  connection is a fault or a body that ends early.

  \<^bold>\<open>Not modelled.\<close> The cobra command tree and viper's lookups (library calls only), \<open>goose\<close> (the
  migrations are the schema), the embed directive of \<open>internal/webassets\<close>, the
  matching rules of \<open>ServeMux\<close> beyond the patterns in use, the read-once cache of the static
  files (the embedded files do not change), and the TypeScript front end under \<open>src/web\<close>, which is
  a client of the API.
\<close>

end
